(* ===== verification/Prelude.thy ===== *)
theory Prelude
  imports Main "HOL-Library.Word" "HOL-Library.AList" "HOL-Library.Char_ord"
    "HOL-Library.List_Lexorder"
begin

text \<open>
  Shared vocabulary of the development.

  \<^item> Machine integers: \<open>u8\<close> \<dots> \<open>u64\<close> are words of that width.
  \<^item> \<open>hashmap\<close>: a Rust \<open>HashMap\<close> is an association list with distinct keys; the order of the
    list stands for the (unspecified) iteration order of the map.  Its operations are the ones of
    \<open>HOL-Library.AList\<close>; the locale \<open>hash_map\<close> states what clients rely on.
  \<^item> \<open>watch\<close>: a \<open>tokio::sync::watch\<close> channel whose sender keeps a receiver of its own alive, so
    that \<open>send\<close> never fails.  The model keeps every value ever sent, oldest first; a receiver
    only ever sees the last one (\<open>watch_borrow\<close>).
  \<^item> \<open>run_actor\<close>: the receive loop \<open>while let Some(msg) = receiver.recv().await\<close> every actor of
    the core runs, over the sequence of messages the channel delivers.  The locales
    \<open>guarded_actor\<close>, \<open>actor_invariant\<close>, \<open>actor_order\<close> and \<open>last_writer\<close> lift one-message facts to runs.
  \<^item> \<open>codec\<close>: an encoder with a decoder that inverts it.
\<close>

type_synonym u8 = "8 word"
type_synonym u16 = "16 word"
type_synonym u32 = "32 word"
type_synonym u64 = "64 word"
type_synonym i64 = "64 word"
type_synonym bytes = "u8 list"

named_theorems hm_simps \<open>rewriting with hash maps\<close>
named_theorems step_defs \<open>definitions unfolded when one message is handled\<close>

section \<open>Hash maps\<close>

type_synonym ('k, 'v) hashmap = "('k \<times> 'v) list"

abbreviation hget :: "('k, 'v) hashmap \<Rightarrow> 'k \<Rightarrow> 'v option" where
  "hget m k \<equiv> map_of m k"

abbreviation hput :: "'k \<Rightarrow> 'v \<Rightarrow> ('k, 'v) hashmap \<Rightarrow> ('k, 'v) hashmap" where
  "hput \<equiv> AList.update"

abbreviation hdel :: "'k \<Rightarrow> ('k, 'v) hashmap \<Rightarrow> ('k, 'v) hashmap" where
  "hdel \<equiv> AList.delete"

abbreviation hkeys :: "('k, 'v) hashmap \<Rightarrow> 'k list" where
  "hkeys m \<equiv> map fst m"

abbreviation hvals :: "('k, 'v) hashmap \<Rightarrow> 'v list" where
  "hvals m \<equiv> map snd m"

definition hwf :: "('k, 'v) hashmap \<Rightarrow> bool" where
  "hwf m \<longleftrightarrow> distinct (map fst m)"

text \<open>\<open>if let Some(v) = m.get_mut(k) { *v = f(v) }\<close>\<close>

definition hmodify :: "'k \<Rightarrow> ('v \<Rightarrow> 'v) \<Rightarrow> ('k, 'v) hashmap \<Rightarrow> ('k, 'v) hashmap" where
  "hmodify k f m = (case map_of m k of None \<Rightarrow> m | Some v \<Rightarrow> AList.update k (f v) m)"

text \<open>\<open>m.retain(|k, v| p(k, v))\<close>\<close>

definition hretain :: "('k \<Rightarrow> 'v \<Rightarrow> bool) \<Rightarrow> ('k, 'v) hashmap \<Rightarrow> ('k, 'v) hashmap" where
  "hretain p m = filter (\<lambda>(k, v). p k v) m"

text \<open>\<open>for (k, v) in m.iter_mut() { *v = f(k, v) }\<close>\<close>

definition hmap :: "('k \<Rightarrow> 'v \<Rightarrow> 'w) \<Rightarrow> ('k, 'v) hashmap \<Rightarrow> ('k, 'w) hashmap" where
  "hmap f m = map (\<lambda>(k, v). (k, f k v)) m"

text \<open>\<open>iter.collect::<HashMap<_, _>>()\<close>: a later pair replaces an earlier one.\<close>

definition hcollect :: "('k \<times> 'v) list \<Rightarrow> ('k, 'v) hashmap" where
  "hcollect xs = fold (\<lambda>(k, v) m. hput k v m) xs []"

lemma hwf_Nil [simp]: "hwf []"
  by (simp add: hwf_def)

lemma hwf_hput [simp]: "hwf m \<Longrightarrow> hwf (hput k v m)"
  by (simp add: hwf_def distinct_update)

lemma hwf_hdel [simp]: "hwf m \<Longrightarrow> hwf (hdel k m)"
  by (simp add: hwf_def distinct_delete)

lemma hwf_hretain [simp]: "hwf m \<Longrightarrow> hwf (hretain p m)"
  by (induction m) (auto simp: hwf_def hretain_def)

lemma hkeys_hmap [simp]: "map fst (hmap f m) = map fst m"
  by (induction m) (auto simp: hmap_def)

lemma hwf_hmap [simp]: "hwf (hmap f m) = hwf m"
  by (simp add: hwf_def)

lemma hwf_hmodify [simp]: "hwf m \<Longrightarrow> hwf (hmodify k f m)"
  by (auto simp: hmodify_def split: option.split)

lemma hget_hput [simp]: "hget (hput k v m) k' = (if k' = k then Some v else hget m k')"
  by (auto simp: update_conv')

lemma hget_hdel [simp]: "hget (hdel k m) k' = (if k' = k then None else hget m k')"
  by (auto simp: delete_conv')

lemma hget_hmap [simp]: "hget (hmap f m) k = map_option (f k) (hget m k)"
  by (induction m) (auto simp: hmap_def)

lemma hget_hmodify [simp]:
  "hget (hmodify k f m) k' = (if k' = k then map_option f (hget m k) else hget m k')"
  by (auto simp: hmodify_def split: option.split)

lemma hget_hretain:
  "hwf m \<Longrightarrow> hget (hretain p m) k = (case hget m k of None \<Rightarrow> None
     | Some v \<Rightarrow> if p k v then Some v else None)"
proof (induction m)
  case Nil
  then show ?case by (simp add: hretain_def)
next
  case (Cons e m)
  obtain k' v' where e: "e = (k', v')" by fastforce
  have "hwf m" and "k' \<notin> fst ` set m"
    using Cons.prems e by (auto simp: hwf_def)
  then show ?case
    using Cons.IH e by (auto simp: hretain_def map_of_eq_None_iff split: option.splits)
qed

lemma hget_eq_Some_iff [hm_simps]: "hwf m \<Longrightarrow> hget m k = Some v \<longleftrightarrow> (k, v) \<in> set m"
  by (simp add: hwf_def)

lemma hget_in_hvals: "hget m k = Some v \<Longrightarrow> v \<in> set (hvals m)"
  by (force dest: map_of_SomeD)

lemma hget_in_hkeys: "hget m k = Some v \<Longrightarrow> k \<in> set (hkeys m)"
  by (force dest: map_of_SomeD)

lemma hkeys_hput: "set (hkeys (hput k v m)) = insert k (set (hkeys m))"
  using dom_update [of k v m] by (simp add: dom_map_of_conv_image_fst)

lemma hput_absent: "hget m k = None \<Longrightarrow> hput k v m = m @ [(k, v)]"
  by (induction m) (auto split: if_splits)

lemma hkeys_hput_present: "hget m k = Some w \<Longrightarrow> map fst (hput k v m) = map fst m"
  by (induction m) (auto split: if_splits)

lemma hkeys_hmodify [simp]: "map fst (hmodify k f m) = map fst m"
  by (auto simp: hmodify_def hkeys_hput_present split: option.split)

lemma hvals_hput_subset: "set (hvals (hput k v m)) \<subseteq> insert v (set (hvals m))"
  by (induction m) (auto split: if_splits)

lemma length_hmodify [simp]: "length (hmodify k f m) = length m"
  by (metis hkeys_hmodify length_map)

lemma hmodify_eq_hmap:
  "hwf m \<Longrightarrow> hmodify k f m = hmap (\<lambda>k' v. if k' = k then f v else v) m"
proof (induction m)
  case Nil
  then show ?case by (simp add: hmodify_def hmap_def)
next
  case (Cons e m)
  obtain k' v' where e: "e = (k', v')" by fastforce
  have wf: "hwf m" and new: "k' \<notin> fst ` set m"
    using Cons.prems e by (auto simp: hwf_def)
  have id: "hmap (\<lambda>k'' v. if k'' = k' then f v else v) m = m"
    using new by (induction m) (auto simp: hmap_def)
  show ?case
    using Cons.IH [OF wf] e id
    by (auto simp: hmodify_def hmap_def split: option.splits)
qed

lemma hwf_hcollect [simp]: "hwf (hcollect xs)"
proof -
  have "hwf m \<Longrightarrow> hwf (fold (\<lambda>(k, v) m. hput k v m) xs m)" for m
    by (induction xs arbitrary: m) auto
  then show ?thesis by (simp add: hcollect_def)
qed

lemma hcollect_append: "hcollect (xs @ [(k, v)]) = hput k v (hcollect xs)"
  by (simp add: hcollect_def)

lemma hkeys_hcollect [simp]: "set (hkeys (hcollect xs)) = set (map fst xs)"
proof (induction xs rule: rev_induct)
  case Nil
  then show ?case by (simp add: hcollect_def)
next
  case (snoc x xs)
  then show ?case by (cases x) (simp add: hcollect_append hkeys_hput del: set_map)
qed

text \<open>Collecting pairs whose keys are already distinct only re-reads them.\<close>

lemma hcollect_distinct: "distinct (map fst xs) \<Longrightarrow> hcollect xs = xs"
proof (induction xs rule: rev_induct)
  case Nil
  then show ?case by (simp add: hcollect_def)
next
  case (snoc x xs)
  obtain k v where x: "x = (k, v)" by fastforce
  then have "hget xs k = None"
    using snoc.prems by (simp add: map_of_eq_None_iff)
  then show ?case
    using snoc x by (simp add: hcollect_append hput_absent)
qed

text \<open>\<open>filter_map\<close> over the entries of a map, keeping their keys.\<close>

lemma map_filter_keys:
  "set (map fst (List.map_filter (\<lambda>(k, v). map_option (Pair k) (g k v)) m)) \<subseteq> set (map fst m)"
  by (induction m) (auto simp: List.map_filter_simps split: option.split)

lemma hwf_map_filter:
  "hwf m \<Longrightarrow> hwf (List.map_filter (\<lambda>(k, v). map_option (Pair k) (g k v)) m)"
proof (induction m)
  case (Cons e m)
  then show ?case
    using map_filter_keys [of g m]
    by (cases e) (auto simp: hwf_def List.map_filter_simps split: option.split)
qed (simp add: List.map_filter_simps)

lemma hget_map_filter:
  "hwf m \<Longrightarrow> hget (List.map_filter (\<lambda>(k, v). map_option (Pair k) (g k v)) m) k =
     Option.bind (hget m k) (g k)"
proof (induction m)
  case (Cons e m)
  then show ?case
    using map_filter_keys [of g m]
    by (cases e) (auto simp: hwf_def List.map_filter_simps map_of_eq_None_iff split: option.split)
qed (simp add: List.map_filter_simps)

text \<open>What the clients of a hash map rely on.\<close>

locale hash_map =
  fixes empty :: 'm
    and get :: "'m \<Rightarrow> 'k \<Rightarrow> 'v option"
    and put :: "'k \<Rightarrow> 'v \<Rightarrow> 'm \<Rightarrow> 'm"
    and remove :: "'k \<Rightarrow> 'm \<Rightarrow> 'm"
    and entries :: "'m \<Rightarrow> ('k \<times> 'v) list"
    and wf :: "'m \<Rightarrow> bool"
  assumes wf_empty: "wf empty"
    and wf_put: "wf m \<Longrightarrow> wf (put k v m)"
    and wf_remove: "wf m \<Longrightarrow> wf (remove k m)"
    and get_empty: "get empty k = None"
    and get_put: "get (put k v m) k' = (if k' = k then Some v else get m k')"
    and get_remove: "get (remove k m) k' = (if k' = k then None else get m k')"
    and entries_get: "wf m \<Longrightarrow> (k, v) \<in> set (entries m) \<longleftrightarrow> get m k = Some v"
    and entries_distinct: "wf m \<Longrightarrow> distinct (map fst (entries m))"
begin

lemma get_put_same: "get (put k v m) k = Some v"
  by (simp add: get_put)

lemma get_put_other: "k' \<noteq> k \<Longrightarrow> get (put k v m) k' = get m k'"
  by (simp add: get_put)

lemma entries_remove:
  "wf m \<Longrightarrow> (k', v) \<in> set (entries (remove k m)) \<longleftrightarrow> k' \<noteq> k \<and> (k', v) \<in> set (entries m)"
  by (simp add: entries_get wf_remove get_remove)

lemma entries_put:
  "wf m \<Longrightarrow> (k', w) \<in> set (entries (put k v m)) \<longleftrightarrow>
     (if k' = k then w = v else (k', w) \<in> set (entries m))"
  by (auto simp: entries_get wf_put get_put)

lemma entry_unique:
  "wf m \<Longrightarrow> (k, v) \<in> set (entries m) \<Longrightarrow> (k, w) \<in> set (entries m) \<Longrightarrow> v = w"
  by (simp add: entries_get)

end

interpretation hm: hash_map "[]" map_of AList.update AList.delete "\<lambda>m. m" hwf
  by unfold_locales (simp_all add: hget_eq_Some_iff, simp add: hwf_def)

section \<open>Watch channels\<close>

type_synonym 'a watch = "'a list"

definition watch_channel :: "'a \<Rightarrow> 'a watch" where
  "watch_channel v = [v]"

definition watch_send :: "'a \<Rightarrow> 'a watch \<Rightarrow> 'a watch" where
  "watch_send v w = w @ [v]"

definition watch_borrow :: "'a watch \<Rightarrow> 'a" where
  "watch_borrow w = last w"

lemma watch_borrow_send [simp]: "watch_borrow (watch_send v w) = v"
  by (simp add: watch_borrow_def watch_send_def)

lemma watch_borrow_channel [simp]: "watch_borrow (watch_channel v) = v"
  by (simp add: watch_borrow_def watch_channel_def)

section \<open>Actors\<close>

text \<open>The receive loop of an actor over the messages its channel delivers, in order.\<close>

fun run_actor :: "('s \<Rightarrow> 'm \<Rightarrow> 's \<times> 'r) \<Rightarrow> 's \<Rightarrow> 'm list \<Rightarrow> 's \<times> 'r list" where
  "run_actor step s [] = (s, [])"
| "run_actor step s (m # ms) =
     (let (s1, r) = step s m; (s2, rs) = run_actor step s1 ms in (s2, r # rs))"

text \<open>Every message of the sequence satisfies \<open>ok\<close> in the state in which it is handled.\<close>

fun run_ok :: "('s \<Rightarrow> 'm \<Rightarrow> 's \<times> 'r) \<Rightarrow> ('s \<Rightarrow> 'm \<Rightarrow> bool) \<Rightarrow> 's \<Rightarrow> 'm list \<Rightarrow> bool" where
  "run_ok step ok s [] = True"
| "run_ok step ok s (m # ms) = (ok s m \<and> run_ok step ok (fst (step s m)) ms)"

lemma fst_run_actor_Cons [simp]:
  "fst (run_actor step s (m # ms)) = fst (run_actor step (fst (step s m)) ms)"
  by (simp add: case_prod_beta)

lemma snd_run_actor_Cons:
  "snd (run_actor step s (m # ms)) = snd (step s m) # snd (run_actor step (fst (step s m)) ms)"
  by (simp add: case_prod_beta)

declare run_actor.simps(2) [simp del]

lemma fst_run_actor_append:
  "fst (run_actor step s (ms @ ns)) = fst (run_actor step (fst (run_actor step s ms)) ns)"
  by (induction ms arbitrary: s) simp_all

lemma run_ok_True [simp]: "run_ok step (\<lambda>_ _. True) s ms"
  by (induction ms arbitrary: s) simp_all

lemma run_ok_append:
  "run_ok step ok s (ms @ ns) = (run_ok step ok s ms \<and> run_ok step ok (fst (run_actor step s ms)) ns)"
  by (induction ms arbitrary: s) auto

lemma run_ok_list_all: "run_ok step (\<lambda>_. ok) s ms = list_all ok ms"
  by (induction ms arbitrary: s) simp_all

text \<open>The states an actor can be in: from the start state, by handled messages.\<close>

inductive reachable :: "('s \<Rightarrow> 'm \<Rightarrow> 's \<times> 'r) \<Rightarrow> ('s \<Rightarrow> 'm \<Rightarrow> bool) \<Rightarrow> 's \<Rightarrow> 's \<Rightarrow> bool"
  for step ok s0 where
  start: "reachable step ok s0 s0"
| handle: "reachable step ok s0 s \<Longrightarrow> ok s m \<Longrightarrow> reachable step ok s0 (fst (step s m))"

lemma reachable_run: "reachable step ok s0 s \<Longrightarrow> run_ok step ok s ms \<Longrightarrow>
    reachable step ok s0 (fst (run_actor step s ms))"
  by (induction ms arbitrary: s) (auto intro: reachable.handle)

locale guarded_actor =
  fixes step :: "'s \<Rightarrow> 'm \<Rightarrow> 's \<times> 'r"
    and ok :: "'s \<Rightarrow> 'm \<Rightarrow> bool"
    and inv :: "'s \<Rightarrow> bool"
  assumes step_inv: "inv s \<Longrightarrow> ok s m \<Longrightarrow> inv (fst (step s m))"
begin

lemma run_inv: "inv s \<Longrightarrow> run_ok step ok s ms \<Longrightarrow> inv (fst (run_actor step s ms))"
  by (induction ms arbitrary: s) (auto intro: step_inv)

lemma reachable_inv: "reachable step ok s0 s \<Longrightarrow> inv s0 \<Longrightarrow> inv s"
  by (induction rule: reachable.induct) (auto intro: step_inv)

end

locale actor_invariant =
  fixes step :: "'s \<Rightarrow> 'm \<Rightarrow> 's \<times> 'r"
    and inv :: "'s \<Rightarrow> bool"
  assumes keeps: "inv s \<Longrightarrow> inv (fst (step s m))"

sublocale actor_invariant \<subseteq> guarded_actor step "\<lambda>_ _. True" inv
  by unfold_locales (rule keeps)

text \<open>A relation between an earlier and a later state of an actor.\<close>

locale actor_order =
  fixes step :: "'s \<Rightarrow> 'm \<Rightarrow> 's \<times> 'r"
    and le :: "'s \<Rightarrow> 's \<Rightarrow> bool"
  assumes le_refl: "le s s"
    and le_trans: "le s t \<Longrightarrow> le t u \<Longrightarrow> le s u"
    and le_step: "le s (fst (step s m))"
begin

lemma le_run: "le s (fst (run_actor step s ms))"
  by (induction ms arbitrary: s) (auto intro: le_refl le_trans [OF le_step])

lemma le_later: "le (fst (run_actor step s ms)) (fst (run_actor step s (ms @ ns)))"
  by (simp add: fst_run_actor_append le_run)

end

text \<open>
  A cell of an actor's state that messages fill and clear: a value found in it was put there by an
  earlier message, and no message after that one clears the cell.
\<close>

locale last_writer =
  fixes step :: "'s \<Rightarrow> 'm \<Rightarrow> 's \<times> 'r"
    and cell :: "'s \<Rightarrow> 'v option"
    and writes :: "'s \<Rightarrow> 'm \<Rightarrow> 'v \<Rightarrow> bool"
    and clears :: "'s \<Rightarrow> 'm \<Rightarrow> bool"
  assumes cell_step: "cell (fst (step s m)) = Some v \<Longrightarrow> (cell s = Some v \<and> \<not> clears s m) \<or> writes s m v"
begin

lemma written:
  "cell (fst (run_actor step s ms)) = Some v \<Longrightarrow> cell s = None \<Longrightarrow>
   \<exists>pre m post. ms = pre @ m # post \<and> writes (fst (run_actor step s pre)) m v \<and>
     run_ok step (\<lambda>s m. \<not> clears s m) (fst (run_actor step s (pre @ [m]))) post"
proof (induction ms rule: rev_induct)
  case (snoc m ms)
  let ?s = "fst (run_actor step s ms)"
  consider "cell ?s = Some v" "\<not> clears ?s m" | "writes ?s m v"
    using cell_step [of ?s m v] snoc.prems by (auto simp: fst_run_actor_append)
  then show ?case
  proof cases
    case 1
    then obtain pre m' post where w: "ms = pre @ m' # post" "writes (fst (run_actor step s pre)) m' v"
      "run_ok step (\<lambda>s m. \<not> clears s m) (fst (run_actor step s (pre @ [m']))) post" using snoc by blast
    then have "run_ok step (\<lambda>s m. \<not> clears s m) (fst (run_actor step s (pre @ [m']))) (post @ [m])"
      using 1 by (simp add: run_ok_append fst_run_actor_append)
    then show ?thesis using w by (intro exI [of _ pre] exI [of _ m'] exI [of _ "post @ [m]"]) simp
  next
    case 2
    then show ?thesis by (intro exI [of _ ms] exI [of _ m] exI [of _ "[]"]) simp
  qed
qed simp

end

section \<open>Codecs\<close>

locale codec =
  fixes enc :: "'a \<Rightarrow> 'b"
    and dec :: "'b \<Rightarrow> 'a option"
    and valid :: "'a \<Rightarrow> bool"
  assumes dec_enc: "valid x \<Longrightarrow> dec (enc x) = Some x"
begin

lemma enc_inject: "valid x \<Longrightarrow> valid y \<Longrightarrow> enc x = enc y \<longleftrightarrow> x = y"
  by (metis dec_enc option.inject)

lemma dec_total: "valid x \<Longrightarrow> dec (enc x) \<noteq> None"
  by (simp add: dec_enc)

end

end
