(* ===== verification/Std_Str.thy ===== *)
theory Std_Str
  imports Prelude
begin

text \<open>
  The operations of Rust's \<open>str\<close>/\<open>String\<close> the program uses.  A \<open>string\<close> is the sequence of
  UTF-8 bytes of the Rust string (one \<open>char\<close> per byte), so lengths and the byte-wise ordering
  are Rust's.  White space is the full \<open>White_Space\<close> set of \<open>str::trim\<close>, as byte sequences.
  \<open>from_utf8_lossy\<close> follows the standard library: every maximal ill-formed subpart becomes
  U+FFFD.
\<close>

section \<open>Bytes and UTF-8\<close>

definition byte_of_char :: "char \<Rightarrow> u8" where
  "byte_of_char c = word_of_nat (of_char c)"

definition char_of_byte :: "u8 \<Rightarrow> char" where
  "char_of_byte b = char_of (unat b)"

definition as_bytes :: "string \<Rightarrow> bytes" where
  "as_bytes s = map byte_of_char s"

definition str_of_bytes :: "bytes \<Rightarrow> string" where
  "str_of_bytes b = map char_of_byte b"

definition is_cont :: "u8 \<Rightarrow> bool" where
  "is_cont b \<longleftrightarrow> 0x80 \<le> b \<and> b \<le> 0xBF"

text \<open>The range of the second byte after a given lead byte (\<open>None\<close>: not a multi-byte lead).\<close>

definition second_ok :: "u8 \<Rightarrow> u8 \<Rightarrow> bool" where
  "second_ok l b \<longleftrightarrow>
     (if l = 0xE0 then 0xA0 \<le> b \<and> b \<le> 0xBF
      else if l = 0xED then 0x80 \<le> b \<and> b \<le> 0x9F
      else if l = 0xF0 then 0x90 \<le> b \<and> b \<le> 0xBF
      else if l = 0xF4 then 0x80 \<le> b \<and> b \<le> 0x8F
      else is_cont b)"

definition seq_len :: "u8 \<Rightarrow> nat" where
  "seq_len l =
     (if l < 0x80 then 1
      else if 0xC2 \<le> l \<and> l \<le> 0xDF then 2
      else if 0xE0 \<le> l \<and> l \<le> 0xEF then 3
      else if 0xF0 \<le> l \<and> l \<le> 0xF4 then 4
      else 0)"

text \<open>
  One step of the decoder: how many bytes it consumes and whether they are a well-formed
  character.
\<close>

definition utf8_step :: "u8 \<Rightarrow> bytes \<Rightarrow> nat \<times> bool" where
  "utf8_step l r =
     (let n = seq_len l in
      if n = 1 then (1, True)
      else if n = 0 then (1, False)
      else if r = [] \<or> \<not> second_ok l (hd r) then (1, False)
      else if n = 2 then (2, True)
      else if length r < 2 \<or> \<not> is_cont (r ! 1) then (2, False)
      else if n = 3 then (3, True)
      else if length r < 3 \<or> \<not> is_cont (r ! 2) then (3, False)
      else (4, True))"

definition replacement :: bytes where
  "replacement = [0xEF, 0xBF, 0xBD]"

function utf8_lossy :: "bytes \<Rightarrow> bytes" where
  "utf8_lossy [] = []"
| "utf8_lossy (l # r) =
     (let (n, ok) = utf8_step l r in
      (if ok then take n (l # r) else replacement) @ utf8_lossy (drop (n - 1) r))"
  by pat_completeness auto
termination
  by (relation "measure length") auto

function valid_utf8 :: "bytes \<Rightarrow> bool" where
  "valid_utf8 [] = True"
| "valid_utf8 (l # r) =
     (let (n, ok) = utf8_step l r in ok \<and> valid_utf8 (drop (n - 1) r))"
  by pat_completeness auto
termination
  by (relation "measure length") auto

definition from_utf8_lossy :: "bytes \<Rightarrow> string" where
  "from_utf8_lossy b = str_of_bytes (utf8_lossy b)"

section \<open>Searching and splitting\<close>

definition starts_with :: "string \<Rightarrow> string \<Rightarrow> bool" where
  "starts_with s p \<longleftrightarrow> take (length p) s = p"

definition ends_with :: "string \<Rightarrow> string \<Rightarrow> bool" where
  "ends_with s p \<longleftrightarrow> starts_with (rev s) (rev p)"

definition strip_prefix :: "string \<Rightarrow> string \<Rightarrow> string option" where
  "strip_prefix s p = (if starts_with s p then Some (drop (length p) s) else None)"

definition strip_suffix :: "string \<Rightarrow> string \<Rightarrow> string option" where
  "strip_suffix s p = map_option rev (strip_prefix (rev s) (rev p))"

fun str_contains :: "string \<Rightarrow> string \<Rightarrow> bool" where
  "str_contains [] p = (p = [])"
| "str_contains (c # s) p = (starts_with (c # s) p \<or> str_contains s p)"

text \<open>\<open>s.split(c)\<close>: always at least one piece.\<close>

fun split_char :: "char \<Rightarrow> string \<Rightarrow> string list" where
  "split_char c [] = [[]]"
| "split_char c (x # s) =
     (if x = c then [] # split_char c s
      else case split_char c s of [] \<Rightarrow> [[x]] | p # ps \<Rightarrow> (x # p) # ps)"

text \<open>\<open>s.split_once(c)\<close> and \<open>s.rsplit_once(c)\<close>.\<close>

fun split_once :: "char \<Rightarrow> string \<Rightarrow> (string \<times> string) option" where
  "split_once c [] = None"
| "split_once c (x # s) =
     (if x = c then Some ([], s)
      else map_option (\<lambda>(a, b). (x # a, b)) (split_once c s))"

definition rsplit_once :: "char \<Rightarrow> string \<Rightarrow> (string \<times> string) option" where
  "rsplit_once c s = map_option (\<lambda>(a, b). (rev b, rev a)) (split_once c (rev s))"

text \<open>\<open>s.split("\r\n")\<close>.\<close>

definition cr :: char where
  "cr = CHR 0x0D"

definition lf :: char where
  "lf = CHR 0x0A"

fun split_crlf :: "string \<Rightarrow> string list" where
  "split_crlf [] = [[]]"
| "split_crlf [x] = [[x]]"
| "split_crlf (x # y # s) =
     (if x = cr \<and> y = lf then [] # split_crlf s
      else case split_crlf (y # s) of [] \<Rightarrow> [[x]] | p # ps \<Rightarrow> (x # p) # ps)"

text \<open>\<open>s.lines()\<close>: split at line feeds, drop one trailing carriage return, no empty last line.\<close>

definition strip_cr :: "string \<Rightarrow> string" where
  "strip_cr l = (if l \<noteq> [] \<and> last l = cr then butlast l else l)"

definition str_lines :: "string \<Rightarrow> string list" where
  "str_lines s =
     (let ps = split_char lf s in
      if last ps = [] then map strip_cr (butlast ps)
      else map strip_cr (butlast ps) @ [last ps])"

section \<open>White space\<close>

definition ws_seqs :: "string list" where
  "ws_seqs =
     [[CHR 0x09], [CHR 0x0A], [CHR 0x0B], [CHR 0x0C], [CHR 0x0D], [CHR 0x20],
      [CHR 0xC2, CHR 0x85], [CHR 0xC2, CHR 0xA0], [CHR 0xE1, CHR 0x9A, CHR 0x80],
      [CHR 0xE2, CHR 0x80, CHR 0x80], [CHR 0xE2, CHR 0x80, CHR 0x81],
      [CHR 0xE2, CHR 0x80, CHR 0x82], [CHR 0xE2, CHR 0x80, CHR 0x83],
      [CHR 0xE2, CHR 0x80, CHR 0x84], [CHR 0xE2, CHR 0x80, CHR 0x85],
      [CHR 0xE2, CHR 0x80, CHR 0x86], [CHR 0xE2, CHR 0x80, CHR 0x87],
      [CHR 0xE2, CHR 0x80, CHR 0x88], [CHR 0xE2, CHR 0x80, CHR 0x89],
      [CHR 0xE2, CHR 0x80, CHR 0x8A], [CHR 0xE2, CHR 0x80, CHR 0xA8],
      [CHR 0xE2, CHR 0x80, CHR 0xA9], [CHR 0xE2, CHR 0x80, CHR 0xAF],
      [CHR 0xE2, CHR 0x81, CHR 0x9F], [CHR 0xE3, CHR 0x80, CHR 0x80]]"

definition seq_at :: "string list \<Rightarrow> string \<Rightarrow> nat" where
  "seq_at ws s = (case find (starts_with s) ws of None \<Rightarrow> 0 | Some w \<Rightarrow> length w)"

text \<open>Fuelled by the length of the string: each round drops at least one byte.\<close>

fun skip_seqs :: "nat \<Rightarrow> string list \<Rightarrow> string \<Rightarrow> string" where
  "skip_seqs 0 ws s = s"
| "skip_seqs (Suc n) ws s =
     (let k = seq_at ws s in if k = 0 then s else skip_seqs n ws (drop k s))"

definition trim_start_seqs :: "string list \<Rightarrow> string \<Rightarrow> string" where
  "trim_start_seqs ws s = skip_seqs (length s) ws s"

definition trim_end_seqs :: "string list \<Rightarrow> string \<Rightarrow> string" where
  "trim_end_seqs ws s = rev (trim_start_seqs (map rev ws) (rev s))"

definition str_trim :: "string \<Rightarrow> string" where
  "str_trim s = trim_end_seqs ws_seqs (trim_start_seqs ws_seqs s)"

definition str_trim_end :: "string \<Rightarrow> string" where
  "str_trim_end s = trim_end_seqs ws_seqs s"

text \<open>\<open>s.trim_matches(cs)\<close> for a set of ASCII characters.\<close>

definition trim_matches :: "char list \<Rightarrow> string \<Rightarrow> string" where
  "trim_matches cs s = rev (dropWhile (\<lambda>c. c \<in> set cs) (rev (dropWhile (\<lambda>c. c \<in> set cs) s)))"

text \<open>\<open>s.split_whitespace()\<close>: the non-empty pieces between white space; \<open>n\<close> is fuel.\<close>

fun split_ws :: "nat \<Rightarrow> string \<Rightarrow> string \<Rightarrow> string list" where
  "split_ws 0 acc s = (if acc = [] then [] else [rev acc])"
| "split_ws (Suc n) acc [] = (if acc = [] then [] else [rev acc])"
| "split_ws (Suc n) acc (c # s) =
     (let k = seq_at ws_seqs (c # s) in
      if k = 0 then split_ws n (c # acc) s
      else (if acc = [] then [] else [rev acc]) @ split_ws n [] (drop k (c # s)))"

definition split_whitespace :: "string \<Rightarrow> string list" where
  "split_whitespace s = split_ws (Suc (length s)) [] s"

section \<open>Case and numbers\<close>

definition ascii_lower :: "char \<Rightarrow> char" where
  "ascii_lower c =
     (let n = (of_char c :: nat) in if 65 \<le> n \<and> n \<le> 90 then char_of (n + 32) else c)"

definition eq_ignore_ascii_case :: "string \<Rightarrow> string \<Rightarrow> bool" where
  "eq_ignore_ascii_case a b \<longleftrightarrow> map ascii_lower a = map ascii_lower b"

definition is_digit :: "char \<Rightarrow> bool" where
  "is_digit c \<longleftrightarrow> 48 \<le> (of_char c :: nat) \<and> (of_char c :: nat) \<le> 57"

definition digit_val :: "char \<Rightarrow> nat" where
  "digit_val c = of_char c - 48"

definition digit_char :: "nat \<Rightarrow> char" where
  "digit_char n = char_of (48 + n)"

definition digits_val :: "string \<Rightarrow> nat" where
  "digits_val s = foldl (\<lambda>n c. 10 * n + digit_val c) 0 s"

text \<open>
  \<open>s.parse::<uN>()\<close>: an optional plus sign, at least one digit, at most the maximum of the
  type.  The model returns \<open>None\<close> where the parse is an \<open>Err\<close>.
\<close>

definition parse_uint :: "nat \<Rightarrow> string \<Rightarrow> nat option" where
  "parse_uint mx s =
     (let d = (case s of [] \<Rightarrow> [] | c # r \<Rightarrow> if c = CHR ''+'' then r else s) in
      if d \<noteq> [] \<and> list_all is_digit d \<and> digits_val d \<le> mx then Some (digits_val d) else None)"

definition parse_u8 :: "string \<Rightarrow> u8 option" where
  "parse_u8 s = map_option word_of_nat (parse_uint 255 s)"

definition parse_u16 :: "string \<Rightarrow> u16 option" where
  "parse_u16 s = map_option word_of_nat (parse_uint 65535 s)"

definition parse_u64 :: "string \<Rightarrow> u64 option" where
  "parse_u64 s = map_option word_of_nat (parse_uint 18446744073709551615 s)"

text \<open>\<open>format!("{n}")\<close> for an unsigned integer.\<close>

fun show_nat :: "nat \<Rightarrow> string" where
  "show_nat n = (if n < 10 then [digit_char n] else show_nat (n div 10) @ [digit_char (n mod 10)])"

declare show_nat.simps [simp del]

section \<open>Lemmas\<close>

lemma char_of_byte_of_char [simp]: "char_of_byte (byte_of_char c) = c"
proof -
  have "(of_char c :: nat) < 256" by simp
  then show ?thesis
    by (simp add: char_of_byte_def byte_of_char_def unat_of_nat take_bit_nat_eq_self)
qed

lemma byte_of_char_of_byte [simp]: "byte_of_char (char_of_byte b) = b"
proof -
  have "unat b < 256" using unsigned_less [of b, where ?'a = nat] by simp
  then show ?thesis by (simp add: char_of_byte_def byte_of_char_def)
qed

lemma str_of_as_bytes [simp]: "str_of_bytes (as_bytes s) = s"
  by (simp add: str_of_bytes_def as_bytes_def o_def)

lemma as_bytes_str_of [simp]: "as_bytes (str_of_bytes b) = b"
  by (simp add: str_of_bytes_def as_bytes_def o_def)

lemma length_as_bytes [simp]: "length (as_bytes s) = length s"
  by (simp add: as_bytes_def)

lemma as_bytes_inject [simp]: "as_bytes s = as_bytes t \<longleftrightarrow> s = t"
  by (metis str_of_as_bytes)

lemma utf8_step_pos: "fst (utf8_step l r) \<noteq> 0"
  by (simp add: utf8_step_def Let_def)

text \<open>Well-formed text survives the lossy decoding unchanged.\<close>

lemma utf8_lossy_valid: "valid_utf8 b \<Longrightarrow> utf8_lossy b = b"
proof (induction b rule: utf8_lossy.induct)
  case 1
  then show ?case by simp
next
  case (2 l r)
  obtain n ok where st: "utf8_step l r = (n, ok)" by fastforce
  moreover have "n \<noteq> 0" using st utf8_step_pos [of l r] by simp
  then obtain m where "n = Suc m" by (cases n) auto
  ultimately show ?case using 2 by simp
qed

lemma from_utf8_lossy_as_bytes: "valid_utf8 (as_bytes s) \<Longrightarrow> from_utf8_lossy (as_bytes s) = s"
  by (simp add: from_utf8_lossy_def utf8_lossy_valid)

lemma valid_utf8_ascii: "list_all (\<lambda>b. b < 0x80) b \<Longrightarrow> valid_utf8 b"
  by (induction b) (auto simp: utf8_step_def seq_len_def)

lemma digit_val_digit_char [simp]: "n < 10 \<Longrightarrow> digit_val (digit_char n) = n"
  by (simp add: digit_val_def digit_char_def)

lemma is_digit_digit_char [simp]: "n < 10 \<Longrightarrow> is_digit (digit_char n)"
  by (simp add: is_digit_def digit_char_def)

lemma digits_val_snoc [simp]: "digits_val (s @ [c]) = 10 * digits_val s + digit_val c"
  by (simp add: digits_val_def)

lemma digits_val_Nil [simp]: "digits_val [] = 0"
  by (simp add: digits_val_def)

lemma show_nat_digits: "list_all is_digit (show_nat n)"
proof (induction n rule: show_nat.induct)
  case (1 n)
  then show ?case by (subst show_nat.simps) auto
qed

lemma show_nat_not_Nil [simp]: "show_nat n \<noteq> []"
  by (subst show_nat.simps) simp

lemma digits_val_show_nat [simp]: "digits_val (show_nat n) = n"
proof (induction n rule: show_nat.induct)
  case (1 n)
  show ?case
  proof (cases "n < 10")
    case True
    then show ?thesis by (subst show_nat.simps) (simp add: digits_val_def)
  next
    case False
    then show ?thesis using 1 by (subst show_nat.simps) simp
  qed
qed

lemma is_digit_plus: "\<not> is_digit (CHR ''+'')"
  by (simp add: is_digit_def)

lemma is_digit_colon: "\<not> is_digit (CHR '':'')"
  by (simp add: is_digit_def)

text \<open>Parsing what the program prints gives the number back.\<close>

lemma parse_uint_show_nat: "n \<le> mx \<Longrightarrow> parse_uint mx (show_nat n) = Some n"
proof -
  assume le: "n \<le> mx"
  obtain c r where s: "show_nat n = c # r"
    by (cases "show_nat n") simp_all
  then have "c \<noteq> CHR ''+''"
    using show_nat_digits [of n] is_digit_plus by auto
  then show ?thesis
    using le s show_nat_digits [of n] digits_val_show_nat [of n]
    by (auto simp: parse_uint_def Let_def)
qed

lemma parse_u16_show_nat [simp]: "parse_u16 (show_nat (unat p)) = Some p"
proof -
  have "unat p \<le> 65535" using unsigned_less [of p, where ?'a = nat] by simp
  then show ?thesis by (simp add: parse_u16_def parse_uint_show_nat)
qed

lemma split_once_append: "c \<notin> set a \<Longrightarrow> split_once c (a @ c # b) = Some (a, b)"
  by (induction a) auto

lemma split_once_None: "split_once c s = None \<longleftrightarrow> c \<notin> set s"
  by (induction s) auto

lemma split_once_Some: "split_once c s = Some (a, b) \<Longrightarrow> s = a @ c # b \<and> c \<notin> set a"
  by (induction s arbitrary: a) (auto split: if_splits)

lemma rsplit_once_append: "c \<notin> set b \<Longrightarrow> rsplit_once c (a @ c # b) = Some (a, b)"
  by (simp add: rsplit_once_def split_once_append)

lemma rsplit_once_Some: "rsplit_once c s = Some (a, b) \<Longrightarrow> s = a @ c # b \<and> c \<notin> set b"
  by (auto simp: rsplit_once_def dest!: split_once_Some)
    (metis append.assoc append_Cons append_Nil rev.simps(2) rev_append rev_rev_ident)

lemma starts_with_append [simp]: "starts_with (p @ s) p"
  by (simp add: starts_with_def)

lemma strip_prefix_append [simp]: "strip_prefix (p @ s) p = Some s"
  by (simp add: strip_prefix_def)

lemma split_char_not_Nil: "split_char c s \<noteq> []"
  by (induction s) (auto split: list.split)

lemma strip_prefix_Some: "strip_prefix s p = Some r \<Longrightarrow> s = p @ r"
  unfolding strip_prefix_def starts_with_def by (metis append_take_drop_id option.distinct(1) option.inject)

lemma split_char_first:
  assumes "c \<notin> set a"
  shows "hd (split_char c (a @ c # b)) = a" "hd (split_char c a) = a"
  using assms by (induction a) (auto simp: split_char_not_Nil split: list.split)

lemma split_char_whole: "c \<notin> set a \<Longrightarrow> split_char c a = [a]"
  by (induction a) auto

lemma split_char_append: "c \<notin> set a \<Longrightarrow> split_char c (a @ c # b) = a # split_char c b"
  by (induction a) (auto simp: split_char_not_Nil split: list.split)

text \<open>Text whose ends are not white space is left alone by \<open>trim\<close>.\<close>

lemma skip_seqs_id: "seq_at ws s = 0 \<Longrightarrow> skip_seqs n ws s = s"
  by (cases n) auto

lemma str_trim_id:
  "seq_at ws_seqs s = 0 \<Longrightarrow> seq_at (map rev ws_seqs) (rev s) = 0 \<Longrightarrow> str_trim s = s"
  by (simp add: str_trim_def trim_end_seqs_def trim_start_seqs_def skip_seqs_id)

lemma ws_seqs_no_digit:
  "list_all (\<lambda>w. w \<noteq> [] \<and> \<not> is_digit (hd w) \<and> \<not> is_digit (hd (rev w))) ws_seqs"
  by (simp add: ws_seqs_def is_digit_def)

lemma seq_at_0:
  assumes "list_all (\<lambda>w. w \<noteq> [] \<and> hd w \<noteq> c) ws"
  shows "seq_at ws (c # s) = 0"
proof -
  have "find (starts_with (c # s)) ws = None"
    using assms by (induction ws) (auto simp: starts_with_def neq_Nil_conv)
  then show ?thesis by (simp add: seq_at_def)
qed

lemma seq_at_ws_digit:
  assumes "is_digit c"
  shows "seq_at ws_seqs (c # s) = 0" and "seq_at (map rev ws_seqs) (c # s) = 0"
  using ws_seqs_no_digit assms by (auto simp: list_all_iff intro!: seq_at_0)

lemma str_trim_show_nat [simp]: "str_trim (show_nat n) = show_nat n"
proof -
  obtain c r where s: "show_nat n = c # r"
    by (cases "show_nat n") simp_all
  obtain c' r' where s': "rev (show_nat n) = c' # r'"
    by (cases "rev (show_nat n)") simp_all
  have "is_digit c" using s show_nat_digits [of n] by simp
  moreover have "is_digit c'"
    using s' show_nat_digits [of n] by (metis list.set_intros(1) list_all_iff set_rev)
  ultimately show ?thesis
    using s s' by (metis seq_at_ws_digit str_trim_id)
qed

end
