(* ===== verification/Model.thy ===== *)
theory Model
  imports Prelude Std_Str
begin

text \<open>
  The data model of \<open>src/rust/core/src/model.rs\<close>: devices, the protocol DTOs and the session
  states, with the conversions between them.  Enumerations keep the source's variants in the
  source's order; a variant name that several enums share carries a prefix (\<open>FPending\<close> is
  \<open>FileState::Pending\<close>).
\<close>

section \<open>Devices\<close>

definition PROTOCOL_VERSION :: string where
  "PROTOCOL_VERSION = ''2.2''"

record NodeDevice =
  nd_alias :: string
  nd_version :: string
  nd_device_model :: string
  nd_device_type :: string
  nd_fingerprint :: string
  nd_address :: string
  nd_port :: u16
  nd_protocol :: string
  nd_download :: bool
  nd_announcement :: bool
  nd_announce :: bool
  nd_discovery_source :: string

definition default_discovery_source :: string where
  "default_discovery_source = ''lan''"

record NodeAnnounce =
  na_alias :: string
  na_version :: string
  na_device_model :: string
  na_device_type :: string
  na_fingerprint :: string
  na_port :: u16
  na_protocol :: string
  na_download :: bool
  na_announcement :: bool
  na_announce :: bool

definition from_announce :: "NodeAnnounce \<Rightarrow> string \<Rightarrow> NodeDevice" where
  "from_announce a address =
     \<lparr>nd_alias = na_alias a, nd_version = na_version a, nd_device_model = na_device_model a,
      nd_device_type = na_device_type a, nd_fingerprint = na_fingerprint a, nd_address = address,
      nd_port = na_port a, nd_protocol = na_protocol a, nd_download = na_download a,
      nd_announcement = na_announcement a, nd_announce = na_announce a,
      nd_discovery_source = default_discovery_source\<rparr>"

definition to_announce :: "NodeDevice \<Rightarrow> NodeAnnounce" where
  "to_announce d =
     \<lparr>na_alias = nd_alias d, na_version = nd_version d, na_device_model = nd_device_model d,
      na_device_type = nd_device_type d, na_fingerprint = nd_fingerprint d, na_port = nd_port d,
      na_protocol = nd_protocol d, na_download = nd_download d,
      na_announcement = nd_announcement d, na_announce = nd_announce d\<rparr>"

definition default_protocol :: string where
  "default_protocol = ''http''"

text \<open>
  \<open>NodeDevice::manual\<close>: a target from an \<open>address:port\<close> string, split at the last colon.
\<close>

definition manual :: "string \<Rightarrow> NodeDevice option" where
  "manual addr =
     (case rsplit_once (CHR '':'') addr of
        None \<Rightarrow> None
      | Some (a, p) \<Rightarrow>
          (case parse_u16 (str_trim p) of
             None \<Rightarrow> None
           | Some port \<Rightarrow>
               let address = trim_matches [CHR ''['', CHR '']''] (str_trim a) in
               if address = [] then None
               else Some
                 \<lparr>nd_alias = address @ '':'' @ show_nat (unat port), nd_version = PROTOCOL_VERSION,
                  nd_device_model = ''unknown'', nd_device_type = ''unknown'',
                  nd_fingerprint = ''manual-'' @ address @ '':'' @ show_nat (unat port),
                  nd_address = address, nd_port = port, nd_protocol = ''http'',
                  nd_download = True, nd_announcement = False, nd_announce = False,
                  nd_discovery_source = default_discovery_source\<rparr>))"

definition base_url :: "NodeDevice \<Rightarrow> string" where
  "base_url d = nd_protocol d @ ''://'' @ nd_address d @ '':'' @ show_nat (unat (nd_port d))"

section \<open>Protocol DTOs\<close>

text \<open>\<open>SenderInfo.port\<close> is an \<open>i64\<close> on the wire.\<close>

record SenderInfo =
  si_alias :: string
  si_version :: string
  si_device_model :: string
  si_device_type :: string
  si_fingerprint :: string
  si_port :: i64
  si_protocol :: string
  si_download :: bool

text \<open>\<open>device.port as i64\<close> widens the unsigned port.\<close>

definition from_device :: "NodeDevice \<Rightarrow> SenderInfo" where
  "from_device d =
     \<lparr>si_alias = nd_alias d, si_version = nd_version d, si_device_model = nd_device_model d,
      si_device_type = nd_device_type d, si_fingerprint = nd_fingerprint d,
      si_port = ucast (nd_port d), si_protocol = nd_protocol d, si_download = nd_download d\<rparr>"

text \<open>\<open>self.port.max(0) as u16\<close>: signed maximum, then truncation to the low 16 bits.\<close>

definition port_of_i64 :: "i64 \<Rightarrow> u16" where
  "port_of_i64 p = (if sint p < 0 then 0 else ucast p)"

definition to_device :: "SenderInfo \<Rightarrow> string \<Rightarrow> NodeDevice" where
  "to_device i address =
     \<lparr>nd_alias = si_alias i, nd_version = si_version i, nd_device_model = si_device_model i,
      nd_device_type = si_device_type i, nd_fingerprint = si_fingerprint i, nd_address = address,
      nd_port = port_of_i64 (si_port i), nd_protocol = si_protocol i,
      nd_download = si_download i, nd_announcement = False, nd_announce = False,
      nd_discovery_source = default_discovery_source\<rparr>"

record FileInfo =
  fi_id :: string
  fi_file_name :: string
  fi_size :: i64
  fi_file_type :: string
  fi_sha256 :: "string option"
  fi_preview :: "bytes option"

record FileRequest =
  fr_info :: SenderInfo
  fr_files :: "(string, FileInfo) hashmap"

record FileResponse =
  rs_session_id :: string
  rs_files :: "(string, string) hashmap"

record UploadTask =
  ut_session_id :: string
  ut_file_id :: string
  ut_token :: string

section \<open>Session states\<close>

datatype MissionState = Idle | Pending | Transfering | Finished | Failed | Canceled | MBusy

datatype FileState = FPending | FTransfer | FFinish | FSkip | FFail string

fun is_terminal :: "FileState \<Rightarrow> bool" where
  "is_terminal FFinish = True"
| "is_terminal FSkip = True"
| "is_terminal (FFail msg) = True"
| "is_terminal FPending = False"
| "is_terminal FTransfer = False"

record MissionFileInfo =
  mf_info :: FileInfo
  mf_state :: FileState

datatype SessionDirection = Send | Receive

record SessionSummary =
  sm_id :: string
  sm_direction :: SessionDirection
  sm_peer :: NodeDevice
  sm_file_count :: nat
  sm_state :: MissionState
  sm_via_relay :: bool
  sm_route :: string
  sm_speed_bps :: u64
  sm_files :: "MissionFileInfo list"

datatype SessionEvent =
    StateChanged MissionState
  | FileStateChanged string FileState
  | Progress string nat
  | EvFailed string

section \<open>Lemmas\<close>

lemma to_announce_from_announce [simp]: "to_announce (from_announce a addr) = a"
  by (simp add: to_announce_def from_announce_def)

lemma from_announce_to_announce:
  "from_announce (to_announce d) addr =
     d\<lparr>nd_address := addr, nd_discovery_source := default_discovery_source\<rparr>"
  by (simp add: to_announce_def from_announce_def)

text \<open>A 16-bit port survives the widening to \<open>i64\<close> and back.\<close>

lemma sint_ucast_u16: "sint (ucast (p :: u16) :: i64) = uint p"
proof -
  have "uint p < 2 ^ 16" using unsigned_less [of p, where ?'a = int] by simp
  then have "signed_take_bit 63 (uint p) = uint p"
    by (intro signed_take_bit_int_eq_self order_trans [OF _ uint_ge_0]) simp_all
  then show ?thesis by (simp add: signed_ucast_eq)
qed

lemma port_of_i64_ucast [simp]: "port_of_i64 (ucast p) = p"
proof -
  have "ucast (ucast p :: i64) = p"
    by (rule bit_word_eqI) (simp add: bit_unsigned_iff)
  then show ?thesis by (simp add: port_of_i64_def sint_ucast_u16 not_less)
qed

lemma to_device_from_device:
  "to_device (from_device d) addr =
     d\<lparr>nd_address := addr, nd_announcement := False, nd_announce := False,
       nd_discovery_source := default_discovery_source\<rparr>"
  by (simp add: to_device_def from_device_def)

end
