(* ===== verification/Config.thy ===== *)
theory Config
  imports Model
begin

text \<open>
  Runtime configuration (\<open>src/rust/core/src/config.rs\<close>) and the relay settings and bridge view of
  \<open>src/rust/core/src/relay/bridge.rs\<close> it produces.
\<close>

record CoreConfig =
  cc_port :: u16
  cc_interface_addr :: string
  cc_multicast_addr :: string
  cc_multicast_port :: u16
  cc_store_path :: string
  cc_relay_addr :: "string option"
  cc_relay_secret :: "string option"
  cc_identity_dir :: "string option"
  cc_allow_plain_tls :: "bool option"

definition default_config :: CoreConfig where
  "default_config =
     \<lparr>cc_port = 53317, cc_interface_addr = ''0.0.0.0'', cc_multicast_addr = ''224.0.0.167'',
      cc_multicast_port = 53317, cc_store_path = ''./'', cc_relay_addr = None,
      cc_relay_secret = None, cc_identity_dir = None, cc_allow_plain_tls = None\<rparr>"

record RelaySettings =
  rl_addr :: string
  rl_secret :: string
  rl_realm :: string

definition relay_settings :: "CoreConfig \<Rightarrow> RelaySettings option" where
  "relay_settings c =
     (case cc_relay_addr c of
        None \<Rightarrow> None
      | Some a \<Rightarrow>
          (case cc_relay_secret c of
             None \<Rightarrow> None
           | Some s \<Rightarrow>
               let addr = str_trim a; secret = str_trim s in
               if addr = [] \<or> secret = [] then None
               else Some \<lparr>rl_addr = addr, rl_secret = secret, rl_realm = ''localsend''\<rparr>))"

definition bridged_view :: "NodeDevice \<Rightarrow> u16 \<Rightarrow> NodeDevice" where
  "bridged_view target port =
     target\<lparr>nd_address := ''127.0.0.1'', nd_port := port, nd_protocol := ''http''\<rparr>"

end
