(* ===== verification/Session.thy ===== *)
theory Session
  imports Model
begin

text \<open>
  The multi-session transfer manager, \<open>src/rust/core/src/session.rs\<close>: the state of the actor, one
  definition per helper of \<open>impl Actor\<close>, one per message, and \<open>handle_message\<close> which dispatches
  them.  A message carries no reply channel: \<open>handle_message\<close> returns the value the source sends
  to \<open>respond_to\<close>.

  \<^item> \<open>s_decision\<close> is the stored oneshot sender, named by the session it belongs to; \<open>a_delivered\<close>
    records every decision sent through such a sender, in order.
  \<^item> \<open>s_cancelled\<close> is the state of the session's \<open>CancellationToken\<close>.
  \<^item> \<open>gen n\<close> is the \<open>n\<close>-th value \<open>Uuid::new_v4()\<close> yields; \<open>a_uuid\<close> counts the ones drawn.
  \<^item> A \<open>FileTask\<close> names the token it watches by its session; the forwarder task spawned by
    \<open>StartFile\<close> is \<open>forward_progress\<close>.
\<close>

section \<open>State\<close>

definition DEFAULT_MAX_RECV_SESSIONS :: nat where
  "DEFAULT_MAX_RECV_SESSIONS = 8"

datatype SessionError = ErrBusy | NotFound | InvalidState | UnknownFile

fun show_session_error :: "SessionError \<Rightarrow> string" where
  "show_session_error ErrBusy = ''too many concurrent sessions''"
| "show_session_error NotFound = ''session not found''"
| "show_session_error InvalidState = ''invalid session state''"
| "show_session_error UnknownFile = ''unknown file''"

datatype Decision = Accepted "(string, string) hashmap" | Declined | DCanceled

record FileTask =
  ft_file_id :: string
  ft_info :: FileInfo
  ft_session :: string

record FileEntry =
  fe_token :: "string option"
  fe_info :: FileInfo
  fe_state :: FileState

record Session =
  s_id :: string
  s_direction :: SessionDirection
  s_peer :: NodeDevice
  s_state :: MissionState
  s_via_relay :: bool
  s_route :: string
  s_speed_bps :: u64
  s_last_progress_at :: "nat option"
  s_last_total_bytes :: u64
  s_files :: "(string, FileEntry) hashmap"
  s_token_index :: "(string, string) hashmap"
  s_decision :: "string option"
  s_events :: "SessionEvent watch"
  s_cancelled :: bool

text \<open>Files of a summary are sorted by file name (a stable sort, as \<open>sort_by\<close> is).\<close>

definition file_infos :: "Session \<Rightarrow> MissionFileInfo list" where
  "file_infos s =
     sort_key (\<lambda>f. fi_file_name (mf_info f))
       (map (\<lambda>f. \<lparr>mf_info = fe_info f, mf_state = fe_state f\<rparr>) (hvals (s_files s)))"

definition summary :: "Session \<Rightarrow> SessionSummary" where
  "summary s =
     \<lparr>sm_id = s_id s, sm_direction = s_direction s, sm_peer = s_peer s,
      sm_file_count = length (s_files s), sm_state = s_state s, sm_via_relay = s_via_relay s,
      sm_route = s_route s, sm_speed_bps = s_speed_bps s, sm_files = file_infos s\<rparr>"

definition is_active :: "Session \<Rightarrow> bool" where
  "is_active s \<longleftrightarrow> s_state s = Pending \<or> s_state s = Transfering"

datatype SessionMessage =
    CreateRecvSession NodeDevice "(string, FileInfo) hashmap"
  | CreateSendSession NodeDevice "(string \<times> FileInfo) list"
  | Accept string "string list option"
  | Decline string
  | Cancel string
  | MarkViaRelay string
  | MarkRoute string string
  | StartFile string string
  | FinishFile string string FileState
  | ReportProgress string string nat
  | ReportFileState string string FileState
  | ReportState string MissionState
  | FailMsg string string
  | SessionEvents string
  | CancelToken string
  | GetSession string
  | ListenIndex

datatype SessionReply =
    ReplyRecv (reply_recv: "SessionError + string")
  | ReplyId (reply_id: string)
  | ReplyResult (reply_result: "SessionError + unit")
  | ReplyTask (reply_task: "SessionError + FileTask")
  | ReplyUnit
  | ReplyEvents (reply_events: "SessionEvent watch option")
  | ReplyCancel (reply_cancel: "bool option")
  | ReplySummary (reply_summary: "SessionSummary option")
  | ReplyIndex (reply_index: "SessionSummary list watch")
  | NoReply

record Actor =
  a_sessions :: "(string, Session) hashmap"
  a_max_recv_sessions :: nat
  a_index :: "SessionSummary list watch"
  a_uuid :: nat
  a_delivered :: "(string \<times> Decision) list"

definition new_actor :: "nat \<Rightarrow> Actor" where
  "new_actor mx =
     \<lparr>a_sessions = [], a_max_recv_sessions = mx, a_index = watch_channel [], a_uuid = 0,
      a_delivered = []\<rparr>"

section \<open>Helpers of the actor\<close>

definition index_list :: "(string, Session) hashmap \<Rightarrow> SessionSummary list" where
  "index_list m = sort_key sm_id (map summary (hvals m))"

definition broadcast_index :: "Actor \<Rightarrow> Actor" where
  "broadcast_index a = a\<lparr>a_index := watch_send (index_list (a_sessions a)) (a_index a)\<rparr>"

text \<open>\<open>get_mut\<close> and store back, without a broadcast.\<close>

definition put_session :: "string \<Rightarrow> Session \<Rightarrow> Actor \<Rightarrow> Actor" where
  "put_session i s a = a\<lparr>a_sessions := hput i s (a_sessions a)\<rparr>"

definition emit :: "SessionEvent \<Rightarrow> Session \<Rightarrow> Session" where
  "emit e s = s\<lparr>s_events := watch_send e (s_events s)\<rparr>"

text \<open>\<open>if let Some(decision) = session.decision.take() { decision.send(d) }\<close>\<close>

definition take_decision :: "Decision \<Rightarrow> Session \<Rightarrow> Session \<times> (string \<times> Decision) list" where
  "take_decision d s =
     (s\<lparr>s_decision := None\<rparr>, case s_decision s of None \<Rightarrow> [] | Some ch \<Rightarrow> [(ch, d)])"

definition deliver :: "(string \<times> Decision) list \<Rightarrow> Actor \<Rightarrow> Actor" where
  "deliver ds a = a\<lparr>a_delivered := a_delivered a @ ds\<rparr>"

definition set_state :: "string \<Rightarrow> MissionState \<Rightarrow> Actor \<Rightarrow> Actor" where
  "set_state i st a =
     (case hget (a_sessions a) i of
        None \<Rightarrow> broadcast_index a
      | Some s \<Rightarrow>
          if \<not> is_active s then a
          else broadcast_index (put_session i (emit (StateChanged st) (s\<lparr>s_state := st\<rparr>)) a))"

definition all_done :: "Session \<Rightarrow> bool" where
  "all_done s \<longleftrightarrow>
     is_active s \<and> s_files s \<noteq> [] \<and>
     list_all (\<lambda>f. fe_state f = FFinish \<or> fe_state f = FSkip) (hvals (s_files s))"

definition check_finish :: "string \<Rightarrow> Actor \<Rightarrow> Actor" where
  "check_finish i a =
     (case hget (a_sessions a) i of
        None \<Rightarrow> a
      | Some s \<Rightarrow> if all_done s then set_state i Finished a else a)"

definition failed_session :: "string \<Rightarrow> Session \<Rightarrow> Session" where
  "failed_session reason s =
     emit (EvFailed reason) (emit (StateChanged Failed) (s\<lparr>s_state := Failed, s_cancelled := True\<rparr>))"

definition fail_session :: "string \<Rightarrow> string \<Rightarrow> Actor \<Rightarrow> Actor" where
  "fail_session i reason a =
     (case hget (a_sessions a) i of
        None \<Rightarrow> broadcast_index a
      | Some s \<Rightarrow>
          if \<not> is_active s then a
          else let (s', ds) = take_decision DCanceled (failed_session reason s)
               in broadcast_index (deliver ds (put_session i s' a)))"

definition canceled_session :: "Session \<Rightarrow> Session" where
  "canceled_session s = emit (StateChanged Canceled) (s\<lparr>s_state := Canceled, s_cancelled := True\<rparr>)"

definition cancel_session :: "string \<Rightarrow> Actor \<Rightarrow> Actor" where
  "cancel_session i a =
     (case hget (a_sessions a) i of
        None \<Rightarrow> broadcast_index a
      | Some s \<Rightarrow>
          if \<not> is_active s then a
          else let (s', ds) = take_decision DCanceled (canceled_session s)
               in broadcast_index (deliver ds (put_session i s' a)))"

text \<open>The state of one file and its event; the file may be unknown.\<close>

definition mark_file :: "string \<Rightarrow> FileState \<Rightarrow> Session \<Rightarrow> Session" where
  "mark_file fid st s =
     (case hget (s_files s) fid of
        None \<Rightarrow> s
      | Some f \<Rightarrow>
          emit (FileStateChanged fid st) (s\<lparr>s_files := hput fid (f\<lparr>fe_state := st\<rparr>) (s_files s)\<rparr>))"

definition set_file_state :: "string \<Rightarrow> string \<Rightarrow> FileState \<Rightarrow> Actor \<Rightarrow> Actor" where
  "set_file_state i fid st a =
     (case hget (a_sessions a) i of
        None \<Rightarrow> broadcast_index (check_finish i a)
      | Some s \<Rightarrow>
          if \<not> is_active s then a
          else
            let a1 = put_session i (mark_file fid st s) a in
            case st of
              FFail msg \<Rightarrow> fail_session i msg a1
            | _ \<Rightarrow> broadcast_index (check_finish i a1))"

section \<open>Messages\<close>

text \<open>
  The files of a new receive session, with one fresh token per file; \<open>n\<close> is the number of UUIDs
  drawn so far.
\<close>

fun recv_files ::
  "(nat \<Rightarrow> string) \<Rightarrow> nat \<Rightarrow> (string \<times> FileInfo) list \<Rightarrow>
     (string \<times> FileEntry) list \<times> (string, string) hashmap \<Rightarrow>
     (string \<times> FileEntry) list \<times> (string, string) hashmap \<times> nat" where
  "recv_files gen n [] (es, idx) = (es, idx, n)"
| "recv_files gen n ((fid, info) # xs) (es, idx) =
     recv_files gen (Suc n) xs
       (es @ [(fid, \<lparr>fe_token = Some (gen n), fe_info = info, fe_state = FPending\<rparr>)],
        hput (gen n) fid idx)"

definition new_session ::
  "string \<Rightarrow> SessionDirection \<Rightarrow> NodeDevice \<Rightarrow> (string, FileEntry) hashmap \<Rightarrow>
     (string, string) hashmap \<Rightarrow> string option \<Rightarrow> Session" where
  "new_session i dir peer files idx dec =
     \<lparr>s_id = i, s_direction = dir, s_peer = peer, s_state = Pending, s_via_relay = False,
      s_route = ''local'', s_speed_bps = 0, s_last_progress_at = None, s_last_total_bytes = 0,
      s_files = files, s_token_index = idx, s_decision = dec,
      s_events = watch_channel (StateChanged Pending), s_cancelled = False\<rparr>"

definition active_recv :: "Actor \<Rightarrow> nat" where
  "active_recv a =
     length (filter (\<lambda>s. s_direction s = Receive \<and> is_active s) (hvals (a_sessions a)))"

definition on_create_recv ::
  "(nat \<Rightarrow> string) \<Rightarrow> NodeDevice \<Rightarrow> (string, FileInfo) hashmap \<Rightarrow> Actor \<Rightarrow>
     Actor \<times> (SessionError + string)" where
  "on_create_recv gen sender files a =
     (if a_max_recv_sessions a \<le> active_recv a then (a, Inl ErrBusy)
      else
        let i = gen (a_uuid a);
            (es, idx, n) = recv_files gen (Suc (a_uuid a)) files ([], []);
            s = new_session i Receive sender (hcollect es) idx (Some i)
        in (broadcast_index (put_session i s (a\<lparr>a_uuid := n\<rparr>)), Inr i))"

definition on_create_send ::
  "(nat \<Rightarrow> string) \<Rightarrow> NodeDevice \<Rightarrow> (string \<times> FileInfo) list \<Rightarrow> Actor \<Rightarrow> Actor \<times> string" where
  "on_create_send gen target files a =
     (let i = gen (a_uuid a);
          es = map (\<lambda>(fid, info). (fid, \<lparr>fe_token = None, fe_info = info, fe_state = FPending\<rparr>)) files;
          s = new_session i Send target (hcollect es) [] None
      in (broadcast_index (put_session i s (a\<lparr>a_uuid := Suc (a_uuid a)\<rparr>)), i))"

text \<open>The ids of the accepted files, their tokens, and what happens to the others.\<close>

definition accepted_ids :: "string list option \<Rightarrow> (string, FileEntry) hashmap \<Rightarrow> string list" where
  "accepted_ids fids files =
     (case fids of None \<Rightarrow> hkeys files | Some l \<Rightarrow> filter (\<lambda>f. hget files f \<noteq> None) l)"

definition accepted_tokens :: "string list \<Rightarrow> (string, FileEntry) hashmap \<Rightarrow> (string, string) hashmap" where
  "accepted_tokens acc files =
     hcollect (List.map_filter
       (\<lambda>(fid, f). if fid \<in> set acc then map_option (Pair fid) (fe_token f) else None) files)"

definition skip_others :: "string list \<Rightarrow> (string, FileEntry) hashmap \<Rightarrow> (string, FileEntry) hashmap" where
  "skip_others acc files =
     hmap (\<lambda>fid f. if fid \<in> set acc then f else f\<lparr>fe_state := FSkip\<rparr>) files"

definition skipped_ids :: "string list \<Rightarrow> (string, FileEntry) hashmap \<Rightarrow> string list" where
  "skipped_ids acc files = filter (\<lambda>fid. fid \<notin> set acc) (hkeys files)"

definition accept_session :: "string list option \<Rightarrow> Session \<Rightarrow> Session \<times> (string \<times> Decision) list" where
  "accept_session fids s =
     (let acc = accepted_ids fids (s_files s);
          tokens = accepted_tokens acc (s_files s);
          skipped = skipped_ids acc (s_files s);
          s1 = s\<lparr>s_files := skip_others acc (s_files s), s_state := Transfering\<rparr>;
          s2 = fold (\<lambda>fid. emit (FileStateChanged fid FSkip)) skipped s1;
          s3 = emit (StateChanged Transfering) s2
      in take_decision (Accepted tokens) s3)"

definition on_accept :: "string \<Rightarrow> string list option \<Rightarrow> Actor \<Rightarrow> Actor \<times> (SessionError + unit)" where
  "on_accept i fids a =
     (let (a1, r) =
        (case hget (a_sessions a) i of
           None \<Rightarrow> (a, Inl NotFound)
         | Some s \<Rightarrow>
             if s_direction s \<noteq> Receive \<or> s_state s \<noteq> Pending then (a, Inl InvalidState)
             else let (s', ds) = accept_session fids s in (deliver ds (put_session i s' a), Inr ()))
      in (check_finish i (broadcast_index a1), r))"

definition on_decline :: "string \<Rightarrow> Actor \<Rightarrow> Actor \<times> (SessionError + unit)" where
  "on_decline i a =
     (let (a1, r) =
        (case hget (a_sessions a) i of
           None \<Rightarrow> (a, Inl NotFound)
         | Some s \<Rightarrow>
             if s_direction s \<noteq> Receive \<or> s_state s \<noteq> Pending then (a, Inl InvalidState)
             else let (s', ds) = take_decision Declined (canceled_session s)
                  in (deliver ds (put_session i s' a), Inr ()))
      in (broadcast_index a1, r))"

definition on_mark_via_relay :: "string \<Rightarrow> Actor \<Rightarrow> Actor" where
  "on_mark_via_relay i a =
     broadcast_index
       (case hget (a_sessions a) i of
          None \<Rightarrow> a
        | Some s \<Rightarrow>
            put_session i
              (s\<lparr>s_via_relay := True,
                 s_route := (if s_route s = ''local'' then ''turn'' else s_route s)\<rparr>) a)"

definition on_mark_route :: "string \<Rightarrow> string \<Rightarrow> Actor \<Rightarrow> Actor" where
  "on_mark_route i route a =
     broadcast_index
       (case hget (a_sessions a) i of
          None \<Rightarrow> a
        | Some s \<Rightarrow> put_session i (s\<lparr>s_route := route\<rparr>) a)"

definition start_session_file :: "string \<Rightarrow> Session \<Rightarrow> SessionError + Session \<times> FileTask" where
  "start_session_file token s =
     (if s_direction s \<noteq> Receive \<or> s_state s \<noteq> Transfering then Inl InvalidState
      else case hget (s_token_index s) token of
        None \<Rightarrow> Inl UnknownFile
      | Some fid \<Rightarrow>
          (case hget (s_files s) fid of
             None \<Rightarrow> Inl UnknownFile
           | Some f \<Rightarrow>
               if is_terminal (fe_state f) then Inl InvalidState
               else Inr
                 (emit (FileStateChanged fid FTransfer)
                    (s\<lparr>s_files := hput fid (f\<lparr>fe_state := FTransfer\<rparr>) (s_files s)\<rparr>),
                  \<lparr>ft_file_id = fid, ft_info = fe_info f, ft_session = s_id s\<rparr>)))"

definition on_start_file :: "string \<Rightarrow> string \<Rightarrow> Actor \<Rightarrow> Actor \<times> (SessionError + FileTask)" where
  "on_start_file i token a =
     (let (a1, r) =
        (case hget (a_sessions a) i of
           None \<Rightarrow> (a, Inl NotFound)
         | Some s \<Rightarrow>
             (case start_session_file token s of
                Inl e \<Rightarrow> (a, Inl e)
              | Inr (s', t) \<Rightarrow> (put_session i s' a, Inr t)))
      in (broadcast_index a1, r))"

text \<open>The forwarder task: each observed byte count becomes a \<open>ReportProgress\<close> message.\<close>

definition forward_progress :: "string \<Rightarrow> string \<Rightarrow> nat list \<Rightarrow> SessionMessage list" where
  "forward_progress i fid counts = map (ReportProgress i fid) counts"

definition on_finish_file :: "string \<Rightarrow> string \<Rightarrow> FileState \<Rightarrow> Actor \<Rightarrow> Actor" where
  "on_finish_file i token st a =
     (case Option.bind (hget (a_sessions a) i) (\<lambda>s. hget (s_token_index s) token) of
        Some fid \<Rightarrow> set_file_state i fid st a
      | None \<Rightarrow> a)"

definition on_report_progress :: "string \<Rightarrow> string \<Rightarrow> nat \<Rightarrow> Actor \<Rightarrow> Actor" where
  "on_report_progress i fid n a =
     (case hget (a_sessions a) i of
        None \<Rightarrow> a
      | Some s \<Rightarrow> put_session i (emit (Progress fid n) s) a)"

fun handle_message :: "(nat \<Rightarrow> string) \<Rightarrow> Actor \<Rightarrow> SessionMessage \<Rightarrow> Actor \<times> SessionReply" where
  "handle_message gen a (CreateRecvSession sender files) =
     map_prod id ReplyRecv (on_create_recv gen sender files a)"
| "handle_message gen a (CreateSendSession target files) =
     map_prod id ReplyId (on_create_send gen target files a)"
| "handle_message gen a (Accept i fids) = map_prod id ReplyResult (on_accept i fids a)"
| "handle_message gen a (Decline i) = map_prod id ReplyResult (on_decline i a)"
| "handle_message gen a (Cancel i) = (cancel_session i a, ReplyUnit)"
| "handle_message gen a (MarkViaRelay i) = (on_mark_via_relay i a, NoReply)"
| "handle_message gen a (MarkRoute i route) = (on_mark_route i route a, NoReply)"
| "handle_message gen a (StartFile i token) = map_prod id ReplyTask (on_start_file i token a)"
| "handle_message gen a (FinishFile i token st) = (on_finish_file i token st a, ReplyUnit)"
| "handle_message gen a (ReportProgress i fid n) = (on_report_progress i fid n a, NoReply)"
| "handle_message gen a (ReportFileState i fid st) = (set_file_state i fid st a, ReplyUnit)"
| "handle_message gen a (ReportState i st) = (set_state i st a, ReplyUnit)"
| "handle_message gen a (FailMsg i reason) = (fail_session i reason a, ReplyUnit)"
| "handle_message gen a (SessionEvents i) =
     (a, ReplyEvents (map_option s_events (hget (a_sessions a) i)))"
| "handle_message gen a (CancelToken i) =
     (a, ReplyCancel (map_option s_cancelled (hget (a_sessions a) i)))"
| "handle_message gen a (GetSession i) =
     (a, ReplySummary (map_option summary (hget (a_sessions a) i)))"
| "handle_message gen a ListenIndex = (a, ReplyIndex (a_index a))"

definition run_session_actor ::
  "(nat \<Rightarrow> string) \<Rightarrow> Actor \<Rightarrow> SessionMessage list \<Rightarrow> Actor \<times> SessionReply list" where
  "run_session_actor gen = run_actor (handle_message gen)"

section \<open>The session handle\<close>

text \<open>
  A method of \<open>SessionHandle\<close> sends one message and awaits the reply; the actor handles messages
  one at a time, so a call is one step of \<open>handle_message\<close>.  (The channel is bounded, but \<open>send\<close>
  waits for room.)
\<close>

definition create_recv_session ::
  "(nat \<Rightarrow> string) \<Rightarrow> NodeDevice \<Rightarrow> (string, FileInfo) hashmap \<Rightarrow> Actor \<Rightarrow>
     Actor \<times> (SessionError + string)" where
  "create_recv_session gen d files a =
     map_prod id reply_recv (handle_message gen a (CreateRecvSession d files))"

definition create_send_session ::
  "(nat \<Rightarrow> string) \<Rightarrow> NodeDevice \<Rightarrow> (string \<times> FileInfo) list \<Rightarrow> Actor \<Rightarrow> Actor \<times> string" where
  "create_send_session gen d files a =
     map_prod id reply_id (handle_message gen a (CreateSendSession d files))"

definition accept ::
  "(nat \<Rightarrow> string) \<Rightarrow> string \<Rightarrow> string list option \<Rightarrow> Actor \<Rightarrow> Actor \<times> (SessionError + unit)" where
  "accept gen i fids a = map_prod id reply_result (handle_message gen a (Accept i fids))"

definition decline :: "(nat \<Rightarrow> string) \<Rightarrow> string \<Rightarrow> Actor \<Rightarrow> Actor \<times> (SessionError + unit)" where
  "decline gen i a = map_prod id reply_result (handle_message gen a (Decline i))"

definition cancel :: "(nat \<Rightarrow> string) \<Rightarrow> string \<Rightarrow> Actor \<Rightarrow> Actor" where
  "cancel gen i a = fst (handle_message gen a (Cancel i))"

definition mark_via_relay :: "(nat \<Rightarrow> string) \<Rightarrow> string \<Rightarrow> Actor \<Rightarrow> Actor" where
  "mark_via_relay gen i a = fst (handle_message gen a (MarkViaRelay i))"

definition mark_route :: "(nat \<Rightarrow> string) \<Rightarrow> string \<Rightarrow> string \<Rightarrow> Actor \<Rightarrow> Actor" where
  "mark_route gen i route a = fst (handle_message gen a (MarkRoute i route))"

definition start_file ::
  "(nat \<Rightarrow> string) \<Rightarrow> string \<Rightarrow> string \<Rightarrow> Actor \<Rightarrow> Actor \<times> (SessionError + FileTask)" where
  "start_file gen i token a = map_prod id reply_task (handle_message gen a (StartFile i token))"

definition finish_file ::
  "(nat \<Rightarrow> string) \<Rightarrow> string \<Rightarrow> string \<Rightarrow> FileState \<Rightarrow> Actor \<Rightarrow> Actor" where
  "finish_file gen i token st a = fst (handle_message gen a (FinishFile i token st))"

definition report_progress :: "(nat \<Rightarrow> string) \<Rightarrow> string \<Rightarrow> string \<Rightarrow> nat \<Rightarrow> Actor \<Rightarrow> Actor" where
  "report_progress gen i fid n a = fst (handle_message gen a (ReportProgress i fid n))"

definition report_file_state ::
  "(nat \<Rightarrow> string) \<Rightarrow> string \<Rightarrow> string \<Rightarrow> FileState \<Rightarrow> Actor \<Rightarrow> Actor" where
  "report_file_state gen i fid st a = fst (handle_message gen a (ReportFileState i fid st))"

definition report_state :: "(nat \<Rightarrow> string) \<Rightarrow> string \<Rightarrow> MissionState \<Rightarrow> Actor \<Rightarrow> Actor" where
  "report_state gen i st a = fst (handle_message gen a (ReportState i st))"

definition fail :: "(nat \<Rightarrow> string) \<Rightarrow> string \<Rightarrow> string \<Rightarrow> Actor \<Rightarrow> Actor" where
  "fail gen i reason a = fst (handle_message gen a (FailMsg i reason))"

definition session_events :: "(nat \<Rightarrow> string) \<Rightarrow> string \<Rightarrow> Actor \<Rightarrow> SessionEvent watch option" where
  "session_events gen i a = reply_events (snd (handle_message gen a (SessionEvents i)))"

definition cancel_token :: "(nat \<Rightarrow> string) \<Rightarrow> string \<Rightarrow> Actor \<Rightarrow> bool option" where
  "cancel_token gen i a = reply_cancel (snd (handle_message gen a (CancelToken i)))"

definition get_session :: "(nat \<Rightarrow> string) \<Rightarrow> string \<Rightarrow> Actor \<Rightarrow> SessionSummary option" where
  "get_session gen i a = reply_summary (snd (handle_message gen a (GetSession i)))"

definition session_index :: "(nat \<Rightarrow> string) \<Rightarrow> Actor \<Rightarrow> SessionSummary list watch" where
  "session_index gen a = reply_index (snd (handle_message gen a ListenIndex))"

end
