(* ===== verification/Session_Steps.thy ===== *)
theory Session_Steps
  imports Session
begin

text \<open>
  The session actor as a step relation.  \<open>sess_step\<close> lists the ways one session can change and
  what it delivers to a waiting \<open>prepare-upload\<close>; \<open>actor_step\<close> lists the ways the actor can
  change.  \<open>handle_message_steps\<close> shows that every message is a sequence of such steps, so an
  invariant is proved once per step instead of once per message.

  The flag \<open>g\<close> marks the discipline of the callers in \<open>server.rs\<close> and \<open>handle.rs\<close>: while a
  receive session is pending, its overall state is changed only by a decision, a cancellation or
  a failure, never by a state report.
\<close>

section \<open>Steps\<close>

inductive sess_step :: "bool \<Rightarrow> Session \<Rightarrow> Session \<Rightarrow> (string \<times> Decision) list \<Rightarrow> bool" for g where
  route: "sess_step g s (s\<lparr>s_via_relay := v, s_route := r\<rparr>) []"
| progress: "sess_step g s (emit (Progress fid n) s) []"
| state: "is_active s \<Longrightarrow> (g \<longrightarrow> s_direction s = Send \<or> s_state s \<noteq> Pending) \<Longrightarrow>
     sess_step g s (emit (StateChanged st) (s\<lparr>s_state := st\<rparr>)) []"
| failing: "is_active s \<Longrightarrow> take_decision DCanceled (failed_session reason s) = (s', ds) \<Longrightarrow>
     sess_step g s s' ds"
| canceling: "is_active s \<Longrightarrow> take_decision DCanceled (canceled_session s) = (s', ds) \<Longrightarrow>
     sess_step g s s' ds"
| marking: "is_active s \<Longrightarrow> sess_step g s (mark_file fid st s) []"
| accepting: "s_direction s = Receive \<Longrightarrow> s_state s = Pending \<Longrightarrow>
     accept_session fids s = (s', ds) \<Longrightarrow> sess_step g s s' ds"
| declining: "s_direction s = Receive \<Longrightarrow> s_state s = Pending \<Longrightarrow>
     take_decision Declined (canceled_session s) = (s', ds) \<Longrightarrow> sess_step g s s' ds"
| starting: "start_session_file token s = Inr (s', t) \<Longrightarrow> sess_step g s s' []"

inductive actor_step :: "bool \<Rightarrow> (nat \<Rightarrow> string) \<Rightarrow> Actor \<Rightarrow> Actor \<Rightarrow> bool" for g gen where
  broadcast: "actor_step g gen a (broadcast_index a)"
| update: "hget (a_sessions a) i = Some s \<Longrightarrow> sess_step g s s' ds \<Longrightarrow>
     actor_step g gen a (deliver ds (put_session i s' a))"
| create_recv: "active_recv a < a_max_recv_sessions a \<Longrightarrow> hwf files \<Longrightarrow>
     recv_files gen (Suc (a_uuid a)) files ([], []) = (es, idx, n) \<Longrightarrow> i = gen (a_uuid a) \<Longrightarrow>
     actor_step g gen a
       (put_session i (new_session i Receive peer (hcollect es) idx (Some i)) (a\<lparr>a_uuid := n\<rparr>))"
| create_send: "i = gen (a_uuid a) \<Longrightarrow>
     actor_step g gen a
       (put_session i (new_session i Send peer (hcollect es) [] None) (a\<lparr>a_uuid := Suc (a_uuid a)\<rparr>))"

abbreviation actor_steps :: "bool \<Rightarrow> (nat \<Rightarrow> string) \<Rightarrow> Actor \<Rightarrow> Actor \<Rightarrow> bool" where
  "actor_steps g gen \<equiv> (actor_step g gen)\<^sup>*\<^sup>*"

text \<open>A \<open>HashMap\<close> in a message has distinct keys.\<close>

fun msg_wf :: "SessionMessage \<Rightarrow> bool" where
  "msg_wf (CreateRecvSession d files) = hwf files"
| "msg_wf _ = True"

text \<open>How the callers use the reporting messages (see the flag \<open>g\<close> above).\<close>

definition not_pending_recv :: "string \<Rightarrow> Actor \<Rightarrow> bool" where
  "not_pending_recv i a \<longleftrightarrow>
     (case hget (a_sessions a) i of None \<Rightarrow> True
      | Some s \<Rightarrow> s_direction s = Send \<or> s_state s \<noteq> Pending)"

fun well_used :: "Actor \<Rightarrow> SessionMessage \<Rightarrow> bool" where
  "well_used a (CreateRecvSession d files) = hwf files"
| "well_used a (ReportState i st) = not_pending_recv i a"
| "well_used a (ReportFileState i fid st) = not_pending_recv i a"
| "well_used a (FinishFile i token st) = not_pending_recv i a"
| "well_used a _ = True"

section \<open>Projections\<close>

lemma broadcast_index_simps [simp]:
  "a_sessions (broadcast_index a) = a_sessions a"
  "a_max_recv_sessions (broadcast_index a) = a_max_recv_sessions a"
  "a_uuid (broadcast_index a) = a_uuid a"
  "a_delivered (broadcast_index a) = a_delivered a"
  "watch_borrow (a_index (broadcast_index a)) = index_list (a_sessions a)"
  by (simp_all add: broadcast_index_def)

lemma put_session_simps [simp]:
  "a_sessions (put_session i s a) = hput i s (a_sessions a)"
  "a_max_recv_sessions (put_session i s a) = a_max_recv_sessions a"
  "a_index (put_session i s a) = a_index a"
  "a_uuid (put_session i s a) = a_uuid a"
  "a_delivered (put_session i s a) = a_delivered a"
  by (simp_all add: put_session_def)

lemma deliver_simps [simp]:
  "a_sessions (deliver ds a) = a_sessions a"
  "a_max_recv_sessions (deliver ds a) = a_max_recv_sessions a"
  "a_index (deliver ds a) = a_index a"
  "a_uuid (deliver ds a) = a_uuid a"
  "a_delivered (deliver ds a) = a_delivered a @ ds"
  by (simp_all add: deliver_def)

lemma deliver_Nil [simp]: "deliver [] a = a"
  by (simp add: deliver_def)

lemma emit_simps [simp]:
  "s_id (emit e s) = s_id s" "s_direction (emit e s) = s_direction s"
  "s_peer (emit e s) = s_peer s" "s_state (emit e s) = s_state s"
  "s_via_relay (emit e s) = s_via_relay s" "s_route (emit e s) = s_route s"
  "s_speed_bps (emit e s) = s_speed_bps s" "s_files (emit e s) = s_files s"
  "s_token_index (emit e s) = s_token_index s" "s_decision (emit e s) = s_decision s"
  "s_cancelled (emit e s) = s_cancelled s"
  "watch_borrow (s_events (emit e s)) = e"
  "s_events (emit e s) = s_events s @ [e]"
  by (simp_all add: emit_def watch_send_def watch_borrow_def)

lemma fold_emit_simps [simp]:
  "s_id (fold (\<lambda>x. emit (f x)) xs s) = s_id s"
  "s_direction (fold (\<lambda>x. emit (f x)) xs s) = s_direction s"
  "s_peer (fold (\<lambda>x. emit (f x)) xs s) = s_peer s"
  "s_state (fold (\<lambda>x. emit (f x)) xs s) = s_state s"
  "s_speed_bps (fold (\<lambda>x. emit (f x)) xs s) = s_speed_bps s"
  "s_files (fold (\<lambda>x. emit (f x)) xs s) = s_files s"
  "s_token_index (fold (\<lambda>x. emit (f x)) xs s) = s_token_index s"
  "s_decision (fold (\<lambda>x. emit (f x)) xs s) = s_decision s"
  "s_cancelled (fold (\<lambda>x. emit (f x)) xs s) = s_cancelled s"
  by (induction xs arbitrary: s) simp_all

lemma is_active_cong [simp]:
  "is_active (emit e s) = is_active s" "is_active (s\<lparr>s_files := fs\<rparr>) = is_active s"
  "is_active (s\<lparr>s_via_relay := v\<rparr>) = is_active s" "is_active (s\<lparr>s_route := r\<rparr>) = is_active s"
  "is_active (s\<lparr>s_decision := d\<rparr>) = is_active s"
  by (simp_all add: is_active_def)

lemma mark_file_simps [simp]:
  "s_id (mark_file fid st s) = s_id s" "s_direction (mark_file fid st s) = s_direction s"
  "s_peer (mark_file fid st s) = s_peer s" "s_state (mark_file fid st s) = s_state s"
  "s_speed_bps (mark_file fid st s) = s_speed_bps s"
  "s_token_index (mark_file fid st s) = s_token_index s"
  "s_decision (mark_file fid st s) = s_decision s"
  "s_cancelled (mark_file fid st s) = s_cancelled s"
  "s_files (mark_file fid st s) = hmodify fid (\<lambda>f. f\<lparr>fe_state := st\<rparr>) (s_files s)"
  "is_active (mark_file fid st s) = is_active s"
  by (auto simp: mark_file_def hmodify_def split: option.split)

section \<open>Messages are sequences of steps\<close>

lemma broadcast_steps: "actor_steps g gen a b \<Longrightarrow> actor_steps g gen a (broadcast_index b)"
  by (rule rtranclp.rtrancl_into_rtrancl) (auto intro: actor_step.broadcast)

lemma update_steps:
  "hget (a_sessions a) i = Some s \<Longrightarrow> sess_step g s s' ds \<Longrightarrow>
     actor_steps g gen a (deliver ds (put_session i s' a))"
  by (rule r_into_rtranclp) (rule actor_step.update)

lemmas update_steps0 = update_steps [where ds = "[]", simplified]

lemma set_state_steps:
  "(g \<longrightarrow> not_pending_recv i a) \<Longrightarrow> actor_steps g gen a (set_state i st a)"
  by (auto simp: set_state_def not_pending_recv_def split: option.splits
      intro!: broadcast_steps update_steps0 sess_step.state)

lemma check_finish_steps:
  "(g \<longrightarrow> not_pending_recv i a) \<Longrightarrow> actor_steps g gen a (check_finish i a)"
  by (auto simp: check_finish_def split: option.splits intro!: set_state_steps)

lemma fail_session_steps: "actor_steps g gen a (fail_session i reason a)"
  by (auto simp: fail_session_def split: option.splits prod.split
      intro!: broadcast_steps update_steps intro: sess_step.failing)

lemma cancel_session_steps: "actor_steps g gen a (cancel_session i a)"
  by (auto simp: cancel_session_def split: option.splits prod.split
      intro!: broadcast_steps update_steps intro: sess_step.canceling)

lemma set_file_state_steps:
  assumes "g \<longrightarrow> not_pending_recv i a"
  shows "actor_steps g gen a (set_file_state i fid st a)"
proof (cases "hget (a_sessions a) i")
  case None
  then show ?thesis
    using assms by (simp add: set_file_state_def broadcast_steps check_finish_steps)
next
  case (Some s)
  show ?thesis
  proof (cases "is_active s")
    case True
    let ?a = "put_session i (mark_file fid st s) a"
    have one: "actor_steps g gen a ?a"
      by (rule update_steps0 [OF Some sess_step.marking [OF True]])
    have "g \<longrightarrow> not_pending_recv i ?a"
      using assms Some by (simp add: not_pending_recv_def)
    then have "actor_steps g gen ?a (broadcast_index (check_finish i ?a))"
      by (intro broadcast_steps check_finish_steps)
    moreover have "actor_steps g gen ?a (fail_session i msg ?a)" for msg
      by (rule fail_session_steps)
    ultimately show ?thesis
      using one Some True
      by (auto simp: set_file_state_def Let_def split: FileState.split intro: rtranclp_trans)
  next
    case False
    then show ?thesis using Some by (simp add: set_file_state_def)
  qed
qed

lemma not_pending_recv_broadcast [simp]: "not_pending_recv i (broadcast_index a) = not_pending_recv i a"
  by (simp add: not_pending_recv_def)

lemma accept_session_state:
  "accept_session fids s = (s', ds) \<Longrightarrow> s_state s' = Transfering"
  by (auto simp: accept_session_def Let_def take_decision_def)

lemma on_accept_steps: "actor_steps g gen a (fst (on_accept i fids a))"
proof (cases "hget (a_sessions a) i")
  case None
  then show ?thesis
    by (auto simp: on_accept_def check_finish_def intro: broadcast_steps)
next
  case (Some s)
  show ?thesis
  proof (cases "s_direction s = Receive \<and> s_state s = Pending")
    case True
    obtain s' ds where acc: "accept_session fids s = (s', ds)" by fastforce
    let ?a = "broadcast_index (deliver ds (put_session i s' a))"
    have "actor_steps g gen a ?a"
      using Some True acc by (intro broadcast_steps update_steps) (auto intro: sess_step.accepting)
    moreover have "g \<longrightarrow> not_pending_recv i ?a"
      using accept_session_state [OF acc] by (simp add: not_pending_recv_def)
    then have "actor_steps g gen ?a (check_finish i ?a)"
      by (rule check_finish_steps)
    ultimately have "actor_steps g gen a (check_finish i ?a)"
      by (rule rtranclp_trans)
    then show ?thesis
      using Some True acc by (simp add: on_accept_def)
  next
    case False
    have "g \<longrightarrow> not_pending_recv i (broadcast_index a)"
      using Some False by (cases "s_direction s") (auto simp: not_pending_recv_def)
    then have "actor_steps g gen (broadcast_index a) (check_finish i (broadcast_index a))"
      by (rule check_finish_steps)
    moreover have "actor_steps g gen a (broadcast_index a)"
      by (rule broadcast_steps) simp
    ultimately have "actor_steps g gen a (check_finish i (broadcast_index a))"
      using rtranclp_trans by metis
    moreover have "fst (on_accept i fids a) = check_finish i (broadcast_index a)"
      using Some False by (auto simp: on_accept_def)
    ultimately show ?thesis by simp
  qed
qed

lemma on_decline_steps: "actor_steps g gen a (fst (on_decline i a))"
  by (auto simp: on_decline_def Let_def split: option.splits prod.splits
      intro!: broadcast_steps update_steps intro: sess_step.declining)

lemma on_start_file_steps: "actor_steps g gen a (fst (on_start_file i token a))"
  by (auto simp: on_start_file_def Let_def split: option.splits prod.splits sum.splits
      intro!: broadcast_steps update_steps0 intro: sess_step.starting)

lemma on_mark_steps:
  "actor_steps g gen a (on_mark_via_relay i a)" "actor_steps g gen a (on_mark_route i r a)"
proof -
  have route_only: "sess_step g s (s\<lparr>s_route := r\<rparr>) []" for s r
    using sess_step.route [where v = "s_via_relay s" and s = s and r = r] by simp
  have via_only: "sess_step g s (s\<lparr>s_via_relay := v\<rparr>) []" for s v
    using sess_step.route [where v = v and s = s and r = "s_route s"] by simp
  show "actor_steps g gen a (on_mark_route i r a)"
    by (auto simp: on_mark_route_def split: option.split
        intro!: broadcast_steps update_steps0 route_only)
  show "actor_steps g gen a (on_mark_via_relay i a)"
    by (auto simp: on_mark_via_relay_def split: option.split
        intro!: broadcast_steps update_steps0 via_only sess_step.route)
qed

lemma one_step:
  "actor_step g gen a (put_session i s b) \<Longrightarrow> actor_steps g gen a (put_session i s b)"
  by (rule r_into_rtranclp)

lemma on_create_steps:
  "hwf files \<Longrightarrow> actor_steps g gen a (fst (on_create_recv gen d files a))"
  "actor_steps g gen a (fst (on_create_send gen d xs a))"
  by (auto simp: on_create_recv_def on_create_send_def Let_def not_le split: prod.split
      intro!: broadcast_steps one_step intro: actor_step.create_recv actor_step.create_send)

lemma handle_message_steps_aux:
  assumes "msg_wf m" and "g \<longrightarrow> well_used a m"
  shows "actor_steps g gen a (fst (handle_message gen a m))"
proof (cases m)
  case (ReportProgress i fid n)
  then show ?thesis
    by (auto simp: on_report_progress_def split: option.split
        intro!: update_steps0 sess_step.progress)
next
  case (FinishFile i token st)
  then show ?thesis
    using assms by (auto simp: on_finish_file_def split: option.split intro!: set_file_state_steps)
qed (use assms in \<open>auto intro: on_create_steps on_accept_steps on_decline_steps cancel_session_steps
      on_mark_steps on_start_file_steps set_file_state_steps set_state_steps fail_session_steps\<close>)

lemma handle_message_steps:
  "msg_wf m \<Longrightarrow> actor_steps False gen a (fst (handle_message gen a m))"
  by (rule handle_message_steps_aux) simp_all

lemma handle_message_guarded_steps:
  "well_used a m \<Longrightarrow> actor_steps True gen a (fst (handle_message gen a m))"
  by (rule handle_message_steps_aux) (cases m; simp)+

text \<open>An invariant of single steps is an invariant of messages.\<close>

locale step_invariant =
  fixes g :: bool
    and gen :: "nat \<Rightarrow> string"
    and I :: "Actor \<Rightarrow> bool"
  assumes I_step: "actor_step g gen a b \<Longrightarrow> I a \<Longrightarrow> I b"
begin

lemma I_steps: "actor_steps g gen a b \<Longrightarrow> I a \<Longrightarrow> I b"
  by (induction rule: rtranclp_induct) (auto intro: I_step)

lemma I_message:
  "I a \<Longrightarrow> msg_wf m \<Longrightarrow> g \<longrightarrow> well_used a m \<Longrightarrow> I (fst (handle_message gen a m))"
  by (rule I_steps [OF handle_message_steps_aux])

end

end
