(* ===== verification/Session_Inv.thy ===== *)
theory Session_Inv
  imports Session_Steps
begin

text \<open>
  Invariants of the session actor, proved once per step of \<open>Session_Steps\<close>: well-formedness of
  the session table and of the upload tokens, exactly-once delivery of decisions, the cap on
  concurrent receive sessions, persistence of terminal sessions, and the agreement of the
  published index with the session table.
\<close>

section \<open>Invariants\<close>

text \<open>Every file of a receive session has its own token, and the token index inverts it.\<close>

definition tokens_ok ::
  "(nat \<Rightarrow> string) \<Rightarrow> nat \<Rightarrow> (string, FileEntry) hashmap \<Rightarrow> (string, string) hashmap \<Rightarrow> bool" where
  "tokens_ok gen n files idx \<longleftrightarrow>
     (\<forall>fid f. hget files fid = Some f \<longrightarrow>
        (\<exists>k < n. fe_token f = Some (gen k) \<and> hget idx (gen k) = Some fid)) \<and>
     (\<forall>t fid. hget idx t = Some fid \<longrightarrow>
        (\<exists>f. hget files fid = Some f \<and> fe_token f = Some t))"

definition sess_wf :: "(nat \<Rightarrow> string) \<Rightarrow> nat \<Rightarrow> string \<Rightarrow> Session \<Rightarrow> bool" where
  "sess_wf gen n i s \<longleftrightarrow>
     s_id s = i \<and> hwf (s_files s) \<and> hwf (s_token_index s) \<and> s_speed_bps s = 0 \<and>
     s_events s \<noteq> [] \<and>
     (s_cancelled s \<longrightarrow> s_state s = Failed \<or> s_state s = Canceled) \<and>
     (case s_direction s of
        Send \<Rightarrow> s_token_index s = [] \<and> s_decision s = None
      | Receive \<Rightarrow> tokens_ok gen n (s_files s) (s_token_index s) \<and>
                   (s_decision s = None \<or> s_decision s = Some i))"

text \<open>A decision was delivered for exactly the receive sessions whose sender is used up, once.\<close>

definition decisions_ok :: "Actor \<Rightarrow> bool" where
  "decisions_ok a \<longleftrightarrow>
     distinct (map fst (a_delivered a)) \<and>
     (\<forall>i. i \<in> fst ` set (a_delivered a) \<longleftrightarrow>
        (\<exists>s. hget (a_sessions a) i = Some s \<and> s_direction s = Receive \<and> s_decision s = None))"

definition ids_drawn :: "(nat \<Rightarrow> string) \<Rightarrow> Actor \<Rightarrow> bool" where
  "ids_drawn gen a \<longleftrightarrow> (\<forall>i s. hget (a_sessions a) i = Some s \<longrightarrow> (\<exists>k < a_uuid a. i = gen k))"

definition session_inv :: "(nat \<Rightarrow> string) \<Rightarrow> Actor \<Rightarrow> bool" where
  "session_inv gen a \<longleftrightarrow>
     hwf (a_sessions a) \<and> ids_drawn gen a \<and> decisions_ok a \<and>
     (\<forall>i s. hget (a_sessions a) i = Some s \<longrightarrow> sess_wf gen (a_uuid a) i s)"

definition recv_cap :: "Actor \<Rightarrow> bool" where
  "recv_cap a \<longleftrightarrow> active_recv a \<le> a_max_recv_sessions a"

text \<open>No receive session has left \<open>Pending\<close> without its decision being delivered.\<close>

definition answered :: "Actor \<Rightarrow> bool" where
  "answered a \<longleftrightarrow>
     (\<forall>i s. hget (a_sessions a) i = Some s \<and> s_direction s = Receive \<and> s_state s \<noteq> Pending \<longrightarrow>
        s_decision s = None)"

definition index_current :: "Actor \<Rightarrow> bool" where
  "index_current a \<longleftrightarrow> watch_borrow (a_index a) = index_list (a_sessions a)"

text \<open>What later states keep of the sessions of an earlier state.\<close>

definition sess_kept :: "Session \<Rightarrow> Session \<Rightarrow> bool" where
  "sess_kept s s' \<longleftrightarrow>
     s_id s' = s_id s \<and> s_direction s' = s_direction s \<and> s_peer s' = s_peer s \<and>
     (\<not> is_active s \<longrightarrow>
        s_state s' = s_state s \<and> s_files s' = s_files s \<and> s_cancelled s' = s_cancelled s)"

definition sessions_kept :: "(nat \<Rightarrow> string) \<Rightarrow> Actor \<Rightarrow> Actor \<Rightarrow> bool" where
  "sessions_kept gen a b \<longleftrightarrow>
     (ids_drawn gen a \<longrightarrow> ids_drawn gen b \<and>
        (\<forall>i s. hget (a_sessions a) i = Some s \<longrightarrow>
           (\<exists>s'. hget (a_sessions b) i = Some s' \<and> sess_kept s s')))"

section \<open>One session\<close>

lemmas sess_defs = take_decision_def failed_session_def canceled_session_def accept_session_def
  start_session_file_def skip_others_def

lemma sess_step_frame:
  "sess_step g s s' ds \<Longrightarrow>
     s_id s' = s_id s \<and> s_direction s' = s_direction s \<and> s_peer s' = s_peer s \<and>
     s_speed_bps s' = s_speed_bps s \<and> s_token_index s' = s_token_index s"
  by (induction rule: sess_step.induct)
    (auto simp: sess_defs Let_def split: option.splits if_splits)

lemma sess_step_events: "sess_step g s s' ds \<Longrightarrow> s_events s \<noteq> [] \<Longrightarrow> s_events s' \<noteq> []"
  by (induction rule: sess_step.induct)
    (auto simp: sess_defs Let_def mark_file_def split: option.splits if_splits)

lemma sess_step_hwf: "sess_step g s s' ds \<Longrightarrow> hwf (s_files s) \<Longrightarrow> hwf (s_files s')"
  by (induction rule: sess_step.induct)
    (auto simp: sess_defs Let_def split: option.splits if_splits)

lemma sess_step_tokens:
  "sess_step g s s' ds \<Longrightarrow>
     map_option fe_token (hget (s_files s') fid) = map_option fe_token (hget (s_files s) fid)"
  by (induction rule: sess_step.induct)
    (auto simp: sess_defs Let_def option.map_comp o_def intro!: option.map_cong0
      split: option.splits if_splits)

lemma sess_step_active: "sess_step g s s' ds \<Longrightarrow> is_active s' \<Longrightarrow> is_active s"
  by (induction rule: sess_step.induct)
    (auto simp: sess_defs Let_def is_active_def split: option.splits if_splits)

lemma sess_step_kept: "sess_step g s s' ds \<Longrightarrow> sess_kept s s'"
  by (induction rule: sess_step.induct)
    (auto simp: sess_kept_def sess_defs Let_def is_active_def split: option.splits if_splits)

lemma sess_step_cancelled:
  "sess_step g s s' ds \<Longrightarrow> s_cancelled s \<longrightarrow> s_state s = Failed \<or> s_state s = Canceled \<Longrightarrow>
     s_cancelled s' \<longrightarrow> s_state s' = Failed \<or> s_state s' = Canceled"
  by (induction rule: sess_step.induct)
    (auto simp: sess_defs Let_def is_active_def split: option.splits if_splits)

lemma sess_step_decision:
  "sess_step g s s' ds \<Longrightarrow>
     ds = [] \<and> s_decision s' = s_decision s \<or>
     (\<exists>ch d. ds = [(ch, d)] \<and> s_decision s = Some ch \<and> s_decision s' = None)"
  by (induction rule: sess_step.induct)
    (auto simp: sess_defs Let_def split: option.splits if_splits)

lemma sess_step_answered:
  "sess_step True s s' ds \<Longrightarrow> s_direction s = Receive \<Longrightarrow>
     (s_state s \<noteq> Pending \<longrightarrow> s_decision s = None) \<Longrightarrow>
     s_state s' \<noteq> Pending \<longrightarrow> s_decision s' = None"
  by (induction rule: sess_step.induct)
    (auto simp: sess_defs Let_def is_active_def split: option.splits if_splits)

lemma tokens_ok_cong:
  assumes "\<And>fid. map_option fe_token (hget files' fid) = map_option fe_token (hget files fid)"
    and "tokens_ok gen n files idx"
  shows "tokens_ok gen n files' idx"
proof -
  have eq: "(\<exists>f. hget files' fid = Some f \<and> fe_token f = t) \<longleftrightarrow>
            (\<exists>f. hget files fid = Some f \<and> fe_token f = t)" for fid t
    using assms(1) [of fid] by (cases "hget files fid"; cases "hget files' fid") auto
  have "\<exists>k < n. fe_token f = Some (gen k) \<and> hget idx (gen k) = Some fid"
    if f: "hget files' fid = Some f" for fid f
  proof -
    obtain f0 where f0: "hget files fid = Some f0" "fe_token f0 = fe_token f"
      using eq [of fid "fe_token f"] f by blast
    then have "\<exists>k < n. fe_token f0 = Some (gen k) \<and> hget idx (gen k) = Some fid"
      using assms(2) unfolding tokens_ok_def by blast
    then show ?thesis using f0(2) by simp
  qed
  moreover have "\<exists>f. hget files' fid = Some f \<and> fe_token f = Some t"
    if "hget idx t = Some fid" for t fid
    using assms(2) that eq unfolding tokens_ok_def by blast
  ultimately show ?thesis unfolding tokens_ok_def by blast
qed

lemma sess_step_wf:
  assumes st: "sess_step g s s' ds" and wf: "sess_wf gen n i s"
  shows "sess_wf gen n i s'"
proof -
  note fr = sess_step_frame [OF st] sess_step_events [OF st] sess_step_hwf [OF st]
    sess_step_cancelled [OF st] sess_step_decision [OF st]
  have "tokens_ok gen n (s_files s) (s_token_index s) \<Longrightarrow>
        tokens_ok gen n (s_files s') (s_token_index s')"
    using fr(1) tokens_ok_cong [OF sess_step_tokens [OF st]] by metis
  then show ?thesis
    using wf fr unfolding sess_wf_def by (auto split: SessionDirection.splits)
qed

lemma tokens_ok_mono: "tokens_ok gen n files idx \<Longrightarrow> n \<le> m \<Longrightarrow> tokens_ok gen m files idx"
  unfolding tokens_ok_def by (meson order_less_le_trans)

lemma sess_wf_mono: "sess_wf gen n i s \<Longrightarrow> n \<le> m \<Longrightarrow> sess_wf gen m i s"
  unfolding sess_wf_def by (auto split: SessionDirection.splits intro: tokens_ok_mono)

section \<open>New sessions\<close>

lemma recv_files_tokens:
  assumes "inj gen" and "recv_files gen n xs (es, idx) = (es', idx', n')"
    and "distinct (map fst es @ map fst xs)"
    and "tokens_ok gen n es idx" and "hwf idx" and "\<forall>t. hget idx t \<noteq> None \<longrightarrow> (\<exists>k < n. t = gen k)"
  shows "tokens_ok gen n' es' idx' \<and> hwf idx' \<and> n' = n + length xs \<and>
     map fst es' = map fst es @ map fst xs"
  using assms
proof (induction gen n xs "(es, idx)" arbitrary: es idx rule: recv_files.induct)
  case (1 gen n es idx)
  then show ?case by simp
next
  case (2 gen n fid info xs es idx)
  let ?f = "\<lparr>fe_token = Some (gen n), fe_info = info, fe_state = FPending\<rparr>"
  let ?es = "es @ [(fid, ?f)]" and ?idx = "hput (gen n) fid idx"
  have new: "hget es fid = None"
    using "2.prems" by (auto simp: map_of_eq_None_iff)
  then have old: "hget ?es x = (if x = fid then Some ?f else hget es x)" for x
    by (auto simp: map_add_def split: option.split)
  have fresh: "hget idx (gen n) = None"
    using "2.prems"(1,6) by (metis inj_eq less_irrefl)
  have "\<exists>k < Suc n. fe_token f = Some (gen k) \<and> hget ?idx (gen k) = Some x"
    if f: "hget ?es x = Some f" for x f
  proof (cases "x = fid")
    case True
    then have "f = ?f" using f old [of x] by simp
    then show ?thesis using True by (intro exI [of _ n]) simp
  next
    case False
    then have "hget es x = Some f" using f old by simp
    then obtain k where k: "k < n" "fe_token f = Some (gen k)" "hget idx (gen k) = Some x"
      using "2.prems"(4) unfolding tokens_ok_def by blast
    then have "gen k \<noteq> gen n" using fresh by auto
    then show ?thesis using k by (intro exI [of _ k]) simp
  qed
  moreover have "\<exists>f. hget ?es x = Some f \<and> fe_token f = Some t"
    if t: "hget ?idx t = Some x" for x t
  proof (cases "t = gen n")
    case True
    then show ?thesis using t old by simp
  next
    case False
    then have "hget idx t = Some x" using t by simp
    then obtain f where "hget es x = Some f" "fe_token f = Some t"
      using "2.prems"(4) unfolding tokens_ok_def by blast
    then show ?thesis using old new by auto
  qed
  ultimately have "tokens_ok gen (Suc n) ?es ?idx"
    unfolding tokens_ok_def by blast
  moreover have "\<forall>t. hget ?idx t \<noteq> None \<longrightarrow> (\<exists>k < Suc n. t = gen k)"
    using "2.prems"(6) less_Suc_eq by (metis hget_hput)
  ultimately show ?case
    using "2.hyps" "2.prems" by auto
qed

lemma tokens_ok_Nil [simp]: "tokens_ok gen n [] []"
  by (simp add: tokens_ok_def)

lemma recv_files_new:
  assumes "inj gen" and "hwf files" and "recv_files gen n files ([], []) = (es, idx, m)"
  shows "tokens_ok gen m es idx" and "hwf idx" and "m = n + length files"
    and "map fst es = map fst files" and "hcollect es = es"
  using recv_files_tokens [OF assms(1,3)] assms(2) by (auto simp: hwf_def hcollect_distinct)

lemma recv_files_count: "recv_files gen n xs acc = (es, idx, m) \<Longrightarrow> m = n + length xs"
  by (induction gen n xs acc rule: recv_files.induct) auto

lemma sess_wf_new_recv:
  assumes "inj gen" and "hwf files" and "recv_files gen n files ([], []) = (es, idx, m)"
  shows "sess_wf gen m i (new_session i Receive peer (hcollect es) idx (Some i))"
  using recv_files_new [OF assms] assms(2)
  by (auto simp: sess_wf_def new_session_def watch_channel_def hwf_def)

lemma sess_wf_new_send: "sess_wf gen m i (new_session i Send peer (hcollect es) [] None)"
  by (simp add: sess_wf_def new_session_def watch_channel_def)

section \<open>The invariant\<close>

lemma session_inv_update:
  assumes inv: "session_inv gen a" and get: "hget (a_sessions a) i = Some s"
    and st: "sess_step g s s' ds"
  shows "session_inv gen (deliver ds (put_session i s' a))"
proof -
  have wf: "sess_wf gen (a_uuid a) i s" using inv get by (simp add: session_inv_def)
  have wf': "sess_wf gen (a_uuid a) i s'" by (rule sess_step_wf [OF st wf])
  have dir: "s_direction s' = s_direction s" using sess_step_frame [OF st] by simp
  have dec: "ds = [] \<and> s_decision s' = s_decision s \<or>
      (\<exists>d. ds = [(i, d)]) \<and> s_direction s = Receive \<and> s_decision s = Some i \<and> s_decision s' = None"
    using sess_step_decision [OF st] wf
    by (cases "s_direction s") (auto simp: sess_wf_def)
  have dist: "distinct (map fst (a_delivered a))"
    and mem: "j \<in> fst ` set (a_delivered a) \<longleftrightarrow>
      (\<exists>t. hget (a_sessions a) j = Some t \<and> s_direction t = Receive \<and> s_decision t = None)" for j
    using inv by (simp_all add: session_inv_def decisions_ok_def)
  have "distinct (map fst (a_delivered a @ ds))"
    using dist dec mem [of i] get by (elim disjE) (simp, force)
  moreover have "j \<in> fst ` set (a_delivered a @ ds) \<longleftrightarrow>
      (\<exists>t. hget (hput i s' (a_sessions a)) j = Some t \<and> s_direction t = Receive \<and>
        s_decision t = None)" for j
    using mem [of j] dec dir get by (cases "j = i") (auto simp: image_Un)
  ultimately have "decisions_ok (deliver ds (put_session i s' a))"
    by (simp add: decisions_ok_def)
  moreover have "ids_drawn gen (deliver ds (put_session i s' a))"
    using inv get by (auto simp: session_inv_def ids_drawn_def)
  ultimately show ?thesis
    using inv wf' by (auto simp: session_inv_def)
qed

lemma session_inv_create:
  assumes inj: "inj gen" and inv: "session_inv gen a" and i: "i = gen (a_uuid a)"
    and wf: "sess_wf gen n i s" and n: "a_uuid a < n"
    and new: "s_direction s = Receive \<longrightarrow> s_decision s = Some i"
  shows "session_inv gen (put_session i s (a\<lparr>a_uuid := n\<rparr>))"
proof -
  have fresh: "hget (a_sessions a) i = None"
    using inv i inj unfolding session_inv_def ids_drawn_def
    by (metis inj_eq less_irrefl not_Some_eq)
  have "decisions_ok (put_session i s (a\<lparr>a_uuid := n\<rparr>))"
    using inv fresh new unfolding session_inv_def decisions_ok_def
    by (auto simp: put_session_def)
  moreover have "ids_drawn gen (put_session i s (a\<lparr>a_uuid := n\<rparr>))"
    using inv i n unfolding session_inv_def ids_drawn_def
    by (auto simp: put_session_def) (metis less_trans)
  moreover have "sess_wf gen n j t" if "hget (a_sessions a) j = Some t" for j t
    using inv n that sess_wf_mono [OF _ less_imp_le [OF n]] by (auto simp: session_inv_def)
  ultimately show ?thesis
    using inv wf by (auto simp: session_inv_def put_session_def)
qed

lemma session_inv_broadcast [simp]: "session_inv gen (broadcast_index a) = session_inv gen a"
  by (simp add: session_inv_def ids_drawn_def decisions_ok_def)

lemma session_inv_step:
  assumes "inj gen" and "actor_step g gen a b" and "session_inv gen a"
  shows "session_inv gen b"
  using assms(2,3)
proof (induction rule: actor_step.induct)
  case (broadcast a)
  then show ?case by simp
next
  case (update a i s s' ds)
  then show ?case by (rule session_inv_update [rotated])
next
  case (create_recv a files es idx n i peer)
  then show ?case
    using recv_files_new(3) [OF assms(1) create_recv(2,3)] assms(1)
    by (intro session_inv_create [OF assms(1)] sess_wf_new_recv) (auto simp: new_session_def)
next
  case (create_send i a peer es)
  then show ?case
    by (intro session_inv_create [OF assms(1)] sess_wf_new_send) (auto simp: new_session_def)
qed

interpretation wf_step: step_invariant False gen "\<lambda>a. inj gen \<longrightarrow> session_inv gen a" for gen
  by unfold_locales (blast intro: session_inv_step)

interpretation wf_actor: guarded_actor "handle_message gen" "\<lambda>_. msg_wf"
    "\<lambda>a. inj gen \<longrightarrow> session_inv gen a" for gen
  by unfold_locales (rule wf_step.I_message, simp_all)

lemma session_inv_new [simp]: "session_inv gen (new_actor mx)"
  by (simp add: session_inv_def new_actor_def ids_drawn_def decisions_ok_def)

section \<open>The cap on receive sessions\<close>

definition counts :: "Session \<Rightarrow> bool" where
  "counts s \<longleftrightarrow> s_direction s = Receive \<and> is_active s"

lemma active_recv_eq: "active_recv a = length (filter counts (hvals (a_sessions a)))"
  by (simp add: active_recv_def counts_def [abs_def])

lemma filter_hput_le:
  "length (filter P (hvals (hput k v m))) \<le>
     length (filter P (hvals m)) + (if P v \<and> (hget m k = None \<or> \<not> P (the (hget m k))) then 1 else 0)"
  by (induction m) (auto split: if_splits)

lemma recv_cap_step:
  assumes "actor_step g gen a b" and "recv_cap a"
  shows "recv_cap b"
  using assms
proof (induction rule: actor_step.induct)
  case (broadcast a)
  then show ?case by (simp add: recv_cap_def active_recv_def)
next
  case (update a i s s' ds)
  have "counts s' \<Longrightarrow> counts s"
    using sess_step_active [OF update(2)] sess_step_frame [OF update(2)] by (simp add: counts_def)
  then show ?case
    using update(1,3) filter_hput_le [of counts i s' "a_sessions a"]
    by (auto simp: recv_cap_def active_recv_eq split: if_splits)
next
  case (create_recv a files es idx n i peer)
  then show ?case
    using filter_hput_le [of counts i "new_session i Receive peer (hcollect es) idx (Some i)"
        "a_sessions a"]
    by (auto simp: recv_cap_def active_recv_eq put_session_def split: if_splits)
next
  case (create_send i a peer es)
  have "\<not> counts (new_session i Send peer (hcollect es) [] None)"
    by (simp add: counts_def new_session_def)
  then show ?case
    using create_send filter_hput_le [of counts i "new_session i Send peer (hcollect es) [] None"
        "a_sessions a"]
    by (auto simp: recv_cap_def active_recv_eq put_session_def)
qed

interpretation cap_step: step_invariant False gen recv_cap for gen
  by unfold_locales (rule recv_cap_step)

interpretation cap_actor: guarded_actor "handle_message gen" "\<lambda>_. msg_wf" recv_cap for gen
  by unfold_locales (rule cap_step.I_message, simp_all)

lemma recv_cap_new [simp]: "recv_cap (new_actor mx)"
  by (simp add: recv_cap_def active_recv_def new_actor_def)

section \<open>Answers to waiting senders\<close>

lemma answered_step:
  assumes "actor_step True gen a b" and "answered a"
  shows "answered b"
  using assms
proof (induction rule: actor_step.induct)
  case (update a i s s' ds)
  have "s_direction s' = Receive \<Longrightarrow> s_state s' \<noteq> Pending \<Longrightarrow> s_decision s' = None"
    using sess_step_answered [OF update(2)] sess_step_frame [OF update(2)] update(1,3)
    by (auto simp: answered_def)
  then show ?case using update(3) by (auto simp: answered_def)
qed (auto simp: answered_def put_session_def new_session_def)

interpretation answer_step: step_invariant True gen answered for gen
  by unfold_locales (rule answered_step)

interpretation answer_actor: guarded_actor "handle_message gen" well_used answered for gen
proof unfold_locales
  fix a m assume "answered a" and "well_used a m"
  moreover have "msg_wf m" using \<open>well_used a m\<close> by (cases m) simp_all
  ultimately show "answered (fst (handle_message gen a m))"
    by (simp add: answer_step.I_message)
qed

lemma answered_new [simp]: "answered (new_actor mx)"
  by (simp add: answered_def new_actor_def)

section \<open>Sessions are never forgotten\<close>

lemma sess_kept_refl [simp]: "sess_kept s s"
  by (simp add: sess_kept_def)

lemma sess_kept_trans: "sess_kept s t \<Longrightarrow> sess_kept t u \<Longrightarrow> sess_kept s u"
  by (auto simp: sess_kept_def is_active_def)

lemma sessions_kept_trans: "sessions_kept gen a b \<Longrightarrow> sessions_kept gen b c \<Longrightarrow> sessions_kept gen a c"
  unfolding sessions_kept_def by (meson sess_kept_trans)

lemma sessions_kept_create:
  assumes "inj gen" and "a_uuid a < n" and "i = gen (a_uuid a)"
  shows "sessions_kept gen a (put_session i s (a\<lparr>a_uuid := n\<rparr>))"
proof -
  have "hget (a_sessions a) i = None" if "ids_drawn gen a"
    using that assms(1,3) unfolding ids_drawn_def by (metis inj_eq less_irrefl not_Some_eq)
  moreover have "ids_drawn gen (put_session i s (a\<lparr>a_uuid := n\<rparr>))" if "ids_drawn gen a"
    using that assms(2,3) less_trans unfolding ids_drawn_def by (auto simp: put_session_def) blast
  ultimately show ?thesis
    unfolding sessions_kept_def by (auto simp: put_session_def)
qed

lemma sessions_kept_broadcast [simp]:
  "sessions_kept gen a (broadcast_index b) = sessions_kept gen a b"
  by (simp add: sessions_kept_def ids_drawn_def)

lemma sessions_kept_step:
  assumes "inj gen" and "actor_step g gen a b"
  shows "sessions_kept gen a b"
  using assms(2)
proof (induction rule: actor_step.induct)
  case (broadcast a)
  then show ?case by (simp add: sessions_kept_def ids_drawn_def)
next
  case (update a i s s' ds)
  then show ?case
    using sess_step_kept [OF update(2)] by (auto simp: sessions_kept_def ids_drawn_def)
next
  case (create_recv a files es idx n i peer)
  then show ?case
    using recv_files_count by (intro sessions_kept_create [OF assms(1)]) fastforce+
next
  case (create_send i a peer es)
  then show ?case by (intro sessions_kept_create [OF assms(1)]) simp_all
qed

lemma sessions_kept_steps:
  assumes "inj gen" and "actor_steps g gen a b"
  shows "sessions_kept gen a b"
  using assms(2)
proof (induction rule: rtranclp_induct)
  case base
  then show ?case by (simp add: sessions_kept_def)
next
  case (step b c)
  then show ?case using sessions_kept_step [OF assms(1)] sessions_kept_trans by blast
qed

lemma sessions_kept_message:
  assumes "inj gen"
  shows "sessions_kept gen a (fst (handle_message gen a m))"
proof (cases m)
  case (CreateRecvSession d files)
  obtain es idx n where rf: "recv_files gen (Suc (a_uuid a)) files ([], []) = (es, idx, n)"
    by (metis prod_cases3)
  then have "a_uuid a < n" using recv_files_count by fastforce
  then show ?thesis
    using CreateRecvSession rf
    by (auto simp: on_create_recv_def Let_def sessions_kept_create [OF assms])
      (simp add: sessions_kept_def)
next
  case (CreateSendSession d files)
  then show ?thesis
    by (simp add: on_create_send_def Let_def sessions_kept_create [OF assms])
qed (use handle_message_steps [of m gen a] sessions_kept_steps [OF assms] in auto)

interpretation kept: actor_order "handle_message gen"
    "\<lambda>a b. inj gen \<longrightarrow> sessions_kept gen a b" for gen
proof unfold_locales
  show "inj gen \<longrightarrow> sessions_kept gen s s" for s
    by (simp add: sessions_kept_def)
qed (use sessions_kept_trans sessions_kept_message in blast)+

section \<open>The published index\<close>

lemma index_current_broadcast [simp]: "index_current (broadcast_index a)"
  by (simp add: index_current_def)

lemma index_current_set_state: "index_current a \<Longrightarrow> index_current (set_state i st a)"
  by (simp add: set_state_def split: option.split)

lemma index_current_check_finish: "index_current a \<Longrightarrow> index_current (check_finish i a)"
  by (simp add: check_finish_def index_current_set_state split: option.split)

text \<open>A message that touches no field of a summary leaves the list as it is.\<close>

lemma map_summary_hput:
  "hget m i = Some s \<Longrightarrow> summary s' = summary s \<Longrightarrow> map summary (hvals (hput i s' m)) = map summary (hvals m)"
  by (induction m) (auto split: if_splits)

lemma summary_emit [simp]: "summary (emit e s) = summary s"
  by (simp add: summary_def file_infos_def)

lemma index_current_message:
  assumes "index_current a"
  shows "index_current (fst (handle_message gen a m))"
proof (cases m)
  case (ReportProgress i fid n)
  have "index_list (hput i (emit (Progress fid n) s) (a_sessions a)) = index_list (a_sessions a)"
    if "hget (a_sessions a) i = Some s" for s
    using map_summary_hput [OF that, of "emit (Progress fid n) s"] by (simp add: index_list_def)
  then show ?thesis
    using assms ReportProgress
    by (auto simp: on_report_progress_def index_current_def split: option.split)
next
  case (Accept i fids)
  then show ?thesis
    by (simp add: on_accept_def case_prod_beta index_current_check_finish)
next
  case (FinishFile i token st)
  then show ?thesis using assms
    by (auto simp: on_finish_file_def set_file_state_def fail_session_def case_prod_beta Let_def
        split: option.split FileState.split)
next
  case (ReportFileState i fid st)
  then show ?thesis using assms
    by (auto simp: set_file_state_def fail_session_def case_prod_beta Let_def
        split: option.split FileState.split)
qed (use assms in \<open>auto simp: on_create_recv_def on_create_send_def on_decline_def on_mark_route_def
       on_mark_via_relay_def on_start_file_def cancel_session_def fail_session_def case_prod_beta
       Let_def index_current_set_state split: option.split\<close>)

interpretation index_actor: actor_invariant "handle_message gen" index_current for gen
  by unfold_locales (rule index_current_message)

lemma index_current_new [simp]: "index_current (new_actor mx)"
  by (simp add: index_current_def new_actor_def index_list_def)

end
