(* ===== verification/Samples.thy ===== *)
theory Samples
  imports Model
begin

text \<open>
  Concrete values on which the witnesses evaluate the model: a device, two files and a supply of
  pairwise distinct ids.
\<close>

definition sample_device :: NodeDevice where
  "sample_device =
     \<lparr>nd_alias = ''pc'', nd_version = PROTOCOL_VERSION, nd_device_model = ''linux'',
      nd_device_type = ''desktop'', nd_fingerprint = ''f1'', nd_address = ''10.0.0.2'',
      nd_port = 53317, nd_protocol = ''https'', nd_download = True, nd_announcement = False,
      nd_announce = False, nd_discovery_source = ''lan''\<rparr>"

definition sample_file :: "string \<Rightarrow> FileInfo" where
  "sample_file name =
     \<lparr>fi_id = name, fi_file_name = name, fi_size = 3, fi_file_type = ''text/plain'',
      fi_sha256 = None, fi_preview = None\<rparr>"

definition sample_files :: "(string, FileInfo) hashmap" where
  "sample_files = [(''a'', sample_file ''a.txt''), (''b'', sample_file ''b.txt'')]"

definition sample_gen :: "nat \<Rightarrow> string" where
  "sample_gen n = replicate (Suc n) CHR ''u''"

lemma inj_sample_gen [simp]: "inj sample_gen"
proof (rule injI)
  fix m n assume "sample_gen m = sample_gen n"
  then have "length (sample_gen m) = length (sample_gen n)" by simp
  then show "m = n" by (simp add: sample_gen_def)
qed

lemma hwf_sample_files [simp]: "hwf sample_files"
  by (simp add: hwf_def sample_files_def)

end
