(* ===== verification/Session_Props.thy ===== *)
theory Session_Props
  imports Session_Inv Samples
begin

text \<open>
  What the session manager promises its clients (\<open>server.rs\<close>, \<open>handle.rs\<close> and the front ends),
  stated over the methods of \<open>SessionHandle\<close> and over every state the actor can reach.
\<close>

section \<open>Facts shared by the properties\<close>

abbreviation session_reachable :: "(nat \<Rightarrow> string) \<Rightarrow> nat \<Rightarrow> Actor \<Rightarrow> bool" where
  "session_reachable gen mx \<equiv> reachable (handle_message gen) (\<lambda>_. msg_wf) (new_actor mx)"

lemmas handle_defs = create_recv_session_def create_send_session_def accept_def decline_def
  cancel_def mark_via_relay_def mark_route_def start_file_def finish_file_def report_progress_def
  report_file_state_def report_state_def fail_def session_events_def cancel_token_def
  get_session_def session_index_def

lemma reachable_session_inv: "inj gen \<Longrightarrow> session_reachable gen mx a \<Longrightarrow> session_inv gen a"
  using wf_actor.reachable_inv [of gen "new_actor mx" a] by simp

lemma reachable_recv_cap: "session_reachable gen mx a \<Longrightarrow> recv_cap a"
  using cap_actor.reachable_inv [of gen "new_actor mx" a] by simp

lemma actor_step_max: "actor_step g gen a b \<Longrightarrow> a_max_recv_sessions b = a_max_recv_sessions a"
  by (induction rule: actor_step.induct) (simp_all add: put_session_def)

interpretation max_step: step_invariant False gen "\<lambda>a. a_max_recv_sessions a = mx" for gen mx
  by unfold_locales (simp add: actor_step_max)

interpretation max_actor: guarded_actor "handle_message gen" "\<lambda>_. msg_wf"
    "\<lambda>a. a_max_recv_sessions a = mx" for gen mx
  by unfold_locales (rule max_step.I_message, simp_all)

lemma reachable_max: "session_reachable gen mx a \<Longrightarrow> a_max_recv_sessions a = mx"
  using max_actor.reachable_inv [of gen "new_actor mx" a mx] by (simp add: new_actor_def)

lemma reachable_weaken: "reachable step ok s0 a \<Longrightarrow> reachable step (\<lambda>_ _. True) s0 a"
  by (induction rule: reachable.induct) (auto intro: reachable.intros)

lemma reachable_index: "session_reachable gen mx a \<Longrightarrow> index_current a"
  using index_actor.reachable_inv [OF reachable_weaken [of "handle_message gen"]] by simp

lemma sess_wf_id: "session_inv gen a \<Longrightarrow> hget (a_sessions a) i = Some s \<Longrightarrow> s_id s = i"
  by (auto simp: session_inv_def sess_wf_def)

lemma map_id_summaries:
  "session_inv gen a \<Longrightarrow> map sm_id (map summary (hvals (a_sessions a))) = map fst (a_sessions a)"
  using hget_eq_Some_iff [of "a_sessions a"] sess_wf_id [of gen a]
  by (auto simp: session_inv_def summary_def)

lemma set_index_list:
  "hwf m \<Longrightarrow> set (index_list m) = {sm. \<exists>i s. hget m i = Some s \<and> sm = summary s}"
  by (force simp: index_list_def hget_eq_Some_iff image_iff)

lemma distinct_index_list:
  "session_inv gen a \<Longrightarrow> distinct (map sm_id (index_list (a_sessions a)))"
proof -
  assume inv: "session_inv gen a"
  then have "distinct (map sm_id (map summary (hvals (a_sessions a))))"
    by (simp only: map_id_summaries) (simp add: session_inv_def hwf_def)
  then show ?thesis
    unfolding index_list_def by (simp add: distinct_map del: map_map)
qed

lemma accepted_tokens_get:
  assumes "hwf files"
  shows "hget (accepted_tokens acc files) fid = (if fid \<in> set acc
    then Option.bind (hget files fid) fe_token else None)"
proof -
  let ?g = "\<lambda>fid (f :: FileEntry). if fid \<in> set acc then fe_token f else None"
  have "(\<lambda>(fid, f). if fid \<in> set acc then map_option (Pair fid) (fe_token f) else None) =
      (\<lambda>(fid, f). map_option (Pair fid) (?g fid f))"
    by auto
  then have "accepted_tokens acc files = List.map_filter (\<lambda>(fid, f). map_option (Pair fid) (?g fid f)) files"
    using hwf_map_filter [OF assms, of ?g] unfolding accepted_tokens_def hwf_def
    by (simp only: hcollect_distinct)
  then show ?thesis
    using hget_map_filter [OF assms, of ?g] by (auto split: bind_splits)
qed

text \<open>The files of a new receive session: all of them, pending, with their own data.\<close>

lemma recv_files_entries:
  "recv_files gen n xs (es, idx) = (es', idx', n') \<Longrightarrow>
     map (\<lambda>(fid, f). (fid, fe_info f, fe_state f)) es' =
     map (\<lambda>(fid, f). (fid, fe_info f, fe_state f)) es @ map (\<lambda>(fid, i). (fid, i, FPending)) xs"
  by (induction gen n xs "(es, idx)" arbitrary: es idx rule: recv_files.induct) auto

lemma hget_map_snd: "hget (map (\<lambda>(k, v). (k, f v)) m) k = map_option f (hget m k)"
  by (induction m) auto

lemma new_recv_files:
  assumes "inj gen" and "hwf files" and "recv_files gen n files ([], []) = (es, idx, m)"
  shows "map_option (\<lambda>f. (fe_info f, fe_state f)) (hget (hcollect es) fid) =
    map_option (\<lambda>i. (i, FPending)) (hget files fid)"
proof -
  have "map (\<lambda>(fid, f). (fid, fe_info f, fe_state f)) es = map (\<lambda>(fid, i). (fid, i, FPending)) files"
    using recv_files_entries [OF assms(3)] by simp
  then have "map_option (\<lambda>f. (fe_info f, fe_state f)) (hget es fid) =
      map_option (\<lambda>i. (i, FPending)) (hget files fid)"
    using hget_map_snd [of "\<lambda>f. (fe_info f, fe_state f)" es fid]
      hget_map_snd [of "\<lambda>i. (i, FPending)" files fid] by simp
  then show ?thesis by (simp add: recv_files_new(5) [OF assms])
qed

lemma active_recv_put_new:
  "hget (a_sessions a) i = None \<Longrightarrow>
     active_recv (put_session i s (a\<lparr>a_uuid := n\<rparr>)) = active_recv a + (if counts s then 1 else 0)"
  by (simp add: active_recv_eq put_session_def hput_absent)

lemma active_recv_broadcast [simp]: "active_recv (broadcast_index a) = active_recv a"
  by (simp add: active_recv_def)

lemma session_id_fresh:
  "inj gen \<Longrightarrow> session_inv gen a \<Longrightarrow> hget (a_sessions a) (gen (a_uuid a)) = None"
  unfolding session_inv_def ids_drawn_def by (metis inj_eq less_irrefl not_Some_eq)

lemma check_finish_get:
  "hget (a_sessions a) i = Some s \<Longrightarrow> hget (a_sessions (check_finish i a)) i =
     Some (if all_done s then emit (StateChanged Finished) (s\<lparr>s_state := Finished\<rparr>) else s)"
  by (simp add: check_finish_def set_state_def all_done_def)

lemma check_finish_delivered [simp]: "a_delivered (check_finish i a) = a_delivered a"
  by (simp add: check_finish_def set_state_def split: option.split)

lemma check_finish_other: "j \<noteq> i \<Longrightarrow> hget (a_sessions (check_finish i a)) j = hget (a_sessions a) j"
  by (simp add: check_finish_def set_state_def split: option.split)

lemma start_file_get:
  "hget (a_sessions a) i = Some s \<Longrightarrow>
     snd (start_file gen i t a) = map_sum id snd (start_session_file t s)"
  by (simp add: start_file_def on_start_file_def case_prod_beta split: sum.split)

lemma accept_session_spec:
  fixes fids :: "string list option"
  assumes "s_decision s = Some i"
  defines "acc \<equiv> accepted_ids fids (s_files s)"
  obtains s' where "accept_session fids s = (s', [(i, Accepted (accepted_tokens acc (s_files s)))])"
    and "s_files s' = skip_others acc (s_files s)" and "s_state s' = Transfering"
    and "s_direction s' = s_direction s" and "s_token_index s' = s_token_index s"
    and "s_id s' = s_id s"
  using assms(1) unfolding acc_def by (auto simp: accept_session_def Let_def take_decision_def)

text \<open>A file that is not done keeps its session running.\<close>

lemma not_all_done:
  "hget (s_files s) fid = Some f \<Longrightarrow> \<not> is_terminal (fe_state f) \<Longrightarrow> \<not> all_done s"
  using hget_in_hvals [of "s_files s" fid f] by (force simp: all_done_def list_all_iff)

lemma start_session_file_chosen:
  assumes "s_direction s = Receive" and "s_state s = Transfering"
    and "hget (s_token_index s) t = Some fid" and "hget (s_files s) fid = Some f"
  shows "map_sum id snd (start_session_file t s) =
    (if is_terminal (fe_state f) then Inl InvalidState
     else Inr \<lparr>ft_file_id = fid, ft_info = fe_info f, ft_session = s_id s\<rparr>)"
  using assms by (simp add: start_session_file_def)

lemma start_session_file_ended:
  "s_state s \<noteq> Transfering \<Longrightarrow> start_session_file t s = Inl InvalidState"
  by (simp add: start_session_file_def)

lemma reachable_token:
  assumes "inj gen" and "session_reachable gen mx a" and "hget (a_sessions a) i = Some s"
    and "s_direction s = Receive" and "hget (s_files s) fid = Some f" and "fe_token f = Some t"
  shows "hget (s_token_index s) t = Some fid"
proof -
  have "sess_wf gen (a_uuid a) i s"
    using reachable_session_inv [OF assms(1,2)] assms(3) by (simp add: session_inv_def)
  then have "tokens_ok gen (a_uuid a) (s_files s) (s_token_index s)"
    using assms(4) by (simp add: sess_wf_def)
  then show ?thesis using assms(5,6) unfolding tokens_ok_def by fastforce
qed

lemma all_done_mark:
  assumes "is_active s" and "hwf (s_files s)" and "hget (s_files s) fid = Some f"
    and "st = FFinish \<or> st = FSkip"
  shows "all_done (mark_file fid st s) \<longleftrightarrow>
    list_all (\<lambda>(k, f). k = fid \<or> fe_state f = FFinish \<or> fe_state f = FSkip) (s_files s)"
proof -
  have "s_files s \<noteq> []" using assms(3) by auto
  then show ?thesis
    using assms(1,4)
    by (fastforce simp: all_done_def hmodify_eq_hmap [OF assms(2)] hmap_def list_all_iff)
qed

lemma fail_session_get:
  assumes "hget (a_sessions a) i = Some s" and "is_active s"
  shows "hget (a_sessions (fail_session i reason a)) i =
      Some ((failed_session reason s)\<lparr>s_decision := None\<rparr>)"
  using assms by (simp add: fail_session_def take_decision_def)

lemma fail_session_other:
  "j \<noteq> i \<Longrightarrow> hget (a_sessions (fail_session i reason a)) j = hget (a_sessions a) j"
  by (simp add: fail_session_def case_prod_beta split: option.split)

section \<open>Properties\<close>

text \<open>C2. In every state the session actor can reach, the number of active receive sessions is at
  most the cap the actor was created with.\<close>

theorem recv_sessions_capped:
  assumes "session_reachable gen mx a"
  shows "active_recv a \<le> mx"
  using reachable_recv_cap [OF assms] reachable_max [OF assms] by (simp add: recv_cap_def)

text \<open>C9. Every session the actor ever holds is well formed: it is stored under its own id, with one entry per
  file; in a receive session the token index is the inverse of the tokens of the files, so every file has a
  token and no two share one; a send session has no tokens and nobody waiting for a decision; and a session
  whose transfers were cancelled has failed or was canceled.\<close>

theorem session_well_formed:
  assumes "inj gen" and "session_reachable gen mx a" and "hget (a_sessions a) i = Some s"
  shows "s_id s = i \<and> distinct (map fst (s_files s)) \<and>
    (s_direction s = Receive \<longrightarrow>
       (\<forall>fid t. hget (s_token_index s) t = Some fid \<longleftrightarrow> (\<exists>f. hget (s_files s) fid = Some f \<and> fe_token f = Some t)) \<and>
       (\<forall>fid f. hget (s_files s) fid = Some f \<longrightarrow> fe_token f \<noteq> None)) \<and>
    (s_direction s = Send \<longrightarrow> s_token_index s = [] \<and> s_decision s = None) \<and>
    (s_cancelled s \<longrightarrow> s_state s = Failed \<or> s_state s = Canceled)"
proof -
  have wf: "sess_wf gen (a_uuid a) i s"
    using reachable_session_inv [OF assms(1,2)] assms(3) by (simp add: session_inv_def)
  have inv: "hget (s_token_index s) t = Some fid \<longleftrightarrow> (\<exists>f. hget (s_files s) fid = Some f \<and> fe_token f = Some t)"
    and tok: "hget (s_files s) fid = Some f \<Longrightarrow> fe_token f \<noteq> None"
    if "tokens_ok gen (a_uuid a) (s_files s) (s_token_index s)" for fid t f
    using that unfolding tokens_ok_def by (metis option.inject, metis option.distinct(1))
  show ?thesis
  proof (cases "s_direction s")
    case Send
    then show ?thesis using wf by (simp add: sess_wf_def hwf_def)
  next
    case Receive
    then have tokens: "tokens_ok gen (a_uuid a) (s_files s) (s_token_index s)" using wf by (simp add: sess_wf_def)
    show ?thesis using wf Receive inv [OF tokens] tok [OF tokens] by (simp add: sess_wf_def hwf_def)
  qed
qed

text \<open>C3. No session is ever forgotten, and a session that is no longer active keeps its state,
  its files and its cancellation flag whatever messages follow.\<close>

theorem terminal_sessions_absorbing:
  assumes "inj gen" and "session_reachable gen mx a" and "hget (a_sessions a) i = Some s"
  shows "\<exists>s'. hget (a_sessions (fst (run_session_actor gen a ms))) i = Some s' \<and>
    s_direction s' = s_direction s \<and> s_peer s' = s_peer s \<and>
    (\<not> is_active s \<longrightarrow> s_state s' = s_state s \<and> s_files s' = s_files s \<and>
       s_cancelled s' = s_cancelled s)"
proof -
  have "sessions_kept gen a (fst (run_session_actor gen a ms))"
    using kept.le_run [of gen a ms] assms(1) by (simp add: run_session_actor_def)
  then show ?thesis
    using reachable_session_inv [OF assms(1,2)] assms(3)
    unfolding sessions_kept_def session_inv_def sess_kept_def by blast
qed

text \<open>In every reachable state, the list the index channel publishes holds exactly the
  summaries \<open>get_session\<close> returns, one per session and sorted by session id.\<close>

theorem index_complete:
  assumes "inj gen" and "session_reachable gen mx a"
  shows "set (watch_borrow (session_index gen a)) = {sm. \<exists>i. get_session gen i a = Some sm} \<and>
    sorted (map sm_id (watch_borrow (session_index gen a))) \<and>
    distinct (map sm_id (watch_borrow (session_index gen a)))"
proof -
  have l: "watch_borrow (session_index gen a) = index_list (a_sessions a)"
    using reachable_index [OF assms(2)] by (simp add: session_index_def index_current_def)
  have inv: "session_inv gen a" by (rule reachable_session_inv [OF assms(1,2)])
  then have "set (index_list (a_sessions a)) = {sm. \<exists>i. get_session gen i a = Some sm}"
    using set_index_list [of "a_sessions a"] by (auto simp: get_session_def session_inv_def)
  moreover have "sorted (map sm_id (index_list (a_sessions a)))" by (simp add: index_list_def)
  ultimately show ?thesis using distinct_index_list [OF inv] by (simp add: l)
qed

text \<open>C5. A waiting \<open>prepare-upload\<close> is answered at most once: no session occurs twice among the
  delivered decisions, and the ones that occur are the receive sessions whose sender is used up.\<close>

theorem decisions_delivered_once:
  assumes "inj gen" and "session_reachable gen mx a"
  shows "distinct (map fst (a_delivered a)) \<and>
    (i \<in> fst ` set (a_delivered a) \<longleftrightarrow>
       (\<exists>s. hget (a_sessions a) i = Some s \<and> s_direction s = Receive \<and> s_decision s = None))"
  using reachable_session_inv [OF assms] by (simp add: session_inv_def decisions_ok_def)

text \<open>When state reports are sent for receive sessions only after the decision (as the upload
  server does), a receive session that has left \<open>Pending\<close> has had its decision delivered.\<close>

theorem left_pending_answered:
  assumes "inj gen" and "reachable (handle_message gen) well_used (new_actor mx) a"
    and "hget (a_sessions a) i = Some s" and "s_direction s = Receive" and "s_state s \<noteq> Pending"
  shows "\<exists>d. (i, d) \<in> set (a_delivered a)"
proof -
  have "answered a"
    using answer_actor.reachable_inv [OF assms(2)] by simp
  moreover have "session_reachable gen mx a"
    using assms(2)
  proof (induction rule: reachable.induct)
    case (handle s m)
    moreover have "msg_wf m" using handle(2) by (cases m) simp_all
    ultimately show ?case by (intro reachable.handle)
  qed (rule reachable.start)
  ultimately have "i \<in> fst ` set (a_delivered a)"
    using reachable_session_inv [OF assms(1)] assms(3-)
    unfolding session_inv_def decisions_ok_def answered_def by blast
  then show ?thesis by force
qed

text \<open>\<open>create_recv_session\<close> is refused with \<open>Busy\<close> exactly at the cap, without any change;
  below it, it opens a pending session under a new id that holds every announced file, each with
  a token of its own, and leaves the other sessions alone.\<close>

theorem create_recv_session_spec:
  assumes "inj gen" and "session_reachable gen mx a" and "hwf files"
  shows "if mx \<le> active_recv a then create_recv_session gen d files a = (a, Inl ErrBusy)
    else \<exists>a' i s. create_recv_session gen d files a = (a', Inr i) \<and>
      hget (a_sessions a) i = None \<and> hget (a_sessions a') i = Some s \<and>
      (\<forall>j. j \<noteq> i \<longrightarrow> hget (a_sessions a') j = hget (a_sessions a) j) \<and>
      s_direction s = Receive \<and> s_state s = Pending \<and> s_peer s = d \<and> \<not> s_cancelled s \<and>
      (\<forall>fid. map_option (\<lambda>f. (fe_info f, fe_state f)) (hget (s_files s) fid) =
         map_option (\<lambda>info. (info, FPending)) (hget files fid)) \<and>
      (\<forall>fid f. hget (s_files s) fid = Some f \<longrightarrow>
         (\<exists>t. fe_token f = Some t \<and> hget (s_token_index s) t = Some fid)) \<and>
      active_recv a' = Suc (active_recv a)"
proof (cases "mx \<le> active_recv a")
  case True
  then show ?thesis
    using reachable_max [OF assms(2)] by (simp add: create_recv_session_def on_create_recv_def)
next
  case False
  let ?i = "gen (a_uuid a)"
  obtain es idx n where rf: "recv_files gen (Suc (a_uuid a)) files ([], []) = (es, idx, n)"
    by (metis prod_cases3)
  let ?s = "new_session ?i Receive d (hcollect es) idx (Some ?i)"
  let ?a = "broadcast_index (put_session ?i ?s (a\<lparr>a_uuid := n\<rparr>))"
  have res: "create_recv_session gen d files a = (?a, Inr ?i)"
    using False reachable_max [OF assms(2)] rf
    by (simp add: create_recv_session_def on_create_recv_def Let_def)
  have fresh: "hget (a_sessions a) ?i = None"
    using session_id_fresh [OF assms(1)] reachable_session_inv [OF assms(1,2)] by blast
  have "tokens_ok gen n (hcollect es) idx"
    using recv_files_new(1,5) [OF assms(1,3) rf] by simp
  then have "hget (s_files ?s) fid = Some f \<Longrightarrow>
      \<exists>t. fe_token f = Some t \<and> hget (s_token_index ?s) t = Some fid" for fid f
    unfolding tokens_ok_def by (simp add: new_session_def) blast
  moreover have "active_recv ?a = Suc (active_recv a)"
    using active_recv_put_new [OF fresh] by (simp add: counts_def new_session_def is_active_def)
  ultimately show ?thesis
    using False res fresh new_recv_files [OF assms(1,3) rf]
    by (intro if_not_P [THEN iffD2] exI [of _ ?a] exI [of _ ?i] exI [of _ ?s])
      (auto simp: put_session_def new_session_def)
qed

text \<open>C4. Accepting a pending receive session answers the waiting sender with the tokens of
  exactly the chosen files; the token of a chosen file that is not yet done then starts that
  file's upload, and the token of a file that was not chosen is refused.\<close>

theorem accept_then_start:
  assumes "inj gen" and "session_reachable gen mx a" and "hget (a_sessions a) i = Some s"
    and "s_direction s = Receive" and "s_state s = Pending" and "s_decision s = Some i"
  shows "\<exists>tokens. snd (accept gen i fids a) = Inr () \<and>
    a_delivered (fst (accept gen i fids a)) = a_delivered a @ [(i, Accepted tokens)] \<and>
    (\<forall>fid. hget tokens fid =
       (if fid \<in> set (accepted_ids fids (s_files s)) then Option.bind (hget (s_files s) fid) fe_token
        else None)) \<and>
    (\<forall>fid f t. hget (s_files s) fid = Some f \<and> fe_token f = Some t \<longrightarrow>
       (if fid \<in> set (accepted_ids fids (s_files s))
        then \<not> is_terminal (fe_state f) \<longrightarrow>
          snd (start_file gen i t (fst (accept gen i fids a))) =
            Inr \<lparr>ft_file_id = fid, ft_info = fe_info f, ft_session = i\<rparr>
        else snd (start_file gen i t (fst (accept gen i fids a))) = Inl InvalidState))"
proof -
  let ?acc = "accepted_ids fids (s_files s)" and ?a = "fst (accept gen i fids a)"
  obtain s' where acc: "accept_session fids s = (s', [(i, Accepted (accepted_tokens ?acc (s_files s)))])"
    and s': "s_files s' = skip_others ?acc (s_files s)" "s_state s' = Transfering"
      "s_direction s' = s_direction s" "s_token_index s' = s_token_index s" "s_id s' = s_id s"
    using accept_session_spec [OF assms(6)] by metis
  have inv: "session_inv gen a" by (rule reachable_session_inv [OF assms(1,2)])
  then have wf: "hwf (s_files s)" and id: "s_id s = i"
    using assms(3) by (auto simp: session_inv_def sess_wf_def)
  let ?b = "broadcast_index (deliver [(i, Accepted (accepted_tokens ?acc (s_files s)))] (put_session i s' a))"
  have b: "accept gen i fids a = (check_finish i ?b, Inr ())"
    using assms(3-5) acc by (simp add: accept_def on_accept_def)
  have get: "hget (a_sessions ?a) i =
      Some (if all_done s' then emit (StateChanged Finished) (s'\<lparr>s_state := Finished\<rparr>) else s')"
    using check_finish_get [of ?b i s'] by (simp add: b)
  have start: "snd (start_file gen i t ?a) = (if fid \<in> set ?acc \<and> \<not> is_terminal (fe_state f)
      then Inr \<lparr>ft_file_id = fid, ft_info = fe_info f, ft_session = i\<rparr> else Inl InvalidState)"
    if f: "hget (s_files s) fid = Some f" "fe_token f = Some t" for fid f t
  proof -
    let ?f = "if fid \<in> set ?acc then f else f\<lparr>fe_state := FSkip\<rparr>"
    have f': "hget (s_files s') fid = Some ?f"
      using f s' by (simp add: skip_others_def)
    have "hget (s_token_index s') t = Some fid"
      using reachable_token [OF assms(1-4) f] s' by simp
    then show ?thesis
      using start_session_file_chosen [of s' t fid ?f] not_all_done [OF f'] f' s' id assms(4)
        start_file_get [OF get] start_session_file_ended
      by (cases "all_done s'") (auto split: if_splits)
  qed
  show ?thesis
    by (intro exI [of _ "accepted_tokens ?acc (s_files s)"] conjI)
      (use start in \<open>auto simp: b accepted_tokens_get [OF wf]\<close>)
qed

text \<open>Finishing a file of an active receive session by its token marks that file finished; the
  session becomes \<open>Finished\<close> exactly when every other file is finished or skipped, and no other
  session changes.\<close>

theorem finish_file_spec:
  assumes "inj gen" and "session_reachable gen mx a" and "hget (a_sessions a) i = Some s"
    and "s_direction s = Receive" and "is_active s" and "hget (s_token_index s) t = Some fid"
  shows "\<exists>s'. hget (a_sessions (finish_file gen i t FFinish a)) i = Some s' \<and>
    s_files s' = hmodify fid (\<lambda>f. f\<lparr>fe_state := FFinish\<rparr>) (s_files s) \<and>
    s_state s' =
      (if list_all (\<lambda>(k, f). k = fid \<or> fe_state f = FFinish \<or> fe_state f = FSkip) (s_files s)
       then Finished else s_state s) \<and>
    (\<forall>j. j \<noteq> i \<longrightarrow>
       hget (a_sessions (finish_file gen i t FFinish a)) j = hget (a_sessions a) j)"
proof -
  have "sess_wf gen (a_uuid a) i s"
    using reachable_session_inv [OF assms(1,2)] assms(3) by (simp add: session_inv_def)
  then have wf: "hwf (s_files s)" and tok: "tokens_ok gen (a_uuid a) (s_files s) (s_token_index s)"
    using assms(4) by (simp_all add: sess_wf_def)
  obtain f where f: "hget (s_files s) fid = Some f"
    using tok assms(6) unfolding tokens_ok_def by blast
  let ?s = "mark_file fid FFinish s"
  let ?b = "put_session i ?s a"
  have fin: "finish_file gen i t FFinish a = broadcast_index (check_finish i ?b)"
    using assms(3,5,6) by (simp add: finish_file_def on_finish_file_def set_file_state_def)
  show ?thesis
    unfolding fin using check_finish_get [of ?b i ?s] check_finish_other [of _ i ?b]
      all_done_mark [OF assms(5) wf f]
    by simp
qed

text \<open>A file reported as failed fails its active session with the same message: the session's
  cancellation flag is raised, the failure is the event a listener then reads, and no other
  session changes.\<close>

theorem file_failure_fails_session:
  assumes "hget (a_sessions a) i = Some s" and "is_active s"
  shows "\<exists>s'. hget (a_sessions (report_file_state gen i fid (FFail msg) a)) i = Some s' \<and>
    s_state s' = Failed \<and> s_cancelled s' \<and> s_decision s' = None \<and>
    s_files s' = hmodify fid (\<lambda>f. f\<lparr>fe_state := FFail msg\<rparr>) (s_files s) \<and>
    watch_borrow (s_events s') = EvFailed msg \<and>
    (\<forall>j. j \<noteq> i \<longrightarrow>
       hget (a_sessions (report_file_state gen i fid (FFail msg) a)) j = hget (a_sessions a) j)"
proof -
  let ?s = "mark_file fid (FFail msg) s"
  let ?b = "put_session i ?s a"
  have res: "report_file_state gen i fid (FFail msg) a = fail_session i msg ?b"
    using assms by (simp add: report_file_state_def set_file_state_def)
  show ?thesis
    unfolding res
    using fail_session_get [of ?b i ?s msg] fail_session_other [of _ i msg ?b] assms
    by (simp add: failed_session_def watch_borrow_def)
qed

text \<open>The failure event does not stay the last one: a progress report that arrives after the
  session failed replaces it on the session's event channel, so that a listener which reads only
  the latest value misses the reason.\<close>

theorem late_progress_hides_failure:
  assumes "hget (a_sessions a) i = Some s" and "is_active s"
  shows "map_option watch_borrow (session_events gen i (fail gen i reason a)) =
      Some (EvFailed reason) \<and>
    map_option watch_borrow
      (session_events gen i (report_progress gen i fid n (fail gen i reason a))) =
      Some (Progress fid n)"
  using fail_session_get [OF assms, of reason]
  by (simp add: session_events_def report_progress_def fail_def on_report_progress_def
      failed_session_def watch_borrow_def)

text \<open>A session that is no longer active refuses every decision and every upload, and
  cancelling it, failing it or reporting on it leaves the whole session table as it was.\<close>

theorem ended_session_refuses:
  assumes "hget (a_sessions a) i = Some s" and "\<not> is_active s"
  shows "snd (accept gen i fids a) = Inl InvalidState \<and>
    snd (decline gen i a) = Inl InvalidState \<and>
    snd (start_file gen i t a) = Inl InvalidState \<and>
    a_sessions (fst (accept gen i fids a)) = a_sessions a \<and>
    a_sessions (fst (decline gen i a)) = a_sessions a \<and>
    a_sessions (fst (start_file gen i t a)) = a_sessions a \<and>
    a_sessions (cancel gen i a) = a_sessions a \<and>
    a_sessions (fail gen i reason a) = a_sessions a \<and>
    a_sessions (report_state gen i st a) = a_sessions a \<and>
    a_sessions (report_file_state gen i fid fst' a) = a_sessions a \<and>
    a_sessions (finish_file gen i t fst' a) = a_sessions a"
proof -
  have ended: "s_state s \<noteq> Pending" "s_state s \<noteq> Transfering"
    using assms(2) by (auto simp: is_active_def)
  have "\<not> all_done s" using assms(2) by (simp add: all_done_def)
  then have chk: "check_finish i (broadcast_index a) = broadcast_index a"
    using assms(1) by (simp add: check_finish_def)
  have "a_sessions (finish_file gen i t fst' a) = a_sessions a"
    using assms
    by (auto simp: finish_file_def on_finish_file_def set_file_state_def split: option.split)
  then show ?thesis
    using assms ended chk
    by (simp add: handle_defs on_accept_def on_decline_def on_start_file_def cancel_session_def
        fail_session_def set_state_def set_file_state_def start_session_file_def)
qed

section \<open>Witnesses\<close>

definition sample_msgs :: "SessionMessage list" where
  "sample_msgs = [CreateRecvSession sample_device sample_files]"

definition sample_state :: Actor where
  "sample_state = fst (run_session_actor sample_gen (new_actor 2) sample_msgs)"

definition sample_accepted :: Actor where
  "sample_accepted = fst (accept sample_gen ''u'' (Some [''a'']) sample_state)"

definition sample_failed :: Actor where
  "sample_failed = fail sample_gen ''u'' ''disk full'' sample_state"

lemma sample_reachable: "session_reachable sample_gen 2 sample_state"
  unfolding sample_state_def run_session_actor_def
  by (rule reachable_run [OF reachable.start]) (simp add: sample_msgs_def)

lemma sample_reachable_accepted: "session_reachable sample_gen 2 sample_accepted"
  using reachable.handle [OF sample_reachable, of "Accept ''u'' (Some [''a''])"]
  by (simp add: sample_accepted_def accept_def)

lemma sample_reachable_failed: "session_reachable sample_gen 2 sample_failed"
  using reachable.handle [OF sample_reachable, of "FailMsg ''u'' ''disk full''"]
  by (simp add: sample_failed_def fail_def)

lemma sample_session:
  "map_option (\<lambda>s. (s_direction s, s_state s, s_decision s, map fst (s_files s), s_token_index s))
     (hget (a_sessions sample_state) ''u'') =
   Some (Receive, Pending, Some ''u'', [''a'', ''b''], [(''uu'', ''a''), (''uuu'', ''b'')])"
  by code_simp

lemma sample_session_obtain:
  obtains s where "hget (a_sessions sample_state) ''u'' = Some s" and "s_direction s = Receive"
    and "s_state s = Pending" and "s_decision s = Some ''u''" and "is_active s"
    and "map fst (s_files s) = [''a'', ''b'']"
    and "s_token_index s = [(''uu'', ''a''), (''uuu'', ''b'')]"
  using sample_session by (auto simp: is_active_def)

lemma sample_accepted_session:
  "map_option (\<lambda>s. (s_direction s, s_state s, map (map_prod id fe_state) (s_files s), s_token_index s))
     (hget (a_sessions sample_accepted) ''u'') =
   Some (Receive, Transfering, [(''a'', FPending), (''b'', FSkip)], [(''uu'', ''a''), (''uuu'', ''b'')])"
  by code_simp

lemma sample_failed_session:
  "map_option s_state (hget (a_sessions sample_failed) ''u'') = Some Failed"
  by code_simp

theorem recv_sessions_capped_witness: "active_recv sample_state = 1 \<and> active_recv sample_state \<le> 2"
proof -
  have "active_recv sample_state = 1" by code_simp
  then show ?thesis using recv_sessions_capped [OF sample_reachable] by simp
qed

theorem session_well_formed_witness:
  "\<exists>s. hget (a_sessions sample_failed) ''u'' = Some s \<and> s_id s = ''u'' \<and> distinct (map fst (s_files s))"
proof -
  obtain s where "hget (a_sessions sample_failed) ''u'' = Some s" using sample_failed_session by auto
  then show ?thesis using session_well_formed [OF inj_sample_gen sample_reachable_failed] by blast
qed

theorem terminal_sessions_absorbing_witness:
  "\<exists>s'. hget (a_sessions (fst (run_session_actor sample_gen sample_failed
      [Accept ''u'' None, ReportState ''u'' Transfering]))) ''u'' = Some s' \<and> s_state s' = Failed"
proof -
  obtain s where "hget (a_sessions sample_failed) ''u'' = Some s" "s_state s = Failed"
    using sample_failed_session by auto
  then show ?thesis
    using terminal_sessions_absorbing [OF inj_sample_gen sample_reachable_failed, of "''u''" s
        "[Accept ''u'' None, ReportState ''u'' Transfering]"]
    by (auto simp: is_active_def)
qed

theorem index_complete_witness:
  "length (watch_borrow (session_index sample_gen sample_state)) = 1 \<and>
   set (watch_borrow (session_index sample_gen sample_state)) =
     {sm. \<exists>i. get_session sample_gen i sample_state = Some sm}"
proof -
  have "length (watch_borrow (session_index sample_gen sample_state)) = 1" by code_simp
  then show ?thesis using index_complete [OF inj_sample_gen sample_reachable] by simp
qed

theorem decisions_delivered_once_witness:
  "distinct (map fst (a_delivered sample_accepted)) \<and> length (a_delivered sample_accepted) = 1"
proof -
  have "length (a_delivered sample_accepted) = 1" by code_simp
  then show ?thesis
    using decisions_delivered_once [OF inj_sample_gen sample_reachable_accepted] by blast
qed

theorem left_pending_answered_witness: "\<exists>d. (''u'', d) \<in> set (a_delivered sample_accepted)"
proof -
  have "reachable (handle_message sample_gen) well_used (new_actor 2) sample_state"
    unfolding sample_state_def run_session_actor_def
    by (rule reachable_run [OF reachable.start]) (simp add: sample_msgs_def)
  from reachable.handle [OF this, of "Accept ''u'' (Some [''a''])"]
  have r: "reachable (handle_message sample_gen) well_used (new_actor 2) sample_accepted"
    by (simp add: sample_accepted_def accept_def)
  obtain s where "hget (a_sessions sample_accepted) ''u'' = Some s" "s_direction s = Receive"
    "s_state s = Transfering"
    using sample_accepted_session by auto
  then show ?thesis using left_pending_answered [OF inj_sample_gen r] by simp
qed

theorem create_recv_session_spec_witness:
  "\<exists>a' i. create_recv_session sample_gen sample_device sample_files sample_state = (a', Inr i) \<and>
     hget (a_sessions sample_state) i = None \<and> active_recv a' = 2"
proof -
  have "active_recv sample_state = 1" by code_simp
  then show ?thesis
    using create_recv_session_spec [OF inj_sample_gen sample_reachable hwf_sample_files,
        of sample_device]
    by auto
qed

theorem accept_then_start_witness:
  "\<exists>tokens. a_delivered sample_accepted = [(''u'', Accepted tokens)] \<and>
     hget tokens ''b'' = None \<and> hget tokens ''a'' = Some ''uu''"
proof -
  obtain s where s: "hget (a_sessions sample_state) ''u'' = Some s" "s_direction s = Receive"
    "s_state s = Pending" "s_decision s = Some ''u''" "map fst (s_files s) = [''a'', ''b'']"
    by (rule sample_session_obtain)
  have "a_delivered sample_state = []" by code_simp
  moreover have "accepted_ids (Some [''a'']) (s_files s) = [''a'']"
    using s(5) by (simp add: accepted_ids_def map_of_eq_None_iff flip: set_map)
  moreover have "Option.bind (hget (s_files s) ''a'') fe_token = Some ''uu''"
  proof -
    have "Option.bind (hget (a_sessions sample_state) ''u'')
        (\<lambda>s. Option.bind (hget (s_files s) ''a'') fe_token) = Some ''uu''"
      by code_simp
    then show ?thesis using s(1) by simp
  qed
  ultimately show ?thesis
    using accept_then_start [OF inj_sample_gen sample_reachable s(1-4), of "Some [''a'']"]
    by (auto simp: sample_accepted_def)
qed

theorem finish_file_spec_witness:
  "\<exists>s'. hget (a_sessions (finish_file sample_gen ''u'' ''uu'' FFinish sample_accepted)) ''u'' =
     Some s' \<and> s_state s' = Finished"
proof -
  obtain s where s: "hget (a_sessions sample_accepted) ''u'' = Some s" "s_direction s = Receive"
    "s_state s = Transfering" "map (map_prod id fe_state) (s_files s) = [(''a'', FPending), (''b'', FSkip)]"
    "s_token_index s = [(''uu'', ''a''), (''uuu'', ''b'')]"
    using sample_accepted_session by auto
  have "list_all (\<lambda>(k, st). k = ''a'' \<or> st = FFinish \<or> st = FSkip)
      (map (map_prod id fe_state) (s_files s))"
    by (simp add: s(4))
  then have "list_all (\<lambda>(k, f). k = ''a'' \<or> fe_state f = FFinish \<or> fe_state f = FSkip) (s_files s)"
    by (auto simp: list_all_iff)
  moreover have "is_active s" using s(3) by (simp add: is_active_def)
  ultimately show ?thesis
    using finish_file_spec [OF inj_sample_gen sample_reachable_accepted s(1,2), of "''uu''" "''a''"] s(5)
    by auto
qed

theorem file_failure_fails_session_witness:
  "\<exists>s'. hget (a_sessions (report_file_state sample_gen ''u'' ''a'' (FFail ''io'') sample_state)) ''u'' =
     Some s' \<and> s_state s' = Failed \<and> watch_borrow (s_events s') = EvFailed ''io''"
proof -
  obtain s where "hget (a_sessions sample_state) ''u'' = Some s" "is_active s"
    by (rule sample_session_obtain)
  from file_failure_fails_session [OF this, of sample_gen "''a''" "''io''"]
  show ?thesis by blast
qed

theorem late_progress_hides_failure_witness:
  "map_option watch_borrow (session_events sample_gen ''u''
     (report_progress sample_gen ''u'' ''a'' 3 (fail sample_gen ''u'' ''io'' sample_state))) =
   Some (Progress ''a'' 3)"
proof -
  obtain s where "hget (a_sessions sample_state) ''u'' = Some s" "is_active s"
    by (rule sample_session_obtain)
  from late_progress_hides_failure [OF this] show ?thesis by simp
qed

theorem ended_session_refuses_witness:
  "snd (accept sample_gen ''u'' None sample_failed) = Inl InvalidState \<and>
   snd (start_file sample_gen ''u'' ''uu'' sample_failed) = Inl InvalidState"
proof -
  obtain s where "hget (a_sessions sample_failed) ''u'' = Some s" "s_state s = Failed"
    using sample_failed_session by auto
  then show ?thesis
    using ended_session_refuses [of sample_failed "''u''" s sample_gen None "''uu''"]
    by (simp add: is_active_def)
qed

end
