(* ===== verification/Stun.thy ===== *)
theory Stun
  imports Prelude Std_Str
begin

text \<open>
  The STUN codec, \<open>src/rust/core/src/relay/stun.rs\<close>: message types, attributes, the builder
  \<open>Message\<close>, the decoder \<open>Incoming\<close> and the XOR address encoding.  \<open>usize\<close> values are naturals;
  \<open>as u16\<close> is \<open>word_of_nat\<close>, which truncates.  The decoder indexes only below the checked
  lengths, so no index is out of range.

  MD5, HMAC-SHA1 and base64 are other crates: the functions that call them take them as
  arguments (\<open>md5\<close>, \<open>hmac\<close>, \<open>b64\<close>).
\<close>

unbundle bit_operations_syntax

section \<open>Big-endian integers\<close>

definition be16 :: "u16 \<Rightarrow> bytes" where
  "be16 w = [ucast (drop_bit 8 w), ucast w]"

definition from_be16 :: "u8 \<Rightarrow> u8 \<Rightarrow> u16" where
  "from_be16 a b = push_bit 8 (ucast a) OR ucast b"

definition be32 :: "u32 \<Rightarrow> bytes" where
  "be32 w = [ucast (drop_bit 24 w), ucast (drop_bit 16 w), ucast (drop_bit 8 w), ucast w]"

definition from_be32 :: "u8 \<Rightarrow> u8 \<Rightarrow> u8 \<Rightarrow> u8 \<Rightarrow> u32" where
  "from_be32 a b c d =
     push_bit 24 (ucast a) OR push_bit 16 (ucast b) OR push_bit 8 (ucast c) OR ucast d"

lemma from_be16_be16: "from_be16 (ucast (drop_bit 8 w)) (ucast w) = w"
  unfolding from_be16_def by (rule bit_word_eqI) (auto simp: bit_simps not_le)

lemma from_be32_be32:
  "from_be32 (ucast (drop_bit 24 w)) (ucast (drop_bit 16 w)) (ucast (drop_bit 8 w)) (ucast w) = w"
proof (rule bit_word_eqI)
  fix n assume "n < LENGTH(32)"
  then consider "n < 8" | "8 \<le> n" "n < 16" | "16 \<le> n" "n < 24" | "24 \<le> n" "n < 32"
    by fastforce
  then show "bit (from_be32 (ucast (drop_bit 24 w)) (ucast (drop_bit 16 w)) (ucast (drop_bit 8 w))
      (ucast w)) n = bit w n"
    by cases (auto simp: from_be32_def bit_simps)
qed

lemma length_be [simp]: "length (be16 w) = 2" "length (be32 v) = 4"
  by (simp_all add: be16_def be32_def)

section \<open>Message types\<close>

definition MAGIC_COOKIE :: u32 where
  "MAGIC_COOKIE = 0x2112A442"

definition HEADER_LEN :: nat where
  "HEADER_LEN = 20"

datatype Method = Binding | Allocate | Refresh | CreatePermission | Connect | ConnectionBind

fun method_code :: "Method \<Rightarrow> u16" where
  "method_code Binding = 0x001"
| "method_code Allocate = 0x003"
| "method_code Refresh = 0x004"
| "method_code CreatePermission = 0x008"
| "method_code Connect = 0x00A"
| "method_code ConnectionBind = 0x00B"

datatype MessageClass = Request | Indication | SuccessResponse | ErrorResponse

datatype Attr =
    Username | MessageIntegrity | ErrorCode | Lifetime | XorPeerAddress | Realm | Nonce
  | XorRelayedAddress | XorMappedAddress | RequestedTransport | DontFragment | ConnectionId

fun attr_code :: "Attr \<Rightarrow> u16" where
  "attr_code Username = 0x0006"
| "attr_code MessageIntegrity = 0x0008"
| "attr_code ErrorCode = 0x0009"
| "attr_code Lifetime = 0x000D"
| "attr_code XorPeerAddress = 0x0012"
| "attr_code Realm = 0x0014"
| "attr_code Nonce = 0x0015"
| "attr_code XorRelayedAddress = 0x0016"
| "attr_code XorMappedAddress = 0x0020"
| "attr_code RequestedTransport = 0x0019"
| "attr_code DontFragment = 0x001A"
| "attr_code ConnectionId = 0x002A"

fun class_bits :: "MessageClass \<Rightarrow> u16" where
  "class_bits Request = 0"
| "class_bits Indication = 1"
| "class_bits SuccessResponse = 2"
| "class_bits ErrorResponse = 3"

definition encode_type :: "Method \<Rightarrow> MessageClass \<Rightarrow> u16" where
  "encode_type mt cl =
     (let m = method_code mt; c = class_bits cl in
      push_bit 2 (m AND 0x0F80) OR push_bit 1 (m AND 0x0070) OR (m AND 0x000F) OR
      push_bit 7 (c AND 2) OR push_bit 4 (c AND 1))"

definition decode_class :: "u16 \<Rightarrow> MessageClass" where
  "decode_class t =
     (let hi = drop_bit 8 t AND 1; lo = drop_bit 4 t AND 1 in
      if hi = 0 \<and> lo = 0 then Request
      else if hi = 0 \<and> lo = 1 then Indication
      else if hi = 1 \<and> lo = 0 then SuccessResponse
      else ErrorResponse)"

definition decode_method :: "u16 \<Rightarrow> Method option" where
  "decode_method t =
     (let m = drop_bit 2 (t AND 0x3E00) OR drop_bit 1 (t AND 0x00E0) OR (t AND 0x000F) in
      if m = 0x001 then Some Binding
      else if m = 0x003 then Some Allocate
      else if m = 0x004 then Some Refresh
      else if m = 0x008 then Some CreatePermission
      else if m = 0x00A then Some Connect
      else if m = 0x00B then Some ConnectionBind
      else None)"

definition decode_type :: "u16 \<Rightarrow> string + Method \<times> MessageClass" where
  "decode_type t =
     (case decode_method t of
        None \<Rightarrow> Inl ''method not used by this client''
      | Some m \<Rightarrow> Inr (m, decode_class t))"

lemma decode_encode_type [simp]: "decode_type (encode_type m c) = Inr (m, c)"
  by (induction m; induction c; code_simp)

lemma attr_code_inject [simp]: "attr_code a = attr_code b \<longleftrightarrow> a = b"
  by (cases a; cases b; simp)

section \<open>Building messages\<close>

record Message =
  st_method :: Method
  st_class :: MessageClass
  st_tid :: bytes
  st_attrs :: "(u16 \<times> bytes) list"

definition message_new :: "Method \<Rightarrow> MessageClass \<Rightarrow> bytes \<Rightarrow> Message" where
  "message_new m c tid = \<lparr>st_method = m, st_class = c, st_tid = tid, st_attrs = []\<rparr>"

definition push_attr :: "Attr \<Rightarrow> bytes \<Rightarrow> Message \<Rightarrow> Message" where
  "push_attr a v m = m\<lparr>st_attrs := st_attrs m @ [(attr_code a, v)]\<rparr>"

definition push_username :: "string \<Rightarrow> Message \<Rightarrow> Message" where
  "push_username v = push_attr Username (as_bytes v)"

definition push_realm :: "string \<Rightarrow> Message \<Rightarrow> Message" where
  "push_realm v = push_attr Realm (as_bytes v)"

definition push_nonce :: "string \<Rightarrow> Message \<Rightarrow> Message" where
  "push_nonce v = push_attr Nonce (as_bytes v)"

definition push_requested_transport :: "u8 \<Rightarrow> Message \<Rightarrow> Message" where
  "push_requested_transport p = push_attr RequestedTransport [p, 0, 0, 0]"

definition push_lifetime :: "u32 \<Rightarrow> Message \<Rightarrow> Message" where
  "push_lifetime s = push_attr Lifetime (be32 s)"

definition push_connection_id :: "u32 \<Rightarrow> Message \<Rightarrow> Message" where
  "push_connection_id i = push_attr ConnectionId (be32 i)"

text \<open>Socket addresses: the octets of the address and the port.\<close>

datatype SocketAddr = V4 bytes u16 | V6 bytes u16

definition xor_address_bytes :: "SocketAddr \<Rightarrow> bytes \<Rightarrow> bytes" where
  "xor_address_bytes addr tid =
     (let cookie = be32 MAGIC_COOKIE in
      case addr of
        V4 octets port \<Rightarrow>
          [0x00, 0x01] @ be16 (port XOR ucast (drop_bit 16 MAGIC_COOKIE)) @ map2 (XOR) octets cookie
      | V6 octets port \<Rightarrow>
          [0x00, 0x02] @ be16 (port XOR ucast (drop_bit 16 MAGIC_COOKIE)) @
          map2 (XOR) octets (cookie @ tid))"

definition push_xor_address :: "Attr \<Rightarrow> SocketAddr \<Rightarrow> Message \<Rightarrow> Message" where
  "push_xor_address a addr m = push_attr a (xor_address_bytes addr (st_tid m)) m"

definition padding :: "nat \<Rightarrow> nat" where
  "padding n = (4 - n mod 4) mod 4"

definition write_attr :: "u16 \<Rightarrow> bytes \<Rightarrow> bytes" where
  "write_attr t v = be16 t @ be16 (word_of_nat (length v)) @ v @ replicate (padding (length v)) 0"

definition attrs_body_len :: "Message \<Rightarrow> nat" where
  "attrs_body_len m = sum_list (map (\<lambda>(t, v). 4 + length v + padding (length v)) (st_attrs m))"

definition write_header :: "Message \<Rightarrow> nat \<Rightarrow> bytes" where
  "write_header m body_len =
     be16 (encode_type (st_method m) (st_class m)) @ be16 (word_of_nat body_len) @
     be32 MAGIC_COOKIE @ st_tid m"

definition write_attrs :: "(u16 \<times> bytes) list \<Rightarrow> bytes" where
  "write_attrs attrs = concat (map (\<lambda>(t, v). write_attr t v) attrs)"

definition encode :: "(bytes \<Rightarrow> bytes \<Rightarrow> bytes) \<Rightarrow> bytes option \<Rightarrow> Message \<Rightarrow> bytes" where
  "encode hmac key m =
     (case key of
        Some k \<Rightarrow>
          let buf = write_header m (attrs_body_len m + 24) @ write_attrs (st_attrs m) in
          buf @ write_attr (attr_code MessageIntegrity) (hmac k buf)
      | None \<Rightarrow> write_header m (attrs_body_len m) @ write_attrs (st_attrs m))"

section \<open>Decoding messages\<close>

record Incoming =
  in_method :: Method
  in_class :: MessageClass
  in_tid :: bytes
  in_attrs :: "(u16 \<times> bytes) list"

text \<open>The attribute loop; \<open>off\<close> and \<open>e\<close> are the offsets of the source.\<close>

function decode_attrs :: "bytes \<Rightarrow> nat \<Rightarrow> nat \<Rightarrow> (u16 \<times> bytes) list \<Rightarrow> string + (u16 \<times> bytes) list" where
  "decode_attrs buf off e acc =
     (if off + 4 \<le> e then
        let t = from_be16 (buf ! off) (buf ! (off + 1));
            l = unat (from_be16 (buf ! (off + 2)) (buf ! (off + 3))) in
        if e < off + 4 + l then Inl ''truncated attribute''
        else decode_attrs buf (off + 4 + l + padding l) e
               (acc @ [(t, take l (drop (off + 4) buf))])
      else Inr acc)"
  by pat_completeness auto
termination
  by (relation "measure (\<lambda>(buf, off, e, acc). e - off)") auto

declare decode_attrs.simps [simp del]

definition incoming_decode :: "bytes \<Rightarrow> string + Incoming" where
  "incoming_decode buf =
     (if length buf < HEADER_LEN then Inl ''short STUN header''
      else
        let msg_type = from_be16 (buf ! 0) (buf ! 1);
            body_len = unat (from_be16 (buf ! 2) (buf ! 3)) in
        if length buf < HEADER_LEN + body_len then Inl ''truncated STUN body''
        else if from_be32 (buf ! 4) (buf ! 5) (buf ! 6) (buf ! 7) \<noteq> MAGIC_COOKIE
          then Inl ''bad magic cookie''
        else case decode_type msg_type of
          Inl e \<Rightarrow> Inl e
        | Inr (method, cl) \<Rightarrow>
            (case decode_attrs buf HEADER_LEN (HEADER_LEN + body_len) [] of
               Inl e \<Rightarrow> Inl e
             | Inr attrs \<Rightarrow>
                 Inr \<lparr>in_method = method, in_class = cl, in_tid = take 12 (drop 8 buf),
                      in_attrs = attrs\<rparr>))"

definition find_attr :: "Incoming \<Rightarrow> Attr \<Rightarrow> bytes option" where
  "find_attr m a = map_option snd (find (\<lambda>(t, v). t = attr_code a) (in_attrs m))"

definition error_code :: "Incoming \<Rightarrow> (u8 \<times> u16 \<times> string) option" where
  "error_code m =
     (case find_attr m ErrorCode of
        None \<Rightarrow> None
      | Some v \<Rightarrow>
          if length v < 4 then None
          else Some (v ! 2 AND 0x07, ucast (v ! 3), from_utf8_lossy (drop 4 v)))"

definition string_attr :: "Incoming \<Rightarrow> Attr \<Rightarrow> string option" where
  "string_attr m a = map_option from_utf8_lossy (find_attr m a)"

definition decode_xor_address :: "bytes \<Rightarrow> SocketAddr option" where
  "decode_xor_address v =
     (if length v \<noteq> 8 then None
      else if v ! 1 \<noteq> 0x01 then None
      else
        let port = from_be16 (v ! 2) (v ! 3) XOR ucast (drop_bit 16 MAGIC_COOKIE);
            cookie = be32 MAGIC_COOKIE in
        Some (V4 [v ! 4 XOR cookie ! 0, v ! 5 XOR cookie ! 1, v ! 6 XOR cookie ! 2,
                  v ! 7 XOR cookie ! 3] port))"

definition xor_address :: "Incoming \<Rightarrow> Attr \<Rightarrow> SocketAddr option" where
  "xor_address m a = Option.bind (find_attr m a) decode_xor_address"

definition u32_attr :: "Attr \<Rightarrow> Incoming \<Rightarrow> u32 option" where
  "u32_attr a m =
     (case find_attr m a of
        None \<Rightarrow> None
      | Some v \<Rightarrow>
          if length v = 4 then Some (from_be32 (v ! 0) (v ! 1) (v ! 2) (v ! 3)) else None)"

definition connection_id :: "Incoming \<Rightarrow> u32 option" where
  "connection_id = u32_attr ConnectionId"

definition lifetime :: "Incoming \<Rightarrow> u32 option" where
  "lifetime = u32_attr Lifetime"

definition long_term_key :: "(bytes \<Rightarrow> bytes) \<Rightarrow> string \<Rightarrow> string \<Rightarrow> string \<Rightarrow> bytes" where
  "long_term_key md5 username realm password =
     md5 (as_bytes (username @ '':'' @ realm @ '':'' @ password))"

end
