(* ===== verification/Stun_Codec.thy ===== *)
theory Stun_Codec
  imports Stun
begin

text \<open>
  Round trips of the STUN codec: integers, message types, XOR addresses and whole messages, with
  and without MESSAGE-INTEGRITY.  The locale \<open>codec\<close> of the prelude is interpreted for each
  encoder of the module.
\<close>

section \<open>Integers, types and addresses\<close>

fun from_be16_list :: "bytes \<Rightarrow> u16 option" where
  "from_be16_list [a, b] = Some (from_be16 a b)"
| "from_be16_list _ = None"

fun from_be32_list :: "bytes \<Rightarrow> u32 option" where
  "from_be32_list [a, b, c, d] = Some (from_be32 a b c d)"
| "from_be32_list _ = None"

interpretation be16_codec: codec be16 from_be16_list "\<lambda>_. True"
  by unfold_locales (simp add: be16_def from_be16_be16)

interpretation be32_codec: codec be32 from_be32_list "\<lambda>_. True"
  by unfold_locales (simp add: be32_def from_be32_be32)

interpretation type_codec: codec "\<lambda>(m, c). encode_type m c"
    "\<lambda>t. case decode_type t of Inl e \<Rightarrow> None | Inr x \<Rightarrow> Some x" "\<lambda>_. True"
  by unfold_locales (simp add: case_prod_beta)

text \<open>A 16-bit length field holds every length below \<open>2 ^ 16\<close>.\<close>

lemma unat_length16: "n < 65536 \<Longrightarrow> unat (word_of_nat n :: u16) = n"
  by (simp add: unat_of_nat take_bit_nat_eq_self)

fun v4_addr :: "SocketAddr \<Rightarrow> bool" where
  "v4_addr (V4 octets port) = (length octets = 4)"
| "v4_addr (V6 octets port) = False"

lemma list4E: "length xs = 4 \<Longrightarrow> \<exists>a b c d. xs = [a, b, c, d]"
  by (auto simp: length_Suc_conv numeral_eq_Suc)

lemma xor_cancel: "(a XOR b) XOR b = (a :: 'a :: len word)"
  by (simp add: xor.assoc)

lemma decode_xor_address_v4: "v4_addr a \<Longrightarrow> decode_xor_address (xor_address_bytes a tid) = Some a"
proof (cases a)
  case (V4 octets port)
  assume "v4_addr a"
  then obtain w x y z where o: "octets = [w, x, y, z]" using V4 list4E by fastforce
  let ?p = "port XOR ucast (drop_bit 16 MAGIC_COOKIE)"
  obtain h l where p: "be16 ?p = [h, l]" and "from_be16 h l = ?p"
    using from_be16_be16 [of ?p] unfolding be16_def by blast
  then show ?thesis
    using V4 o
    by (simp add: decode_xor_address_def xor_address_bytes_def Let_def be32_def xor_cancel)
qed simp

lemma decode_xor_address_v6: "decode_xor_address (xor_address_bytes (V6 octets port) tid) = None"
  by (simp add: decode_xor_address_def xor_address_bytes_def Let_def)

interpretation address_codec: codec "\<lambda>a. xor_address_bytes a tid" decode_xor_address v4_addr for tid
  by unfold_locales (rule decode_xor_address_v4)

section \<open>Attributes\<close>

lemma length_write_attr [simp]:
  "length (write_attr t v) = 4 + length v + padding (length v)"
  by (simp add: write_attr_def)

lemma write_attrs_simps [simp]:
  "write_attrs [] = []" "write_attrs ((t, v) # as) = write_attr t v @ write_attrs as"
  "write_attrs (as @ bs) = write_attrs as @ write_attrs bs"
  by (simp_all add: write_attrs_def)

lemma attrs_body_len_eq: "attrs_body_len m = length (write_attrs (st_attrs m))"
proof -
  have "sum_list (map (\<lambda>(t, v). 4 + length v + padding (length v)) as) = length (write_attrs as)" for as
    by (induction as) auto
  then show ?thesis by (simp add: attrs_body_len_def)
qed

definition attrs_fit :: "(u16 \<times> bytes) list \<Rightarrow> bool" where
  "attrs_fit as \<longleftrightarrow> list_all (\<lambda>(t, v). length v < 65536) as"

lemma decode_attrs_write:
  assumes "attrs_fit as"
  shows "decode_attrs (pre @ write_attrs as @ post) (length pre)
    (length pre + length (write_attrs as)) acc = Inr (acc @ as)"
  using assms
proof (induction as arbitrary: pre acc)
  case Nil
  then show ?case by (simp add: decode_attrs.simps)
next
  case (Cons x as)
  obtain t v where x: "x = (t, v)" by fastforce
  have l: "unat (word_of_nat (length v) :: u16) = length v"
    using Cons.prems x by (simp add: attrs_fit_def unat_length16)
  let ?rest = "write_attrs as @ post"
  let ?buf = "pre @ write_attr t v @ ?rest"
  have hdr: "from_be16 (?buf ! length pre) (?buf ! (length pre + 1)) = t"
    "from_be16 (?buf ! (length pre + 2)) (?buf ! (length pre + 3)) = word_of_nat (length v)"
    by (simp_all add: nth_append write_attr_def be16_def from_be16_be16 nth_Cons')
  have val: "take (length v) (drop (length pre + 4) ?buf) = v"
    by (simp add: write_attr_def be16_def)
  have "decode_attrs ((pre @ write_attr t v) @ ?rest) (length (pre @ write_attr t v))
      (length (pre @ write_attr t v) + length (write_attrs as)) (acc @ [x]) = Inr ((acc @ [x]) @ as)"
    using Cons.prems by (intro Cons.IH) (simp add: attrs_fit_def)
  then show ?case
    using l hdr val x by (subst decode_attrs.simps) (simp add: Let_def add.assoc)
qed

section \<open>Messages\<close>

text \<open>What the wire format can carry.\<close>

definition wire_ok :: "nat \<Rightarrow> Message \<Rightarrow> bool" where
  "wire_ok extra m \<longleftrightarrow>
     length (st_tid m) = 12 \<and> attrs_fit (st_attrs m) \<and>
     length (write_attrs (st_attrs m)) + extra < 65536"

definition incoming_of :: "Message \<Rightarrow> Incoming" where
  "incoming_of m =
     \<lparr>in_method = st_method m, in_class = st_class m, in_tid = st_tid m, in_attrs = st_attrs m\<rparr>"

lemma decode_frame:
  assumes "length tid = 12" and "attrs_fit as" and "length (write_attrs as) < 65536"
  shows "incoming_decode (be16 (encode_type m c) @ be16 (word_of_nat (length (write_attrs as))) @
      be32 MAGIC_COOKIE @ tid @ write_attrs as) =
    Inr \<lparr>in_method = m, in_class = c, in_tid = tid, in_attrs = as\<rparr>"
proof -
  let ?len = "word_of_nat (length (write_attrs as)) :: u16"
  let ?pre = "be16 (encode_type m c) @ be16 ?len @ be32 MAGIC_COOKIE @ tid"
  let ?buf = "?pre @ write_attrs as"
  have len: "unat ?len = length (write_attrs as)" using assms(3) by (rule unat_length16)
  have pre: "length ?pre = 20" using assms(1) by simp
  have hdr: "from_be16 (?buf ! 0) (?buf ! 1) = encode_type m c"
    "from_be16 (?buf ! 2) (?buf ! 3) = ?len"
    "from_be32 (?buf ! 4) (?buf ! 5) (?buf ! 6) (?buf ! 7) = MAGIC_COOKIE"
    by (simp_all add: be16_def be32_def from_be16_be16 from_be32_be32 nth_Cons')
  have tid: "take 12 (drop 8 ?buf) = tid"
    using assms(1) by (simp add: be16_def be32_def)
  have attrs: "decode_attrs ?buf 20 (20 + length (write_attrs as)) [] = Inr as"
    using decode_attrs_write [OF assms(2), of ?pre "[]" "[]"] pre by simp
  have "incoming_decode ?buf = Inr \<lparr>in_method = m, in_class = c, in_tid = tid, in_attrs = as\<rparr>"
    unfolding incoming_decode_def Let_def hdr tid len HEADER_LEN_def
    using attrs pre by simp
  then show ?thesis by simp
qed

definition signed_prefix :: "Message \<Rightarrow> bytes" where
  "signed_prefix m = write_header m (attrs_body_len m + 24) @ write_attrs (st_attrs m)"

lemma write_attrs_snoc: "write_attrs (as @ [(t, v)]) = write_attrs as @ write_attr t v"
  by simp

lemma padding_20 [simp]: "padding 20 = 0"
  by (simp add: padding_def)

lemma encode_signed_eq:
  assumes "length (hmac k (signed_prefix m)) = 20"
  shows "encode hmac (Some k) m =
    be16 (encode_type (st_method m) (st_class m)) @
    be16 (word_of_nat (length (write_attrs (st_attrs m @ [(attr_code MessageIntegrity, hmac k (signed_prefix m))])))) @
    be32 MAGIC_COOKIE @ st_tid m @
    write_attrs (st_attrs m @ [(attr_code MessageIntegrity, hmac k (signed_prefix m))])"
  using assms
  by (simp add: encode_def Let_def signed_prefix_def write_header_def attrs_body_len_eq)

lemma decode_signed:
  assumes "wire_ok 24 m" and mac: "length (hmac k (signed_prefix m)) = 20"
  shows "incoming_decode (encode hmac (Some k) m) =
    Inr (incoming_of (m\<lparr>st_attrs := st_attrs m @ [(attr_code MessageIntegrity, hmac k (signed_prefix m))]\<rparr>))"
proof -
  let ?as = "st_attrs m @ [(attr_code MessageIntegrity, hmac k (signed_prefix m))]"
  have "length (st_tid m) = 12" "attrs_fit ?as" "length (write_attrs ?as) < 65536"
    using assms by (simp_all add: wire_ok_def attrs_fit_def)
  from decode_frame [OF this] show ?thesis
    unfolding encode_signed_eq [of hmac k m, OF mac] by (simp add: incoming_of_def)
qed

lemma decode_unsigned:
  "wire_ok 0 m \<Longrightarrow> incoming_decode (encode hmac None m) = Inr (incoming_of m)"
  using decode_frame [of "st_tid m" "st_attrs m" "st_method m" "st_class m"]
  by (simp add: encode_def write_header_def attrs_body_len_eq wire_ok_def incoming_of_def)

interpretation message_codec: codec "encode hmac None"
    "\<lambda>b. case incoming_decode b of Inl e \<Rightarrow> None | Inr i \<Rightarrow>
       Some \<lparr>st_method = in_method i, st_class = in_class i, st_tid = in_tid i, st_attrs = in_attrs i\<rparr>"
    "wire_ok 0" for hmac
  by unfold_locales (simp add: decode_unsigned incoming_of_def)

text \<open>Every decoded attribute is a slice of the message body.\<close>

lemma decode_attrs_slices:
  assumes "decode_attrs buf off e acc = Inr as" and "e \<le> length buf" and "(t, v) \<in> set as"
  shows "(t, v) \<in> set acc \<or> (\<exists>o' \<ge> off. o' + 4 + length v \<le> e \<and> v = take (length v) (drop (o' + 4) buf))"
  using assms
proof (induction buf off e acc rule: decode_attrs.induct)
  case (1 buf off e acc)
  let ?l = "unat (from_be16 (buf ! (off + 2)) (buf ! (off + 3)))"
  show ?case
  proof (cases "off + 4 \<le> e")
    case True
    then have fit: "off + 4 + ?l \<le> e"
      using "1.prems"(1) by (subst (asm) decode_attrs.simps) (auto simp: Let_def split: if_splits)
    let ?v = "take ?l (drop (off + 4) buf)"
    let ?acc = "acc @ [(from_be16 (buf ! off) (buf ! (off + 1)), ?v)]"
    have "decode_attrs buf (off + 4 + ?l + padding ?l) e ?acc = Inr as"
      using "1.prems"(1) True fit by (subst (asm) decode_attrs.simps) (simp add: Let_def)
    with "1.IH" [OF True refl refl] fit "1.prems"(2,3)
    have "(t, v) \<in> set ?acc \<or>
        (\<exists>o' \<ge> off + 4 + ?l + padding ?l. o' + 4 + length v \<le> e \<and> v = take (length v) (drop (o' + 4) buf))"
      by simp
    moreover have "length ?v = ?l" using fit "1.prems"(2) by simp
    ultimately show ?thesis
      using fit by (force intro: exI [of _ off])
  next
    case False
    then show ?thesis
      using "1.prems" by (subst (asm) decode_attrs.simps) simp
  qed
qed

lemma incoming_decode_Inr:
  assumes "incoming_decode buf = Inr i"
  shows "20 + unat (from_be16 (buf ! 2) (buf ! 3)) \<le> length buf"
    and "from_be32 (buf ! 4) (buf ! 5) (buf ! 6) (buf ! 7) = MAGIC_COOKIE"
    and "decode_type (from_be16 (buf ! 0) (buf ! 1)) = Inr (in_method i, in_class i)"
    and "in_tid i = take 12 (drop 8 buf)"
    and "decode_attrs buf 20 (20 + unat (from_be16 (buf ! 2) (buf ! 3))) [] = Inr (in_attrs i)"
  using assms unfolding incoming_decode_def Let_def HEADER_LEN_def
  by (auto split: if_splits sum.splits)

lemma find_first_snoc:
  "k \<notin> fst ` set xs \<Longrightarrow> find (\<lambda>(t, v). t = k) (xs @ [(k, v)]) = Some (k, v)"
  by (induction xs) auto

section \<open>Properties\<close>

text \<open>C13. Decoding inverts encoding: a message that fits the 16-bit length fields is read back with
  its method, class, transaction id and attributes; a signed one carries in addition, as its last
  attribute, the MAC of the bytes before it.\<close>

theorem stun_roundtrip:
  assumes "\<And>k d. length (hmac k d) = 20" and "wire_ok (if key = None then 0 else 24) m"
  shows "incoming_decode (encode hmac key m) = Inr (incoming_of (m\<lparr>st_attrs := st_attrs m @
    (case key of None \<Rightarrow> []
     | Some k \<Rightarrow> [(attr_code MessageIntegrity, hmac k (signed_prefix m))])\<rparr>))"
  using decode_unsigned [of m hmac] decode_signed [of m hmac] assms by (cases key) auto


text \<open>The message type codec is a bijection onto its image: all 24 method and class pairs are
  recovered, and two different pairs never share a code.\<close>

theorem stun_type_roundtrip:
  "decode_type (encode_type m c) = Inr (m, c) \<and>
   (encode_type m c = encode_type m' c' \<longleftrightarrow> m = m' \<and> c = c')"
  using type_codec.enc_inject [of "(m, c)" "(m', c')"] by simp

text \<open>An IPv4 address pushed as a XOR address attribute is read back by the receiver; an IPv6
  address is encoded by the sender but read by no receiver of this implementation.\<close>

theorem xor_address_roundtrip:
  assumes "length octets = 4" and "attr_code a \<notin> fst ` set (st_attrs m)"
  shows "xor_address (incoming_of (push_xor_address a (V4 octets port) m)) a = Some (V4 octets port) \<and>
    xor_address (incoming_of (push_xor_address a (V6 octets6 port) m)) a = None"
proof -
  have "find (\<lambda>(t, v). t = attr_code a) (st_attrs m @ [(attr_code a, v)]) = Some (attr_code a, v)" for v
    using find_first_snoc [of "attr_code a" "st_attrs m" v] assms(2) by simp
  then show ?thesis
    using assms(1) decode_xor_address_v4 [of "V4 octets port"] decode_xor_address_v6
    by (simp add: xor_address_def find_attr_def push_xor_address_def push_attr_def incoming_of_def)
qed

section \<open>Witnesses\<close>

definition sample_hmac :: "bytes \<Rightarrow> bytes \<Rightarrow> bytes" where
  "sample_hmac k d = replicate 19 0 @ [fold (XOR) (k @ d) 0]"

lemma length_sample_hmac [simp]: "length (sample_hmac k d) = 20"
  by (simp add: sample_hmac_def)

definition sample_request :: Message where
  "sample_request = push_username ''bob'' (message_new Allocate Request (replicate 12 7))"

theorem stun_roundtrip_witness:
  "incoming_decode (encode sample_hmac (Some [1]) sample_request) =
     Inr (incoming_of (sample_request\<lparr>st_attrs := st_attrs sample_request @
       [(attr_code MessageIntegrity, sample_hmac [1] (signed_prefix sample_request))]\<rparr>))"
proof -
  have "wire_ok (if Some [1 :: u8] = None then 0 else 24) sample_request"
    by (simp add: wire_ok_def sample_request_def push_username_def push_attr_def message_new_def
        attrs_fit_def padding_def as_bytes_def)
  from stun_roundtrip [OF length_sample_hmac this] show ?thesis by simp
qed


theorem xor_address_roundtrip_witness:
  "xor_address (incoming_of (push_xor_address XorPeerAddress (V4 [10, 0, 0, 2] 53317)
     (message_new Connect Request (replicate 12 7)))) XorPeerAddress = Some (V4 [10, 0, 0, 2] 53317)"
  using xor_address_roundtrip [of "[10, 0, 0, 2]" XorPeerAddress
      "message_new Connect Request (replicate 12 7)" 53317]
  by (simp add: message_new_def)

end
