(* ===== verification/Turn_Server.thy ===== *)
theory Turn_Server
  imports Stun
begin

text \<open>
  The TURN-over-TCP server, \<open>src/rust/core/src/relay/turn_server.rs\<close>: authentication, the request
  handlers, the per-connection loop, and the bridge that pairs two outgoing connections.

  \<^item> \<open>Crypto\<close> carries the functions of other crates: HMAC-SHA1, MD5 and base64.
  \<^item> Time is a natural number of seconds.  What a handler reads from outside (the clock,
    \<open>rand_nonce()\<close>, whether \<open>TcpStream::connect\<close> succeeds) is part of an \<open>Input\<close>.
  \<^item> A parked peer socket is named by the address it is connected to.
  \<^item> A value \<open>None\<close> of a handler is a panic.  The flag \<open>chk\<close> says whether the build checks integer
    overflow (debug builds do; release builds wrap).
  \<^item> \<open>Session\<close> of this file is \<open>TurnSession\<close> here.
\<close>

unbundle bit_operations_syntax

section \<open>State\<close>

record Crypto =
  cr_hmac :: "bytes \<Rightarrow> bytes \<Rightarrow> bytes"
  cr_md5 :: "bytes \<Rightarrow> bytes"
  cr_b64 :: "bytes \<Rightarrow> string"

record TurnServerConfig =
  tc_listen :: SocketAddr
  tc_external :: bytes
  tc_realm :: string
  tc_secret :: string
  tc_lifetime :: nat

definition turn_default :: TurnServerConfig where
  "turn_default =
     \<lparr>tc_listen = V4 [0, 0, 0, 0] 3478, tc_external = [127, 0, 0, 1], tc_realm = ''localsend'',
      tc_secret = [], tc_lifetime = 600\<rparr>"

type_synonym pending = "(u32, SocketAddr) hashmap option"

record Allocation =
  al_permissions :: "bytes list"
  al_connections :: "u32 list"
  al_deadline :: nat

record TurnSession =
  ts_nonce :: string
  ts_username :: "string option"
  ts_allocations :: "(u16, Allocation) hashmap"

section \<open>Authentication\<close>

definition rest_password :: "Crypto \<Rightarrow> string \<Rightarrow> string \<Rightarrow> string" where
  "rest_password cp secret username = cr_b64 cp (cr_hmac cp (as_bytes secret) (as_bytes username))"

definition constant_time_eq :: "bytes \<Rightarrow> bytes \<Rightarrow> bool" where
  "constant_time_eq a b =
     (if length a \<noteq> length b then False
      else fold (\<lambda>(x, y) acc. acc OR (x XOR y)) (zip a b) 0 = 0)"

text \<open>The input of the MAC: the bytes before the integrity attribute with the length patched.\<close>

definition mac_input :: "bytes \<Rightarrow> nat \<Rightarrow> bytes" where
  "mac_input raw off = take 2 raw @ be16 (word_of_nat (off + 4)) @ drop 4 (take off raw)"

definition verify_integrity ::
  "Crypto \<Rightarrow> bool \<Rightarrow> bytes \<Rightarrow> Incoming \<Rightarrow> string \<Rightarrow> string \<Rightarrow> bool option" where
  "verify_integrity cp chk raw msg realm secret =
     (case string_attr msg Username of
        None \<Rightarrow> Some False
      | Some username \<Rightarrow>
          if find_attr msg MessageIntegrity = None then Some False
          else if length raw < 24 then Some False
          else
            let mac_off = length raw - 24 in
            if take 2 (drop mac_off raw) \<noteq> be16 (attr_code MessageIntegrity) then Some False
            else
              let body_len = unat (from_be16 (raw ! 2) (raw ! 3)); covered = 20 + body_len in
              if chk \<and> covered \<noteq> length raw \<and>
                 (body_len < 24 \<or> length raw < 20 + (body_len - 24)) then None
              else if chk \<and> mac_off < 20 then None
              else if mac_off < 4 then None
              else
                let password = rest_password cp secret username;
                    key = long_term_key (cr_md5 cp) username realm password in
                Some (constant_time_eq (cr_hmac cp key (mac_input raw mac_off))
                        (drop (mac_off + 4) raw)))"

section \<open>Request handlers\<close>

definition error_resp :: "Crypto \<Rightarrow> Incoming \<Rightarrow> nat \<Rightarrow> string \<Rightarrow> bytes" where
  "error_resp cp req code reason =
     encode (cr_hmac cp) None
       (push_attr ErrorCode
          ([0, 0, word_of_nat (code div 100), word_of_nat (code mod 100)] @ as_bytes reason)
          (message_new (in_method req) ErrorResponse (in_tid req)))"

definition requested_lifetime :: "Incoming \<Rightarrow> TurnServerConfig \<Rightarrow> nat" where
  "requested_lifetime msg cfg =
     (case lifetime msg of
        Some s \<Rightarrow> if 0 < s then unat s else tc_lifetime cfg
      | None \<Rightarrow> tc_lifetime cfg)"

definition relayed_port :: "u64 \<Rightarrow> u16" where
  "relayed_port rnd = 49152 + ucast (rnd mod 16384)"

text \<open>What one loop iteration reads from outside.\<close>

record Input =
  ip_retain_at :: nat
  ip_now :: nat
  ip_rnd :: u64
  ip_dial :: bool
  ip_raw :: bytes

definition challenge_resp :: "Crypto \<Rightarrow> TurnServerConfig \<Rightarrow> TurnSession \<Rightarrow> Incoming \<Rightarrow> bytes" where
  "challenge_resp cp cfg s msg =
     encode (cr_hmac cp) None
       (push_attr Nonce (as_bytes (ts_nonce s))
         (push_attr Realm (as_bytes (tc_realm cfg))
           (push_attr ErrorCode [0, 0, 4, 1]
             (message_new Allocate ErrorResponse (in_tid msg)))))"

definition allocate ::
  "Crypto \<Rightarrow> bool \<Rightarrow> TurnServerConfig \<Rightarrow> Input \<Rightarrow> Incoming \<Rightarrow> TurnSession \<Rightarrow>
     (TurnSession \<times> bytes) option" where
  "allocate cp chk cfg inp msg s =
     (let tcp = (case find_attr msg RequestedTransport of
                   Some (b # _) \<Rightarrow> b = 6 | _ \<Rightarrow> False) in
      if \<not> tcp then Some (s, error_resp cp msg 442 ''TCP only'')
      else case verify_integrity cp chk (ip_raw inp) msg (tc_realm cfg) (tc_secret cfg) of
        None \<Rightarrow> None
      | Some False \<Rightarrow> Some (s, challenge_resp cp cfg s msg)
      | Some True \<Rightarrow>
          let username = (case string_attr msg Username of None \<Rightarrow> [] | Some u \<Rightarrow> u) in
          if ts_username s \<noteq> None \<and> ts_username s \<noteq> Some username
          then Some (s, error_resp cp msg 441 ''wrong credentials'')
          else
            let port = relayed_port (ip_rnd inp);
                lt = requested_lifetime msg cfg;
                al = \<lparr>al_permissions = [], al_connections = [], al_deadline = ip_now inp + lt\<rparr>;
                s' = s\<lparr>ts_username := Some username,
                       ts_allocations := hput port al (ts_allocations s)\<rparr>
            in Some (s', encode (cr_hmac cp) None
                 (push_lifetime (word_of_nat lt)
                   (push_xor_address XorRelayedAddress (V4 (tc_external cfg) port)
                     (message_new Allocate SuccessResponse (in_tid msg))))))"

definition refresh ::
  "Crypto \<Rightarrow> bool \<Rightarrow> TurnServerConfig \<Rightarrow> Input \<Rightarrow> Incoming \<Rightarrow> TurnSession \<Rightarrow>
     (TurnSession \<times> bytes) option" where
  "refresh cp chk cfg inp msg s =
     (case verify_integrity cp chk (ip_raw inp) msg (tc_realm cfg) (tc_secret cfg) of
        None \<Rightarrow> None
      | Some False \<Rightarrow> Some (s, error_resp cp msg 401 ''unauthorized'')
      | Some True \<Rightarrow>
          let lt = requested_lifetime msg cfg in
          Some (s\<lparr>ts_allocations := hmap (\<lambda>_ a. a\<lparr>al_deadline := ip_now inp + lt\<rparr>) (ts_allocations s)\<rparr>,
                encode (cr_hmac cp) None
                  (push_lifetime (word_of_nat lt)
                    (message_new Refresh SuccessResponse (in_tid msg)))))"

definition permission ::
  "Crypto \<Rightarrow> bool \<Rightarrow> TurnServerConfig \<Rightarrow> Input \<Rightarrow> Incoming \<Rightarrow> TurnSession \<Rightarrow>
     (TurnSession \<times> bytes) option" where
  "permission cp chk cfg inp msg s =
     (case verify_integrity cp chk (ip_raw inp) msg (tc_realm cfg) (tc_secret cfg) of
        None \<Rightarrow> None
      | Some False \<Rightarrow> Some (s, error_resp cp msg 401 ''unauthorized'')
      | Some True \<Rightarrow>
          (case xor_address msg XorPeerAddress of
             None \<Rightarrow> Some (s, error_resp cp msg 400 ''missing xor-peer-address'')
           | Some (V6 _ _) \<Rightarrow> Some (s, error_resp cp msg 443 ''peer family mismatch'')
           | Some (V4 ip _) \<Rightarrow>
               Some (s\<lparr>ts_allocations :=
                        hmap (\<lambda>_ a. a\<lparr>al_permissions := (if ip \<in> set (al_permissions a)
                                         then al_permissions a else al_permissions a @ [ip]),
                                       al_deadline := ip_now inp + tc_lifetime cfg\<rparr>)
                          (ts_allocations s)\<rparr>,
                     encode (cr_hmac cp) None
                       (message_new CreatePermission SuccessResponse (in_tid msg)))))"

definition connect ::
  "Crypto \<Rightarrow> TurnServerConfig \<Rightarrow> Input \<Rightarrow> Incoming \<Rightarrow> TurnSession \<Rightarrow> pending \<Rightarrow>
     TurnSession \<times> pending \<times> bytes" where
  "connect cp cfg inp msg s pend =
     (case xor_address msg XorPeerAddress of
        None \<Rightarrow> (s, pend, error_resp cp msg 400 ''missing xor-peer-address'')
      | Some (V6 _ _) \<Rightarrow> (s, pend, error_resp cp msg 443 ''peer family mismatch'')
      | Some (V4 ip port) \<Rightarrow>
          if \<not> list_ex (\<lambda>a. ip \<in> set (al_permissions a)) (hvals (ts_allocations s))
          then (s, pend, error_resp cp msg 403 ''no permission for peer'')
          else if ip_dial inp then
            let conn_id = ucast (drop_bit 32 (ip_rnd inp)) :: u32 in
            (s\<lparr>ts_allocations :=
                 hmap (\<lambda>_ a. a\<lparr>al_connections := al_connections a @ [conn_id],
                               al_deadline := ip_now inp + tc_lifetime cfg\<rparr>) (ts_allocations s)\<rparr>,
             map_option (hput conn_id (V4 ip port)) pend,
             encode (cr_hmac cp) None
               (push_connection_id conn_id (message_new Connect SuccessResponse (in_tid msg))))
          else (s, pend, error_resp cp msg 447 ''connection failed''))"

text \<open>Ends of a connection: closed by the client, an error, a splice with a peer socket, a panic.\<close>

datatype ClientEnd = Closed | EndErr string | Spliced SocketAddr | Panicked

definition connection_bind ::
  "Crypto \<Rightarrow> Incoming \<Rightarrow> pending \<Rightarrow> bytes \<times> pending \<times> ClientEnd" where
  "connection_bind cp msg pend =
     (case connection_id msg of
        None \<Rightarrow> (error_resp cp msg 400 ''missing connection id'', pend, Closed)
      | Some c \<Rightarrow>
          (case Option.bind pend (\<lambda>m. hget m c) of
             None \<Rightarrow> (error_resp cp msg 437 ''allocation mismatch'', pend, Closed)
           | Some peer \<Rightarrow>
               (encode (cr_hmac cp) None (message_new ConnectionBind SuccessResponse (in_tid msg)),
                map_option (hdel c) pend, Spliced peer)))"

section \<open>The connection loop\<close>

definition binding_resp :: "Crypto \<Rightarrow> SocketAddr \<Rightarrow> Incoming \<Rightarrow> bytes" where
  "binding_resp cp peer msg =
     encode (cr_hmac cp) None
       (push_xor_address XorPeerAddress peer
         (push_xor_address XorMappedAddress peer
           (message_new Binding SuccessResponse (in_tid msg))))"

text \<open>Drop expired allocations, as every iteration does first.\<close>

definition retain_live :: "nat \<Rightarrow> TurnSession \<Rightarrow> TurnSession" where
  "retain_live now s = s\<lparr>ts_allocations := hretain (\<lambda>_ a. now < al_deadline a) (ts_allocations s)\<rparr>"

datatype StepResult =
    Continue TurnSession pending "bytes option"
  | Ended ClientEnd pending "bytes option"

definition lift_resp :: "pending \<Rightarrow> (TurnSession \<times> bytes) option \<Rightarrow> StepResult" where
  "lift_resp pend r =
     (case r of None \<Rightarrow> Ended Panicked pend None | Some (s, b) \<Rightarrow> Continue s pend (Some b))"

definition turn_step ::
  "Crypto \<Rightarrow> bool \<Rightarrow> TurnServerConfig \<Rightarrow> SocketAddr \<Rightarrow> Input \<Rightarrow> TurnSession \<Rightarrow> pending \<Rightarrow> StepResult" where
  "turn_step cp chk cfg peer inp s0 pend =
     (let s = retain_live (ip_retain_at inp) s0 in
      if ip_raw inp = [] then Ended Closed pend None
      else case incoming_decode (ip_raw inp) of
        Inl e \<Rightarrow> Ended (EndErr e) pend None
      | Inr msg \<Rightarrow>
          if in_class msg \<noteq> Request then Continue s pend None
          else case in_method msg of
            ConnectionBind \<Rightarrow>
              (case connection_bind cp msg pend of (b, pend', e) \<Rightarrow> Ended e pend' (Some b))
          | Binding \<Rightarrow> Continue s pend (Some (binding_resp cp peer msg))
          | Allocate \<Rightarrow> lift_resp pend (allocate cp chk cfg inp msg s)
          | Refresh \<Rightarrow> lift_resp pend (refresh cp chk cfg inp msg s)
          | CreatePermission \<Rightarrow> lift_resp pend (permission cp chk cfg inp msg s)
          | Connect \<Rightarrow> (case connect cp cfg inp msg s pend of (s', pend', b) \<Rightarrow>
                          Continue s' pend' (Some b)))"

definition new_turn_session :: "string \<Rightarrow> TurnSession" where
  "new_turn_session nonce = \<lparr>ts_nonce = nonce, ts_username = None, ts_allocations = []\<rparr>"

text \<open>The whole loop over what the connection reads; the end is \<open>None\<close> while it still waits.\<close>

fun turn_loop ::
  "Crypto \<Rightarrow> bool \<Rightarrow> TurnServerConfig \<Rightarrow> SocketAddr \<Rightarrow> Input list \<Rightarrow> TurnSession \<Rightarrow> pending \<Rightarrow>
     TurnSession \<times> pending \<times> ClientEnd option" where
  "turn_loop cp chk cfg peer [] s pend = (s, pend, None)"
| "turn_loop cp chk cfg peer (inp # inps) s pend =
     (case turn_step cp chk cfg peer inp s pend of
        Continue s' pend' b \<Rightarrow> turn_loop cp chk cfg peer inps s' pend'
      | Ended e pend' b \<Rightarrow> (s, pend', Some e))"

datatype Demux = ToHttp | ToBridge | ToTurn

text \<open>\<open>handle_client\<close> peeks at up to seven bytes to choose the protocol.\<close>

definition demux :: "bytes \<Rightarrow> Demux" where
  "demux peek =
     (let p = take 7 peek in
      if 4 \<le> length p \<and> (take 4 p = as_bytes ''GET '' \<or> take 4 p = as_bytes ''POST'') then ToHttp
      else if 7 \<le> length p \<and> p = as_bytes ''BRIDGE '' then ToBridge
      else ToTurn)"

end
