(* ===== verification/Turn_Auth.thy ===== *)
theory Turn_Auth
  imports Turn_Server Stun_Codec
begin

text \<open>
  Authentication of the TURN server: what \<open>verify_integrity\<close> accepts, that it accepts what a holder
  of the secret signs, that a connection without an authenticated request opens nothing, and the
  inputs on which it panics.
\<close>

section \<open>Comparing MACs\<close>

lemma find_append_Some: "find P xs = Some x \<Longrightarrow> find P (xs @ ys) = Some x"
  by (induction xs) auto

lemma fold_or_zero:
  "fold (\<lambda>(x, y) acc. acc OR (x XOR y)) xs (acc :: u8) = 0 \<longleftrightarrow> acc = 0 \<and> (\<forall>(x, y) \<in> set xs. x = y)"
proof (induction xs arbitrary: acc)
  case (Cons p xs)
  obtain x y where p: "p = (x, y)" by fastforce
  have "acc OR (x XOR y) = 0 \<longleftrightarrow> acc = 0 \<and> x = y"
    using xor_cancel [of x y] by (auto simp: or_eq_0_iff)
  then show ?case using Cons p by auto
qed simp

lemma constant_time_eq_iff [simp]: "constant_time_eq a b \<longleftrightarrow> a = b"
proof -
  have "(\<forall>(x, y) \<in> set (zip a b). x = y) \<longleftrightarrow> a = b" if "length a = length b"
    using that by (induction a b rule: list_induct2) auto
  then show ?thesis by (auto simp: constant_time_eq_def fold_or_zero)
qed

section \<open>What is accepted\<close>

definition integrity_key :: "Crypto \<Rightarrow> string \<Rightarrow> string \<Rightarrow> string \<Rightarrow> bytes" where
  "integrity_key cp realm secret u = long_term_key (cr_md5 cp) u realm (rest_password cp secret u)"

lemma verify_integrity_sound:
  assumes "verify_integrity cp chk raw msg realm secret = Some True"
  shows "\<exists>u. string_attr msg Username = Some u \<and> 24 \<le> length raw \<and>
    take 2 (drop (length raw - 24) raw) = be16 (attr_code MessageIntegrity) \<and>
    drop (length raw - 20) raw =
      cr_hmac cp (integrity_key cp realm secret u) (mac_input raw (length raw - 24))"
proof -
  have "Suc (Suc (Suc (Suc (length raw - 24)))) = length raw - 20" if "24 \<le> length raw"
    using that by simp
  then show ?thesis
    using assms unfolding verify_integrity_def Let_def integrity_key_def
    by (auto split: option.splits if_splits)
qed

lemma length_signed_prefix: "length (st_tid m) = 12 \<Longrightarrow>
    length (signed_prefix m) = 20 + length (write_attrs (st_attrs m))"
  by (simp add: signed_prefix_def write_header_def)

lemma mac_input_signed:
  assumes "length (st_tid m) = 12"
  shows "mac_input (signed_prefix m @ rest) (length (signed_prefix m)) = signed_prefix m"
proof -
  have "word_of_nat (length (signed_prefix m) + 4) = (word_of_nat (attrs_body_len m + 24) :: u16)"
    using length_signed_prefix [OF assms] by (simp add: attrs_body_len_eq add.commute)
  moreover have "signed_prefix m =
      be16 (encode_type (st_method m) (st_class m)) @ be16 (word_of_nat (attrs_body_len m + 24)) @
      be32 MAGIC_COOKIE @ st_tid m @ write_attrs (st_attrs m)"
    by (simp add: signed_prefix_def write_header_def)
  ultimately show ?thesis by (simp add: mac_input_def add.commute)
qed

lemma verify_integrity_complete:
  assumes hmac: "\<And>k d. length (cr_hmac cp k d) = 20" and wire: "wire_ok 24 m"
    and user: "find (\<lambda>(t, v). t = attr_code Username) (st_attrs m) = Some (attr_code Username, as_bytes u)"
    and utf8: "valid_utf8 (as_bytes u)"
    and raw: "raw = encode (cr_hmac cp) (Some (integrity_key cp realm secret u)) m"
  shows "\<exists>i. incoming_decode raw = Inr i \<and> verify_integrity cp chk raw i realm secret = Some True"
proof -
  let ?mac = "cr_hmac cp (integrity_key cp realm secret u) (signed_prefix m)"
  let ?i = "incoming_of (m\<lparr>st_attrs := st_attrs m @ [(attr_code MessageIntegrity, ?mac)]\<rparr>)"
  have dec: "incoming_decode raw = Inr ?i"
    unfolding raw by (rule decode_signed [OF wire]) (rule hmac)
  have tid: "length (st_tid m) = 12" using wire by (simp add: wire_ok_def)
  have split: "raw = signed_prefix m @ write_attr (attr_code MessageIntegrity) ?mac"
    unfolding raw by (simp add: encode_def signed_prefix_def Let_def)
  have len: "length raw = length (signed_prefix m) + 24" by (simp add: split hmac)
  have name: "string_attr ?i Username = Some u"
    using user from_utf8_lossy_as_bytes [of u] utf8
    by (simp add: string_attr_def find_attr_def incoming_of_def find_append_Some)
  have mac: "find_attr ?i MessageIntegrity \<noteq> None"
    by (auto simp: find_attr_def incoming_of_def find_None_iff)
  have pre: "signed_prefix m =
      be16 (encode_type (st_method m) (st_class m)) @ be16 (word_of_nat (attrs_body_len m + 24)) @
      be32 MAGIC_COOKIE @ st_tid m @ write_attrs (st_attrs m)"
    by (simp add: signed_prefix_def write_header_def)
  have "from_be16 (raw ! 2) (raw ! 3) = word_of_nat (attrs_body_len m + 24)"
    unfolding split pre by (simp add: be16_def from_be16_be16 nth_Cons' del: of_nat_add)
  moreover have "unat (word_of_nat (attrs_body_len m + 24) :: u16) = attrs_body_len m + 24"
    using wire by (intro unat_length16) (simp add: wire_ok_def attrs_body_len_eq)
  ultimately have body: "20 + unat (from_be16 (raw ! 2) (raw ! 3)) = length raw"
    using len length_signed_prefix [OF tid] by (simp add: attrs_body_len_eq)
  have "drop (length raw - 24) raw = write_attr (attr_code MessageIntegrity) ?mac"
    by (simp add: len) (simp add: split)
  then have parts: "take 2 (drop (length raw - 24) raw) = be16 (attr_code MessageIntegrity)"
    "drop (4 + (length raw - 24)) raw = ?mac"
    by (simp_all add: write_attr_def hmac flip: drop_drop)
  have inp: "mac_input raw (length raw - 24) = signed_prefix m"
    using mac_input_signed [OF tid] by (simp add: len) (simp add: split)
  have "verify_integrity cp chk raw ?i realm secret = Some True"
    using name mac body parts inp len length_signed_prefix [OF tid]
    by (simp add: verify_integrity_def Let_def integrity_key_def add.commute)
  then show ?thesis using dec by blast
qed

section \<open>Panics\<close>

lemma decode_attrs_count:
  "decode_attrs buf off e acc = Inr as \<Longrightarrow> 4 * length as \<le> 4 * length acc + (e - off)"
proof (induction buf off e acc rule: decode_attrs.induct)
  case (1 buf off e acc)
  let ?l = "unat (from_be16 (buf ! (off + 2)) (buf ! (off + 3)))"
  let ?acc = "acc @ [(from_be16 (buf ! off) (buf ! (off + 1)), take ?l (drop (off + 4) buf))]"
  show ?case
  proof (cases "off + 4 \<le> e")
    case True
    then have fit: "\<not> e < off + 4 + ?l"
      using "1.prems" by (subst (asm) decode_attrs.simps) (auto simp: Let_def split: if_splits)
    then have "decode_attrs buf (off + 4 + ?l + padding ?l) e ?acc = Inr as"
      using "1.prems" True by (subst (asm) decode_attrs.simps) (simp add: Let_def)
    from "1.IH" [OF True refl refl fit this] True show ?thesis by simp
  next
    case False
    then show ?thesis using "1.prems" by (subst (asm) decode_attrs.simps) simp
  qed
qed

lemma two_attrs_length:
  assumes "incoming_decode raw = Inr msg" and "find_attr msg a \<noteq> None" and "find_attr msg b \<noteq> None"
    and "a \<noteq> b"
  shows "28 \<le> length raw"
proof -
  obtain v w where "(attr_code a, v) \<in> set (in_attrs msg)" "(attr_code b, w) \<in> set (in_attrs msg)"
    using assms(2,3) by (auto simp: find_attr_def find_None_iff)
  moreover have "(attr_code a, v) \<noteq> (attr_code b, w)" using assms(4) by simp
  ultimately have "2 \<le> length (in_attrs msg)"
    by (cases "in_attrs msg"; cases "tl (in_attrs msg)") auto
  then show ?thesis
    using decode_attrs_count [OF incoming_decode_Inr(5) [OF assms(1)]] incoming_decode_Inr(1) [OF assms(1)]
    by simp
qed

text \<open>A 36-byte CreatePermission request without credentials: empty USERNAME and
  MESSAGE-INTEGRITY attributes, and a transaction id that looks like an attribute header.\<close>

definition panic_packet :: bytes where
  "panic_packet =
     be16 (encode_type CreatePermission Request) @ be16 16 @ be32 MAGIC_COOKIE @
     [0, 0, 0, 0] @ be16 (attr_code MessageIntegrity) @ [0, 0, 0, 0, 0, 0] @
     write_attr (attr_code Username) [] @ write_attr (attr_code MessageIntegrity) [] @
     write_attr (attr_code Realm) [0, 0, 0, 0]"

section \<open>What a connection can open\<close>

definition authentic :: "Crypto \<Rightarrow> bool \<Rightarrow> TurnServerConfig \<Rightarrow> Input \<Rightarrow> bool" where
  "authentic cp chk cfg inp \<longleftrightarrow>
     (\<exists>msg. incoming_decode (ip_raw inp) = Inr msg \<and>
        verify_integrity cp chk (ip_raw inp) msg (tc_realm cfg) (tc_secret cfg) = Some True)"

text \<open>An authenticated CreatePermission for the address \<open>ip\<close>.\<close>

definition grants :: "Crypto \<Rightarrow> bool \<Rightarrow> TurnServerConfig \<Rightarrow> Input \<Rightarrow> bytes \<Rightarrow> bool" where
  "grants cp chk cfg inp ip \<longleftrightarrow>
     (\<exists>msg port. incoming_decode (ip_raw inp) = Inr msg \<and> in_method msg = CreatePermission \<and>
        verify_integrity cp chk (ip_raw inp) msg (tc_realm cfg) (tc_secret cfg) = Some True \<and>
        xor_address msg XorPeerAddress = Some (V4 ip port))"

definition perms_within :: "bytes set \<Rightarrow> TurnSession \<Rightarrow> bool" where
  "perms_within G s \<longleftrightarrow> (\<forall>al \<in> set (hvals (ts_allocations s)). set (al_permissions al) \<subseteq> G)"

definition parked_within :: "SocketAddr set \<Rightarrow> bytes set \<Rightarrow> pending \<Rightarrow> bool" where
  "parked_within A G p \<longleftrightarrow>
     (\<forall>m c a. p = Some m \<and> hget m c = Some a \<longrightarrow> a \<in> A \<or> (\<exists>ip port. a = V4 ip port \<and> ip \<in> G))"

lemma perms_within_mono: "perms_within G s \<Longrightarrow> G \<subseteq> H \<Longrightarrow> perms_within H s"
  by (auto simp: perms_within_def)

lemma parked_within_mono: "parked_within A G p \<Longrightarrow> G \<subseteq> H \<Longrightarrow> parked_within A H p"
  unfolding parked_within_def by blast

lemma parked_within_put:
  "parked_within A G p \<Longrightarrow> ip \<in> G \<Longrightarrow> parked_within A G (map_option (hput c (V4 ip port)) p)"
  unfolding parked_within_def by (auto split: if_splits) blast

lemma parked_within_del: "parked_within A G p \<Longrightarrow> parked_within A G (map_option (hdel c) p)"
  unfolding parked_within_def by (auto split: if_splits) blast

lemma perms_within_retain: "perms_within G s \<Longrightarrow> perms_within G (retain_live t s)"
  by (auto simp: perms_within_def retain_live_def hretain_def)

lemma perms_within_hmap:
  "perms_within G s \<Longrightarrow> (\<And>k al. set (al_permissions (f k al)) \<subseteq> set (al_permissions al)) \<Longrightarrow>
     perms_within G (s\<lparr>ts_allocations := hmap f (ts_allocations s)\<rparr>)"
  unfolding perms_within_def hmap_def by fastforce

lemma perms_within_put:
  "perms_within G s \<Longrightarrow> al_permissions al = [] \<Longrightarrow>
     perms_within G (s\<lparr>ts_username := u, ts_allocations := hput port al (ts_allocations s)\<rparr>)"
  using hvals_hput_subset [of port al "ts_allocations s"] by (force simp: perms_within_def)

lemma allocate_perms:
  "allocate cp chk cfg inp msg s = Some (s', b) \<Longrightarrow> perms_within G s \<Longrightarrow> perms_within G s'"
  by (auto simp: allocate_def Let_def perms_within_put split: if_splits option.splits bool.splits
      list.splits)

lemma refresh_perms:
  "refresh cp chk cfg inp msg s = Some (s', b) \<Longrightarrow> perms_within G s \<Longrightarrow> perms_within G s'"
  by (auto simp: refresh_def Let_def intro!: perms_within_hmap split: option.splits bool.splits)

lemma permission_perms:
  assumes "permission cp chk cfg inp msg s = Some (s', b)" and "perms_within G s"
    and "incoming_decode (ip_raw inp) = Inr msg" and "in_method msg = CreatePermission"
  shows "perms_within (G \<union> {ip. grants cp chk cfg inp ip}) s'"
proof (cases "\<exists>ip port. verify_integrity cp chk (ip_raw inp) msg (tc_realm cfg) (tc_secret cfg) = Some True \<and>
    xor_address msg XorPeerAddress = Some (V4 ip port)")
  case True
  then obtain ip port where v: "verify_integrity cp chk (ip_raw inp) msg (tc_realm cfg) (tc_secret cfg) = Some True"
    "xor_address msg XorPeerAddress = Some (V4 ip port)" by blast
  have "grants cp chk cfg inp ip" using v assms(3,4) by (auto simp: grants_def)
  then show ?thesis
    using assms(1,2) v by (fastforce simp: permission_def perms_within_def hmap_def split: if_splits)
next
  case False
  then have "s' = s"
    using assms(1) by (auto simp: permission_def split: option.splits bool.splits SocketAddr.splits)
  then show ?thesis using assms(2) perms_within_mono by blast
qed

lemma connect_perms:
  assumes "connect cp cfg inp msg s pend = (s', pend', b)" and "perms_within G s"
    and "parked_within A G pend"
  shows "perms_within G s' \<and> parked_within A G pend'"
proof -
  have "ip \<in> G" if "list_ex (\<lambda>a. ip \<in> set (al_permissions a)) (hvals (ts_allocations s))" for ip
    using that assms(2) by (auto simp: perms_within_def list_ex_iff)
  moreover have "perms_within G (s\<lparr>ts_allocations := hmap (\<lambda>_ a. a\<lparr>al_connections := al_connections a @ [c],
      al_deadline := d\<rparr>) (ts_allocations s)\<rparr>)" for c d
    using assms(2) by (rule perms_within_hmap) simp
  ultimately show ?thesis
    using assms unfolding connect_def Let_def
    by (auto simp: parked_within_put split: option.splits SocketAddr.splits if_splits)
qed

lemma bind_parked:
  "connection_bind cp msg pend = (b, pend', e) \<Longrightarrow> parked_within A G pend \<Longrightarrow> parked_within A G pend'"
  unfolding connection_bind_def
  by (auto simp: parked_within_del simp del: option.map split: option.splits)

lemma turn_step_within:
  fixes cp :: Crypto and cfg :: TurnServerConfig and inp :: Input
  assumes "perms_within G s" and "parked_within A G pend"
    and H: "H = G \<union> {ip. grants cp chk cfg inp ip}"
  shows "case turn_step cp chk cfg peer inp s pend of
      Continue s' pend' b \<Rightarrow> perms_within H s' \<and> parked_within A H pend'
    | Ended e pend' b \<Rightarrow> parked_within A H pend'"
proof -
  let ?s = "retain_live (ip_retain_at inp) s"
  have sub: "G \<subseteq> H" by (simp add: H)
  note live = perms_within_retain [OF assms(1), of "ip_retain_at inp"]
  note s = live perms_within_mono [OF live sub] parked_within_mono [OF assms(2) sub]
  show ?thesis
  proof (cases "ip_raw inp = []")
    case True
    then show ?thesis using s by (simp add: turn_step_def)
  next
    case False
    show ?thesis
    proof (cases "incoming_decode (ip_raw inp)")
      case (Inl e)
      then show ?thesis using s False by (simp add: turn_step_def)
    next
      case (Inr msg)
      have "perms_within H s'" if "permission cp chk cfg inp msg ?s = Some (s', b)"
        "in_method msg = CreatePermission" for s' b
        using permission_perms [OF that(1) s(1) Inr that(2)] by (simp add: H)
      then show ?thesis
        using s False Inr allocate_perms [of cp chk cfg inp msg ?s] refresh_perms [of cp chk cfg inp msg ?s]
          connect_perms [of cp cfg inp msg ?s pend] bind_parked [of cp msg pend]
        by (cases "in_method msg")
          (auto simp: turn_step_def Let_def lift_resp_def split: option.splits prod.splits)
    qed
  qed
qed

lemma turn_loop_within:
  assumes "perms_within G s" and "parked_within A G pend"
    and "turn_loop cp chk cfg peer inps s pend = (s', pend', e)"
  shows "parked_within A (G \<union> {ip. \<exists>inp \<in> set inps. grants cp chk cfg inp ip}) pend'"
  using assms
proof (induction inps arbitrary: G s pend)
  case Nil
  then show ?case by simp
next
  case (Cons inp inps)
  let ?H = "G \<union> {ip. grants cp chk cfg inp ip}"
  have sub: "?H \<union> {ip. \<exists>inp \<in> set inps. grants cp chk cfg inp ip} \<subseteq>
      G \<union> {ip. \<exists>inp \<in> set (inp # inps). grants cp chk cfg inp ip}"
    by auto
  show ?case
  proof (cases "turn_step cp chk cfg peer inp s pend")
    case (Continue s1 pend1 b)
    then show ?thesis
      using turn_step_within [OF Cons.prems(1,2) refl, of cp chk cfg inp peer] Cons.IH [of ?H s1 pend1]
        Cons.prems(3) parked_within_mono [OF _ sub]
      by simp
  next
    case (Ended e1 pend1 b)
    then show ?thesis
      using turn_step_within [OF Cons.prems(1,2) refl, of cp chk cfg inp peer] Cons.prems(3)
        parked_within_mono [of A ?H] sub
      by auto
  qed
qed

section \<open>Properties\<close>

text \<open>The server accepts what a holder of the secret signs: a request that carries the user name
  and is encoded under the key derived from the secret passes the integrity check.\<close>

theorem signed_request_accepted:
  assumes "\<And>k d. length (cr_hmac cp k d) = 20" and "wire_ok 24 m"
    and "find (\<lambda>(t, v). t = attr_code Username) (st_attrs m) = Some (attr_code Username, as_bytes u)"
    and "valid_utf8 (as_bytes u)"
  shows "\<exists>i. incoming_decode (encode (cr_hmac cp)
        (Some (long_term_key (cr_md5 cp) u realm (rest_password cp secret u))) m) = Inr i \<and>
    verify_integrity cp chk (encode (cr_hmac cp)
        (Some (long_term_key (cr_md5 cp) u realm (rest_password cp secret u))) m) i realm secret = Some True"
  using verify_integrity_complete [OF assms refl] by (simp add: integrity_key_def)


text \<open>C12. A connection opens only peers it was permitted: every peer socket parked at the end of a
  connection was parked before it, or its address was granted by an authenticated
  CreatePermission request of that connection.\<close>

theorem parked_peers_permitted:
  assumes "turn_loop cp chk cfg peer inps (new_turn_session nonce) (Some m) = (s', Some m', e)"
    and "hget m' c = Some a"
  shows "(\<exists>c'. hget m c' = Some a) \<or>
    (\<exists>ip port inp. a = V4 ip port \<and> inp \<in> set inps \<and> authentic cp chk cfg inp \<and> grants cp chk cfg inp ip)"
proof -
  let ?A = "{a. \<exists>c'. hget m c' = Some a}"
  have "perms_within {} (new_turn_session nonce)" "parked_within ?A {} (Some m)"
    by (auto simp: perms_within_def new_turn_session_def parked_within_def)
  from turn_loop_within [OF this assms(1)] assms(2)
  have "a \<in> ?A \<or> (\<exists>ip port. a = V4 ip port \<and> (\<exists>inp \<in> set inps. grants cp chk cfg inp ip))"
    by (auto simp: parked_within_def)
  moreover have "grants cp chk cfg inp ip \<Longrightarrow> authentic cp chk cfg inp" for inp ip
    by (auto simp: grants_def authentic_def)
  ultimately show ?thesis by blast
qed

text \<open>Without overflow checks the integrity check never panics on a message the decoder
  accepted; with them, a 36-byte request without credentials makes it panic.\<close>

theorem verify_integrity_panics:
  assumes "incoming_decode raw = Inr msg"
  shows "verify_integrity cp False raw msg realm secret \<noteq> None \<and>
    (\<exists>msg'. incoming_decode panic_packet = Inr msg' \<and>
       verify_integrity cp True panic_packet msg' realm secret = None)"
proof -
  have "28 \<le> length raw" if "string_attr msg Username \<noteq> None" "find_attr msg MessageIntegrity \<noteq> None"
    using two_attrs_length [OF assms, of Username MessageIntegrity] that by (simp add: string_attr_def)
  then have "verify_integrity cp False raw msg realm secret \<noteq> None"
    by (fastforce simp: verify_integrity_def Let_def split: option.splits)
  moreover have "incoming_decode panic_packet =
      Inr \<lparr>in_method = CreatePermission, in_class = Request,
           in_tid = [0, 0, 0, 0, 0, 8, 0, 0, 0, 0, 0, 0],
           in_attrs = [(6, []), (8, []), (20, [0, 0, 0, 0])]\<rparr>"
    by code_simp
  moreover have "length panic_packet = 36" "take 2 (drop 12 panic_packet) = be16 8"
    "from_be16 (panic_packet ! 2) (panic_packet ! 3) = 16"
    by code_simp+
  ultimately show ?thesis
    by (simp add: verify_integrity_def string_attr_def find_attr_def Let_def)
qed

text \<open>A connection id is good for one bind: a successful ConnectionBind takes the parked peer
  out of the table, so that repeating it is refused with 437.\<close>

theorem bind_consumes_connection:
  assumes "connection_bind cp msg (Some m) = (b, pend', Spliced a)"
  shows "\<exists>c. connection_id msg = Some c \<and> hget m c = Some a \<and> pend' = Some (hdel c m) \<and>
    connection_bind cp msg pend' = (error_resp cp msg 437 ''allocation mismatch'', pend', Closed)"
  using assms by (auto simp: connection_bind_def split: option.splits)

text \<open>Relayed ports stay in the dynamic range: for every random value the advertised port lies
  between 49152 and 65535, so the 16-bit addition never wraps.\<close>

theorem relayed_port_range: "49152 \<le> unat (relayed_port rnd)"
proof -
  have "unat (rnd mod 16384) < 16384" by (simp add: unat_mod_distrib)
  then have "unat (ucast (rnd mod 16384) :: u16) < 16384"
    by (simp add: unsigned_ucast_eq take_bit_nat_eq_self)
  then have "unat (49152 :: u16) + unat (ucast (rnd mod 16384) :: u16) < 2 ^ LENGTH(16)" by simp
  then show ?thesis by (simp add: relayed_port_def unat_word_ariths)
qed

section \<open>Witnesses\<close>

definition sample_crypto :: Crypto where
  "sample_crypto =
     \<lparr>cr_hmac = sample_hmac, cr_md5 = (\<lambda>d. take 16 (d @ replicate 16 0)), cr_b64 = map (\<lambda>_. CHR ''x'')\<rparr>"

lemma length_sample_crypto [simp]: "length (cr_hmac sample_crypto k d) = 20"
  by (simp add: sample_crypto_def)

definition sample_user_key :: bytes where
  "sample_user_key =
     long_term_key (cr_md5 sample_crypto) ''bob'' ''localsend'' (rest_password sample_crypto ''s3'' ''bob'')"

theorem signed_request_accepted_witness:
  "\<exists>i. incoming_decode (encode (cr_hmac sample_crypto) (Some sample_user_key) sample_request) = Inr i \<and>
     verify_integrity sample_crypto True
       (encode (cr_hmac sample_crypto) (Some sample_user_key) sample_request) i ''localsend'' ''s3'' = Some True"
proof -
  have "wire_ok 24 sample_request"
    by (simp add: wire_ok_def sample_request_def push_username_def push_attr_def message_new_def
        attrs_fit_def padding_def as_bytes_def)
  moreover have "find (\<lambda>(t, v). t = attr_code Username) (st_attrs sample_request) =
      Some (attr_code Username, as_bytes ''bob'')"
    by (simp add: sample_request_def push_username_def push_attr_def message_new_def)
  moreover have "valid_utf8 (as_bytes ''bob'')" by code_simp
  ultimately show ?thesis
    using signed_request_accepted [OF length_sample_crypto] by (simp add: sample_user_key_def)
qed

definition sample_signed :: bytes where
  "sample_signed = encode (cr_hmac sample_crypto) (Some sample_user_key) sample_request"


definition sample_config :: TurnServerConfig where
  "sample_config = turn_default\<lparr>tc_secret := ''s3''\<rparr>"

definition sample_input :: "Message \<Rightarrow> Input" where
  "sample_input m =
     \<lparr>ip_retain_at = 1, ip_now = 1, ip_rnd = 0x500000007, ip_dial = True,
      ip_raw = encode sample_hmac (Some sample_user_key) (push_username ''bob'' m)\<rparr>"

definition sample_inputs :: "Input list" where
  "sample_inputs = map sample_input
     [push_requested_transport 6 (message_new Allocate Request (replicate 12 7)),
      push_xor_address XorPeerAddress (V4 [10, 0, 0, 2] 80) (message_new CreatePermission Request (replicate 12 8)),
      push_xor_address XorPeerAddress (V4 [10, 0, 0, 2] 80) (message_new Connect Request (replicate 12 9))]"

theorem parked_peers_permitted_witness:
  "\<exists>inp. inp \<in> set sample_inputs \<and> grants sample_crypto True sample_config inp [10, 0, 0, 2]"
proof -
  have parked: "snd (turn_loop sample_crypto True sample_config (V4 [1, 1, 1, 1] 5) sample_inputs
      (new_turn_session ''n'') (Some [])) = (Some [(5, V4 [10, 0, 0, 2] 80)], None)"
    by code_simp
  obtain s' where "turn_loop sample_crypto True sample_config (V4 [1, 1, 1, 1] 5) sample_inputs
      (new_turn_session ''n'') (Some []) = (s', Some [(5, V4 [10, 0, 0, 2] 80)], None)"
    using parked by (metis prod.collapse)
  from parked_peers_permitted [OF this, of 5 "V4 [10, 0, 0, 2] 80"] show ?thesis by auto
qed

theorem verify_integrity_panics_witness:
  "\<exists>i. incoming_decode sample_signed = Inr i \<and>
     verify_integrity sample_crypto False sample_signed i ''localsend'' ''wrong'' \<noteq> None"
proof -
  have "\<not> (\<exists>e. incoming_decode sample_signed = Inl e)"
  proof -
    have "case incoming_decode sample_signed of Inl e \<Rightarrow> False | Inr i \<Rightarrow> True" by code_simp
    then show ?thesis by (auto split: sum.splits)
  qed
  then obtain i where "incoming_decode sample_signed = Inr i" by (cases "incoming_decode sample_signed") auto
  then show ?thesis using verify_integrity_panics by blast
qed

theorem bind_consumes_connection_witness:
  "\<exists>msg c. connection_id msg = Some c \<and>
     connection_bind sample_crypto msg (Some [(5, V4 [10, 0, 0, 2] 80)]) =
       (encode (cr_hmac sample_crypto) None (message_new ConnectionBind SuccessResponse (in_tid msg)),
        Some [], Spliced (V4 [10, 0, 0, 2] 80))"
proof -
  let ?msg = "incoming_of (push_connection_id 5 (message_new ConnectionBind Request (replicate 12 7)))"
  have "connection_id ?msg = Some 5"
    by code_simp
  then have b: "connection_bind sample_crypto ?msg (Some [(5, V4 [10, 0, 0, 2] 80)]) =
      (encode (cr_hmac sample_crypto) None (message_new ConnectionBind SuccessResponse (in_tid ?msg)),
        Some [], Spliced (V4 [10, 0, 0, 2] 80))"
    by (simp add: connection_bind_def)
  from bind_consumes_connection [OF this] b show ?thesis by blast
qed

end
