(* ===== verification/Turn_Client.thy ===== *)
theory Turn_Client
  imports Stun
begin

text \<open>
  The TURN client, \<open>src/rust/core/src/relay/turn.rs\<close>, and the time-limited credentials of
  \<open>src/rust/core/src/relay/credentials.rs\<close>.

  The network is a parameter: a value of type \<open>'w link\<close> sends one request on a numbered
  connection (0 the control connection, 1 the data connection) and returns what one \<open>read\<close>
  yields, or the fault that stopped it; \<open>'w\<close> is the state of the world behind it.  \<open>tids n\<close> is the
  \<open>n\<close>-th value of \<open>TransactionId::new()\<close>.  Host name resolution and the elapsed time of a probe
  are not modelled.
\<close>

unbundle bit_operations_syntax

section \<open>Credentials\<close>

definition generate_credentials ::
  "(bytes \<Rightarrow> bytes \<Rightarrow> bytes) \<Rightarrow> (bytes \<Rightarrow> string) \<Rightarrow> string \<Rightarrow> u64 \<Rightarrow> string \<Rightarrow> string \<times> string" where
  "generate_credentials hmac b64 secret expiry suffix =
     (let username = (if suffix = [] then show_nat (unat expiry)
                      else show_nat (unat expiry) @ '':'' @ suffix)
      in (username, b64 (hmac (as_bytes secret) (as_bytes username))))"

record RelayEndpoint =
  re_addr :: string
  re_username :: string
  re_password :: string
  re_realm :: string
  re_lifetime_seconds :: u32

text \<open>\<open>now\<close> is \<open>unix_now()\<close>.\<close>

definition endpoint_from_secret ::
  "(bytes \<Rightarrow> bytes \<Rightarrow> bytes) \<Rightarrow> (bytes \<Rightarrow> string) \<Rightarrow> u64 \<Rightarrow> string \<Rightarrow> string \<Rightarrow> u64 \<Rightarrow> string \<Rightarrow>
     string \<Rightarrow> RelayEndpoint" where
  "endpoint_from_secret hmac b64 now addr secret ttl suffix realm =
     (let (username, password) = generate_credentials hmac b64 secret (now + ttl) suffix
      in \<lparr>re_addr = addr, re_username = username, re_password = password, re_realm = realm,
          re_lifetime_seconds = 3600\<rparr>)"

section \<open>Transactions\<close>

datatype RelayError = RelayIo string | Protocol string | RelayServer u16 string | RelayConnect string

fun show_relay_error :: "RelayError \<Rightarrow> string" where
  "show_relay_error (RelayIo e) = ''relay io error: '' @ e"
| "show_relay_error (Protocol m) = ''relay protocol error: '' @ m"
| "show_relay_error (RelayServer code reason) =
     ''relay rejected (code '' @ show_nat (unat code) @ ''): '' @ reason"
| "show_relay_error (RelayConnect e) = ''connect to relay failed: '' @ e"

datatype Fault = WriteTimeout | ReadTimeout | IoFault string

type_synonym 'w link = "'w \<Rightarrow> nat \<Rightarrow> bytes \<Rightarrow> 'w \<times> (Fault + bytes)"

record CredentialState =
  cs_username :: string
  cs_password :: string
  cs_realm :: string
  cs_nonce :: string

definition cred_key :: "(bytes \<Rightarrow> bytes) \<Rightarrow> CredentialState \<Rightarrow> bytes" where
  "cred_key md5 c = long_term_key md5 (cs_username c) (cs_realm c) (cs_password c)"

definition sign :: "CredentialState \<Rightarrow> Message \<Rightarrow> Message" where
  "sign c m = push_nonce (cs_nonce c) (push_realm (cs_realm c) (push_username (cs_username c) m))"

definition transact ::
  "'w link \<Rightarrow> (bytes \<Rightarrow> bytes \<Rightarrow> bytes) \<Rightarrow> nat \<Rightarrow> Message \<Rightarrow> bytes option \<Rightarrow> 'w \<Rightarrow>
     'w \<times> (RelayError + Incoming)" where
  "transact net hmac cn msg key w =
     (case net w cn (encode hmac key msg) of
        (w', Inl WriteTimeout) \<Rightarrow> (w', Inl (Protocol ''relay write timeout''))
      | (w', Inl ReadTimeout) \<Rightarrow> (w', Inl (Protocol ''relay response timeout''))
      | (w', Inl (IoFault e)) \<Rightarrow> (w', Inl (RelayIo e))
      | (w', Inr sent) \<Rightarrow>
          let buf = take 4096 sent in
          if length buf < HEADER_LEN then (w', Inl (Protocol ''short STUN response''))
          else case incoming_decode buf of
            Inl _ \<Rightarrow> (w', Inl (Protocol ''undecodable STUN response from relay''))
          | Inr i \<Rightarrow>
              if in_tid i \<noteq> st_tid msg then (w', Inl (Protocol ''transaction id mismatch''))
              else (w', Inr i))"

definition server_code :: "u8 \<times> u16 \<times> string \<Rightarrow> u16" where
  "server_code e = (case e of (cl, num, _) \<Rightarrow> ucast cl * 100 + num)"

definition expect_success :: "Incoming \<Rightarrow> string \<Rightarrow> RelayError + unit" where
  "expect_success msg step =
     (case in_class msg of
        SuccessResponse \<Rightarrow> Inr ()
      | ErrorResponse \<Rightarrow>
          let e = (case error_code msg of None \<Rightarrow> (4, 0, step @ '' failed'') | Some e \<Rightarrow> e)
          in Inl (RelayServer (server_code e) (snd (snd e)))
      | _ \<Rightarrow> Inl (Protocol ''unexpected response class''))"

text \<open>An Allocate request, as the challenge and the allocation send it.\<close>

definition allocate_request :: "u32 \<Rightarrow> bytes \<Rightarrow> Message" where
  "allocate_request secs tid =
     (let m = push_requested_transport 6 (message_new Allocate Request tid)
      in if 0 < secs then push_lifetime secs m else m)"

definition challenge ::
  "'w link \<Rightarrow> (bytes \<Rightarrow> bytes \<Rightarrow> bytes) \<Rightarrow> nat \<Rightarrow> u32 \<Rightarrow> bytes \<Rightarrow> CredentialState \<Rightarrow> 'w \<Rightarrow>
     'w \<times> (RelayError + CredentialState)" where
  "challenge net hmac cn secs tid cred w =
     (case transact net hmac cn (allocate_request secs tid) None w of
        (w', Inl e) \<Rightarrow> (w', Inl e)
      | (w', Inr resp) \<Rightarrow>
          (w',
           if in_class resp = ErrorResponse then
             (case error_code resp of
                None \<Rightarrow> Inl (Protocol ''error response without ERROR-CODE'')
              | Some e \<Rightarrow>
                  if server_code e \<noteq> 401 then Inl (RelayServer (server_code e) (snd (snd e)))
                  else case string_attr resp Realm of
                    None \<Rightarrow> Inl (Protocol ''401 without REALM'')
                  | Some r \<Rightarrow>
                      (case string_attr resp Nonce of
                         None \<Rightarrow> Inl (Protocol ''401 without NONCE'')
                       | Some nc \<Rightarrow> Inr (cred\<lparr>cs_realm := r, cs_nonce := nc\<rparr>)))
           else Inl (Protocol ''relay accepted allocate without a challenge'')))"

text \<open>
  \<open>auth_transact\<close>: \<open>build\<close> makes the request from a fresh transaction id; \<open>n\<close> is the next id to
  draw, and the credentials change when the challenge is run again.
\<close>

definition auth_transact ::
  "'w link \<Rightarrow> (bytes \<Rightarrow> bytes \<Rightarrow> bytes) \<Rightarrow> (bytes \<Rightarrow> bytes) \<Rightarrow> (nat \<Rightarrow> bytes) \<Rightarrow> nat \<Rightarrow> u32 \<Rightarrow>
     (bytes \<Rightarrow> Message) \<Rightarrow> nat \<times> CredentialState \<times> 'w \<Rightarrow>
     (nat \<times> CredentialState \<times> 'w) \<times> (RelayError + Incoming)" where
  "auth_transact net hmac md5 tids cn secs build st =
     (case st of (n, cred, w) \<Rightarrow>
       (case transact net hmac cn (sign cred (build (tids n))) (Some (cred_key md5 cred)) w of
          (w1, Inl e) \<Rightarrow> ((Suc n, cred, w1), Inl e)
        | (w1, Inr first) \<Rightarrow>
            if in_class first = ErrorResponse then
              (case error_code first of
                 None \<Rightarrow> ((Suc n, cred, w1), Inl (Protocol ''error response without ERROR-CODE''))
               | Some e \<Rightarrow>
                   if server_code e = 438 then
                     (case challenge net hmac cn secs (tids (Suc n)) cred w1 of
                        (w2, Inl e) \<Rightarrow> ((n + 2, cred, w2), Inl e)
                      | (w2, Inr cred') \<Rightarrow>
                          (case transact net hmac cn (sign cred' (build (tids (n + 2))))
                                  (Some (cred_key md5 cred')) w2 of
                             (w3, r) \<Rightarrow> ((n + 3, cred', w3), r)))
                   else ((Suc n, cred, w1), Inr first))
            else ((Suc n, cred, w1), Inr first)))"

text \<open>One authenticated step whose response must be a success.\<close>

definition dial_step ::
  "'w link \<Rightarrow> (bytes \<Rightarrow> bytes \<Rightarrow> bytes) \<Rightarrow> (bytes \<Rightarrow> bytes) \<Rightarrow> (nat \<Rightarrow> bytes) \<Rightarrow> nat \<Rightarrow> u32 \<Rightarrow> string \<Rightarrow>
     (bytes \<Rightarrow> Message) \<Rightarrow> nat \<times> CredentialState \<times> 'w \<Rightarrow>
     (nat \<times> CredentialState \<times> 'w) \<times> (RelayError + Incoming)" where
  "dial_step net hmac md5 tids cn secs name build st =
     (case auth_transact net hmac md5 tids cn secs build st of
        (st', Inl e) \<Rightarrow> (st', Inl e)
      | (st', Inr i) \<Rightarrow>
          (case expect_success i name of Inl e \<Rightarrow> (st', Inl e) | Inr _ \<Rightarrow> (st', Inr i)))"

definition peer_request :: "Method \<Rightarrow> SocketAddr \<Rightarrow> bytes \<Rightarrow> Message" where
  "peer_request m target tid = push_xor_address XorPeerAddress target (message_new m Request tid)"

definition bind_request :: "u32 \<Rightarrow> bytes \<Rightarrow> Message" where
  "bind_request c tid = push_connection_id c (message_new ConnectionBind Request tid)"

text \<open>
  \<open>dial_via_relay\<close>: on success connection 1 is the data pipe; the result carries the connection id.
  \<open>conn w cn\<close> opens connection \<open>cn\<close>.
\<close>

definition dial_via_relay ::
  "'w link \<Rightarrow> ('w \<Rightarrow> nat \<Rightarrow> 'w \<times> (string + unit)) \<Rightarrow> (bytes \<Rightarrow> bytes \<Rightarrow> bytes) \<Rightarrow> (bytes \<Rightarrow> bytes) \<Rightarrow>
     (nat \<Rightarrow> bytes) \<Rightarrow> RelayEndpoint \<Rightarrow> SocketAddr \<Rightarrow> 'w \<Rightarrow> 'w \<times> (RelayError + u32)" where
  "dial_via_relay net conn hmac md5 tids relay target w0 =
     (let secs = re_lifetime_seconds relay;
          step = (\<lambda>cn. dial_step net hmac md5 tids cn secs);
          cred = \<lparr>cs_username = re_username relay, cs_password = re_password relay,
                  cs_realm = re_realm relay, cs_nonce = []\<rparr>
      in case conn w0 0 of
        (w1, Inl e) \<Rightarrow> (w1, Inl (RelayConnect e))
      | (w1, Inr _) \<Rightarrow>
        (case challenge net hmac 0 secs (tids 0) cred w1 of
           (w2, Inl e) \<Rightarrow> (w2, Inl e)
         | (w2, Inr cred') \<Rightarrow>
        (case step 0 ''allocate'' (allocate_request secs) (1, cred', w2) of
           ((n, c, w3), Inl e) \<Rightarrow> (w3, Inl e)
         | (st3, Inr _) \<Rightarrow>
        (case step 0 ''create-permission'' (peer_request CreatePermission target) st3 of
           ((n, c, w4), Inl e) \<Rightarrow> (w4, Inl e)
         | (st4, Inr _) \<Rightarrow>
        (case step 0 ''connect'' (peer_request Connect target) st4 of
           ((n, c, w5), Inl e) \<Rightarrow> (w5, Inl e)
         | ((n, c, w5), Inr i) \<Rightarrow>
        (case connection_id i of
           None \<Rightarrow> (w5, Inl (Protocol ''connect success without CONNECTION-ID''))
         | Some cid \<Rightarrow>
        (case conn w5 1 of
           (w6, Inl e) \<Rightarrow> (w6, Inl (RelayConnect e))
         | (w6, Inr _) \<Rightarrow>
        (case step 1 ''connection-bind'' (bind_request cid) (n, c, w6) of
           ((n, c, w7), Inl e) \<Rightarrow> (w7, Inl e)
         | ((n, c, w7), Inr _) \<Rightarrow> (w7, Inr cid)))))))))"

section \<open>Probing\<close>

definition probe ::
  "'w link \<Rightarrow> ('w \<Rightarrow> nat \<Rightarrow> 'w \<times> (string + unit)) \<Rightarrow> (bytes \<Rightarrow> bytes \<Rightarrow> bytes) \<Rightarrow> bytes \<Rightarrow> 'w \<Rightarrow>
     'w \<times> (RelayError + SocketAddr option)" where
  "probe net conn hmac tid w0 =
     (case conn w0 0 of
        (w1, Inl e) \<Rightarrow> (w1, Inl (RelayConnect e))
      | (w1, Inr _) \<Rightarrow>
          (case net w1 0 (encode hmac None (message_new Binding Request tid)) of
             (w2, Inl WriteTimeout) \<Rightarrow> (w2, Inl (Protocol ''probe write timeout''))
           | (w2, Inl ReadTimeout) \<Rightarrow> (w2, Inl (Protocol ''probe response timeout''))
           | (w2, Inl (IoFault e)) \<Rightarrow> (w2, Inl (RelayIo e))
           | (w2, Inr sent) \<Rightarrow>
               (w2,
                case incoming_decode (take 1024 sent) of
                  Inl _ \<Rightarrow> Inl (Protocol ''undecodable probe response'')
                | Inr resp \<Rightarrow>
                    if in_tid resp \<noteq> tid \<or> in_method resp \<noteq> Binding
                    then Inl (Protocol ''unexpected probe response'')
                    else if in_class resp \<noteq> SuccessResponse then
                      let e = (case error_code resp of None \<Rightarrow> (4, 0, []) | Some e \<Rightarrow> e)
                      in Inl (RelayServer (server_code e) (snd (snd e)))
                    else Inr (case xor_address resp XorMappedAddress of
                                Some a \<Rightarrow> Some a
                              | None \<Rightarrow> xor_address resp XorPeerAddress))))"

end
