(* ===== verification/Turn_Link.thy ===== *)
theory Turn_Link
  imports Turn_Auth Turn_Client
begin

text \<open>
  Client and server of the relay together.  \<open>relay_link\<close> is the network parameter of \<open>Turn_Client\<close>
  instantiated with the server of \<open>Turn_Server\<close>: it delivers a request whole, lets \<open>turn_step\<close>
  handle it and returns the response.  The clock, the random values and the nonces of the server
  are functions of the request number and of the connection number.
\<close>

section \<open>The composed system\<close>

record RelayEnv =
  ev_clock :: "nat \<Rightarrow> nat"
  ev_rnd :: "nat \<Rightarrow> u64"
  ev_nonce :: "nat \<Rightarrow> string"
  ev_client :: SocketAddr

record RelayWorld =
  rw_sessions :: "nat \<Rightarrow> TurnSession"
  rw_ends :: "nat \<Rightarrow> ClientEnd option"
  rw_pending :: pending
  rw_step :: nat

definition env_input :: "RelayEnv \<Rightarrow> nat \<Rightarrow> bytes \<Rightarrow> Input" where
  "env_input env k raw =
     \<lparr>ip_retain_at = ev_clock env k, ip_now = ev_clock env k, ip_rnd = ev_rnd env k, ip_dial = True,
      ip_raw = take 8192 raw\<rparr>"

definition relay_conn :: "RelayEnv \<Rightarrow> RelayWorld \<Rightarrow> nat \<Rightarrow> RelayWorld \<times> (string + unit)" where
  "relay_conn env w cn =
     (w\<lparr>rw_sessions := (rw_sessions w)(cn := new_turn_session (ev_nonce env cn)),
        rw_ends := (rw_ends w)(cn := None)\<rparr>, Inr ())"

definition relay_link :: "Crypto \<Rightarrow> bool \<Rightarrow> TurnServerConfig \<Rightarrow> RelayEnv \<Rightarrow> RelayWorld link" where
  "relay_link cp chk cfg env w cn raw =
     (case turn_step cp chk cfg (ev_client env) (env_input env (rw_step w) raw) (rw_sessions w cn)
             (rw_pending w) of
        Continue s p b \<Rightarrow>
          (w\<lparr>rw_sessions := (rw_sessions w)(cn := s), rw_pending := p, rw_step := Suc (rw_step w)\<rparr>,
           case b of Some r \<Rightarrow> Inr r | None \<Rightarrow> Inl ReadTimeout)
      | Ended e p b \<Rightarrow>
          (w\<lparr>rw_ends := (rw_ends w)(cn := Some e), rw_pending := p, rw_step := Suc (rw_step w)\<rparr>,
           case b of Some r \<Rightarrow> Inr r | None \<Rightarrow> Inr []))"

section \<open>Sizes\<close>

lemma padding_less: "padding n < 4"
  by (simp add: padding_def)

lemma length_encode_unsigned:
  "length (st_tid m) = 12 \<Longrightarrow> length (encode h None m) = 20 + length (write_attrs (st_attrs m))"
  by (simp add: encode_def write_header_def)

lemma length_encode_signed:
  "length (st_tid m) = 12 \<Longrightarrow> length (h k (signed_prefix m)) = 20 \<Longrightarrow>
     length (encode h (Some k) m) = 44 + length (write_attrs (st_attrs m))"
  using length_signed_prefix [of m] by (simp add: encode_def Let_def signed_prefix_def)

text \<open>A message whose attributes take at most \<open>n\<close> bytes.\<close>

definition small :: "nat \<Rightarrow> Message \<Rightarrow> bool" where
  "small n m \<longleftrightarrow> length (st_tid m) = 12 \<and> length (write_attrs (st_attrs m)) \<le> n"

lemma write_attrs_fit: "length (write_attrs as) < 65536 \<Longrightarrow> attrs_fit as"
  by (induction as) (auto simp: attrs_fit_def)

lemma small_wire_ok: "small n m \<Longrightarrow> n + extra < 65536 \<Longrightarrow> wire_ok extra m"
  by (auto simp: small_def wire_ok_def intro: write_attrs_fit)

lemma small_push: "small n m \<Longrightarrow> small (n + length v + 7) (push_attr a v m)"
  using padding_less [of "length v"] by (simp add: small_def push_attr_def)

lemma small_new: "length tid = 12 \<Longrightarrow> small 0 (message_new m c tid)"
  by (simp add: small_def message_new_def)

lemma small_mono: "small n m \<Longrightarrow> n \<le> k \<Longrightarrow> small k m"
  by (simp add: small_def)

lemma st_tid_simps [simp]:
  "st_tid (message_new m c tid) = tid" "st_tid (push_attr a v msg) = st_tid msg"
  "st_tid (push_username u msg) = st_tid msg" "st_tid (push_realm u msg) = st_tid msg"
  "st_tid (push_nonce u msg) = st_tid msg" "st_tid (push_lifetime s msg) = st_tid msg"
  "st_tid (push_requested_transport b msg) = st_tid msg"
  "st_tid (push_connection_id c' msg) = st_tid msg"
  "st_tid (push_xor_address a addr msg) = st_tid msg" "st_tid (sign cred msg) = st_tid msg"
  by (simp_all add: message_new_def push_attr_def push_username_def push_realm_def push_nonce_def
      push_lifetime_def push_requested_transport_def push_connection_id_def push_xor_address_def
      sign_def)

lemma st_class_simps [simp]:
  "st_class (message_new m c tid) = c" "st_class (push_attr a v msg) = st_class msg"
  "st_class (push_lifetime s msg) = st_class msg"
  "st_class (push_connection_id c' msg) = st_class msg"
  "st_class (push_xor_address a addr msg) = st_class msg"
  by (simp_all add: message_new_def push_attr_def push_lifetime_def push_connection_id_def
      push_xor_address_def)

lemma length_xor_address_bytes: "length (xor_address_bytes addr tid) \<le> 20 + length tid"
  by (cases addr) (simp_all add: xor_address_bytes_def Let_def)

section \<open>One transaction\<close>

lemma transact_resp:
  assumes "net w cn (encode h key msg) = (w', Inr (encode h' None resp))"
    and "small 4000 resp" and "st_tid resp = st_tid msg"
  shows "transact net h cn msg key w = (w', Inr (incoming_of resp))"
proof -
  have "length (encode h' None resp) \<le> 4096" "20 \<le> length (encode h' None resp)"
    using assms(2) length_encode_unsigned [of resp h'] by (auto simp: small_def)
  moreover have "incoming_decode (encode h' None resp) = Inr (incoming_of resp)"
    using small_wire_ok [OF assms(2)] by (intro decode_unsigned) simp
  ultimately show ?thesis
    using assms(1,3) by (simp add: transact_def HEADER_LEN_def incoming_of_def)
qed

lemma auth_transact_success:
  assumes "transact net h cn (sign cred (build (tids n))) (Some (cred_key md5 cred)) w = (w', Inr i)"
    and "in_class i = SuccessResponse"
  shows "dial_step net h md5 tids cn secs name build (n, cred, w) = ((Suc n, cred, w'), Inr i)"
  using assms by (simp add: dial_step_def auth_transact_def expect_success_def)

text \<open>A request signed by a holder of the secret, as the server decodes it.\<close>

lemma signed_request:
  assumes hmac: "\<And>k d. length (cr_hmac cp k d) = 20" and "small 4000 m"
    and user: "find (\<lambda>(t, v). t = attr_code Username) (st_attrs m) = Some (attr_code Username, as_bytes u)"
    and "valid_utf8 (as_bytes u)"
    and "raw = encode (cr_hmac cp) (Some (integrity_key cp realm secret u)) m"
  obtains i where "incoming_decode raw = Inr i" and "length raw \<le> 8192" and "raw \<noteq> []"
    and "verify_integrity cp chk raw i realm secret = Some True"
    and "in_method i = st_method m" and "in_class i = st_class m" and "in_tid i = st_tid m"
    and "\<And>a. a \<noteq> MessageIntegrity \<Longrightarrow> find_attr i a =
      map_option snd (find (\<lambda>(t, v). t = attr_code a) (st_attrs m))"
proof -
  let ?k = "integrity_key cp realm secret u"
  let ?i = "incoming_of (m\<lparr>st_attrs := st_attrs m @ [(attr_code MessageIntegrity, cr_hmac cp ?k (signed_prefix m))]\<rparr>)"
  have w: "wire_ok 24 m" using small_wire_ok [OF assms(2)] by simp
  have dec: "incoming_decode raw = Inr ?i"
    unfolding assms(5) by (rule decode_signed [OF w]) (rule hmac)
  have "verify_integrity cp chk raw ?i realm secret = Some True"
    using verify_integrity_complete [OF hmac w user assms(4,5)] dec by auto
  moreover have "length raw \<le> 8192" "raw \<noteq> []"
    using length_encode_signed [of m "cr_hmac cp" ?k] assms(2,5) hmac by (auto simp: small_def)
  moreover have "find P (xs @ [(attr_code MessageIntegrity, v)]) = find P xs"
    if "\<not> P (attr_code MessageIntegrity, v)" for P xs and v :: bytes
    using that by (induction xs) auto
  then have "a \<noteq> MessageIntegrity \<Longrightarrow> find_attr ?i a =
      map_option snd (find (\<lambda>(t, v). t = attr_code a) (st_attrs m))" for a
    by (simp add: find_attr_def incoming_of_def del: attr_code.simps)
  ultimately show ?thesis using that [OF dec] by (simp add: incoming_of_def)
qed

section \<open>The five transactions of a dial\<close>

text \<open>What the composed system needs: MACs of 20 bytes, 12-byte transaction ids, and names that are
  valid UTF-8 of moderate length.\<close>

definition relay_ready :: "Crypto \<Rightarrow> TurnServerConfig \<Rightarrow> RelayEnv \<Rightarrow> (nat \<Rightarrow> bytes) \<Rightarrow> string \<Rightarrow> bool" where
  "relay_ready cp cfg env tids u \<longleftrightarrow>
     (\<forall>k d. length (cr_hmac cp k d) = 20) \<and> (\<forall>n. length (tids n) = 12) \<and>
     (\<forall>x \<in> {u, tc_realm cfg, ev_nonce env 0}. valid_utf8 (as_bytes x) \<and> length x \<le> 1000)"

definition dial_cred :: "Crypto \<Rightarrow> TurnServerConfig \<Rightarrow> RelayEnv \<Rightarrow> string \<Rightarrow> CredentialState" where
  "dial_cred cp cfg env u =
     \<lparr>cs_username = u, cs_password = rest_password cp (tc_secret cfg) u, cs_realm = tc_realm cfg,
      cs_nonce = ev_nonce env 0\<rparr>"

lemma cred_key_dial:
  "cred_key (cr_md5 cp) (dial_cred cp cfg env u) = integrity_key cp (tc_realm cfg) (tc_secret cfg) u"
  by (simp add: cred_key_def dial_cred_def integrity_key_def)

lemma sign_attrs:
  "st_attrs (sign c m) = st_attrs m @ [(attr_code Username, as_bytes (cs_username c)),
     (attr_code Realm, as_bytes (cs_realm c)), (attr_code Nonce, as_bytes (cs_nonce c))]"
  "st_method (sign c m) = st_method m" "st_class (sign c m) = st_class m"
  by (simp_all add: sign_def push_username_def push_realm_def push_nonce_def push_attr_def)

lemma small_sign:
  assumes "relay_ready cp cfg env tids u" and "small 500 m"
  shows "small 4000 (sign (dial_cred cp cfg env u) m)"
proof -
  have "length u \<le> 1000" "length (tc_realm cfg) \<le> 1000" "length (ev_nonce env 0) \<le> 1000"
    using assms(1) by (simp_all add: relay_ready_def)
  then show ?thesis
    using assms(2) padding_less [of "length u"] padding_less [of "length (tc_realm cfg)"]
      padding_less [of "length (ev_nonce env 0)"]
    by (simp add: small_def sign_attrs dial_cred_def)
qed

lemma find_append_None: "find P ys = None \<Longrightarrow> find P (xs @ ys) = find P xs"
  by (induction xs) auto

lemma find_first_middle:
  "k \<notin> fst ` set xs \<Longrightarrow> find (\<lambda>(t, v). t = k) (xs @ (k, v) # ys) = Some (k, v)"
  by (induction xs) auto

text \<open>How the server sees a request \<open>m\<close> that the user \<open>u\<close> signed.\<close>

definition signed_view ::
  "Crypto \<Rightarrow> bool \<Rightarrow> TurnServerConfig \<Rightarrow> Message \<Rightarrow> string \<Rightarrow> bytes \<Rightarrow> Incoming \<Rightarrow> bool" where
  "signed_view cp chk cfg m u raw i \<longleftrightarrow>
     incoming_decode raw = Inr i \<and> raw \<noteq> [] \<and> length raw \<le> 8192 \<and>
     verify_integrity cp chk raw i (tc_realm cfg) (tc_secret cfg) = Some True \<and>
     in_class i = Request \<and> in_method i = st_method m \<and> in_tid i = st_tid m \<and>
     string_attr i Username = Some u \<and>
     (\<forall>a. a \<notin> {MessageIntegrity, Username, Realm, Nonce} \<longrightarrow>
        find_attr i a = map_option snd (find (\<lambda>(t, v). t = attr_code a) (st_attrs m)))"

text \<open>A signed request on connection \<open>cn\<close>: the server's step on its decoded form gives the result.\<close>

lemma dial_step_link:
  assumes ready: "relay_ready cp cfg env tids u" and m: "small 500 (build (tids n))"
    and cls: "st_class (build (tids n)) = Request"
    and nouser: "attr_code Username \<notin> fst ` set (st_attrs (build (tids n)))"
    and step: "\<And>i raw. signed_view cp chk cfg (build (tids n)) u raw i \<Longrightarrow>
      \<exists>resp. st_tid resp = tids n \<and> small 4000 resp \<and> st_class resp = SuccessResponse \<and> R (incoming_of resp) \<and>
        relay_link cp chk cfg env w cn raw = (w', Inr (encode (cr_hmac cp) None resp))"
    and tid: "st_tid (build (tids n)) = tids n"
  shows "\<exists>i. dial_step (relay_link cp chk cfg env) (cr_hmac cp) (cr_md5 cp) tids cn secs name build
      (n, dial_cred cp cfg env u, w) = ((Suc n, dial_cred cp cfg env u, w'), Inr i) \<and> R i"
proof -
  let ?m = "sign (dial_cred cp cfg env u) (build (tids n))"
  let ?raw = "encode (cr_hmac cp) (Some (integrity_key cp (tc_realm cfg) (tc_secret cfg) u)) ?m"
  have find_nouser: "find (\<lambda>(t, v). t = attr_code Username) (st_attrs ?m) = Some (attr_code Username, as_bytes u)"
    using nouser by (simp add: sign_attrs dial_cred_def find_first_middle del: attr_code.simps)
  obtain i where i: "incoming_decode ?raw = Inr i" "?raw \<noteq> []" "length ?raw \<le> 8192"
    "verify_integrity cp chk ?raw i (tc_realm cfg) (tc_secret cfg) = Some True"
    "in_method i = st_method ?m" "in_class i = st_class ?m" "in_tid i = st_tid ?m"
    and attrs: "\<And>a. a \<noteq> MessageIntegrity \<Longrightarrow> find_attr i a =
      map_option snd (find (\<lambda>(t, v). t = attr_code a) (st_attrs ?m))"
  proof (rule signed_request [OF _ small_sign [OF ready m] find_nouser _ refl, where chk = chk])
    show "length (cr_hmac cp k d) = 20" for k d using ready by (simp add: relay_ready_def)
    show "valid_utf8 (as_bytes u)" using ready by (simp add: relay_ready_def)
  qed auto
  have user: "string_attr i Username = Some u"
    using attrs [of Username] find_nouser from_utf8_lossy_as_bytes [of u] ready
    by (simp add: string_attr_def relay_ready_def)
  have base: "find_attr i a =
      map_option snd (find (\<lambda>(t, v). t = attr_code a) (st_attrs (build (tids n))))"
    if "a \<notin> {MessageIntegrity, Username, Realm, Nonce}" for a
  proof -
    have "find (\<lambda>(t, v). t = attr_code a)
        [(attr_code Username, x), (attr_code Realm, y), (attr_code Nonce, z)] = None" for x y z :: bytes
      using that by (auto simp del: attr_code.simps)
    from find_append_None [OF this] show ?thesis
      using attrs [of a] that by (simp only: sign_attrs) blast
  qed
  obtain resp where resp: "st_tid resp = tids n" "small 4000 resp" "st_class resp = SuccessResponse"
    "R (incoming_of resp)" "relay_link cp chk cfg env w cn ?raw = (w', Inr (encode (cr_hmac cp) None resp))"
    using step [of ?raw i] i base user cls tid by (auto simp: sign_attrs signed_view_def)
  have "transact (relay_link cp chk cfg env) (cr_hmac cp) cn ?m (Some (cred_key (cr_md5 cp) (dial_cred cp cfg env u))) w
      = (w', Inr (incoming_of resp))"
    using resp tid by (intro transact_resp [where h' = "cr_hmac cp"]) (simp_all add: cred_key_dial)
  then show ?thesis
    using auth_transact_success resp(3,4) by (fastforce simp: incoming_of_def)
qed

lemma relay_link_Continue:
  "turn_step cp chk cfg (ev_client env) (env_input env (rw_step w) raw) (rw_sessions w cn) (rw_pending w) =
     Continue s p (Some b) \<Longrightarrow>
   relay_link cp chk cfg env w cn raw =
     (w\<lparr>rw_sessions := (rw_sessions w)(cn := s), rw_pending := p, rw_step := Suc (rw_step w)\<rparr>, Inr b)"
  by (simp add: relay_link_def)

lemma relay_link_Ended:
  "turn_step cp chk cfg (ev_client env) (env_input env (rw_step w) raw) (rw_sessions w cn) (rw_pending w) =
     Ended e p (Some b) \<Longrightarrow>
   relay_link cp chk cfg env w cn raw =
     (w\<lparr>rw_ends := (rw_ends w)(cn := Some e), rw_pending := p, rw_step := Suc (rw_step w)\<rparr>, Inr b)"
  by (simp add: relay_link_def)

definition session_with :: "string \<Rightarrow> string \<Rightarrow> u16 \<Rightarrow> Allocation \<Rightarrow> TurnSession" where
  "session_with nonce u port al = \<lparr>ts_nonce = nonce, ts_username = Some u, ts_allocations = [(port, al)]\<rparr>"

lemma u32_attr_be32: "find_attr i a = Some (be32 x) \<Longrightarrow> u32_attr a i = Some x"
  by (simp add: u32_attr_def be32_def from_be32_be32)

lemma xor_address_v4:
  "find_attr i a = Some (xor_address_bytes (V4 octets port) tid) \<Longrightarrow> length octets = 4 \<Longrightarrow>
     xor_address i a = Some (V4 octets port)"
  by (simp add: xor_address_def decode_xor_address_v4)

lemma request_attrs:
  "0 < secs \<Longrightarrow> st_attrs (allocate_request secs tid) =
     [(attr_code RequestedTransport, [6, 0, 0, 0]), (attr_code Lifetime, be32 secs)]"
  "st_attrs (peer_request mt target tid) = [(attr_code XorPeerAddress, xor_address_bytes target tid)]"
  "st_attrs (bind_request c tid) = [(attr_code ConnectionId, be32 c)]"
  "st_method (allocate_request secs tid) = Allocate" "st_class (allocate_request secs tid) = Request"
  "st_method (peer_request mt target tid) = mt" "st_class (peer_request mt target tid) = Request"
  "st_method (bind_request c tid) = ConnectionBind" "st_class (bind_request c tid) = Request"
  "st_tid (allocate_request secs tid) = tid" "st_tid (peer_request mt target tid) = tid"
  "st_tid (bind_request c tid) = tid"
  by (simp_all add: allocate_request_def peer_request_def bind_request_def push_requested_transport_def
      push_lifetime_def push_xor_address_def push_connection_id_def push_attr_def message_new_def Let_def)

lemma allocate_turn_step:
  assumes "signed_view cp chk cfg (allocate_request secs tid) u raw i" and "0 < secs"
  shows "turn_step cp chk cfg peer (env_input env k raw) (new_turn_session nonce) pend =
    Continue (session_with nonce u (relayed_port (ev_rnd env k))
        \<lparr>al_permissions = [], al_connections = [], al_deadline = ev_clock env k + unat secs\<rparr>) pend
      (Some (encode (cr_hmac cp) None (push_lifetime secs
        (push_xor_address XorRelayedAddress (V4 (tc_external cfg) (relayed_port (ev_rnd env k)))
          (message_new Allocate SuccessResponse tid)))))"
proof -
  have "find_attr i RequestedTransport = Some [6, 0, 0, 0]" "find_attr i Lifetime = Some (be32 secs)"
    using assms by (simp_all add: signed_view_def request_attrs)
  then show ?thesis
    using assms u32_attr_be32 [of i Lifetime secs]
    by (simp add: signed_view_def request_attrs turn_step_def env_input_def lift_resp_def allocate_def
        Let_def requested_lifetime_def lifetime_def retain_live_def new_turn_session_def hretain_def
        session_with_def)
qed

lemma view_peer_address:
  assumes "signed_view cp chk cfg (peer_request mt (V4 octets port) tid) u raw i" and "length octets = 4"
  shows "xor_address i XorPeerAddress = Some (V4 octets port)"
proof (rule xor_address_v4 [OF _ assms(2)])
  show "find_attr i XorPeerAddress = Some (xor_address_bytes (V4 octets port) tid)"
    using assms(1) by (simp add: signed_view_def request_attrs)
qed

lemma permission_turn_step:
  assumes "signed_view cp chk cfg (peer_request CreatePermission (V4 octets port) tid) u raw i"
    and "length octets = 4" and "ev_clock env k < d"
  shows "turn_step cp chk cfg peer (env_input env k raw)
      (session_with nonce u' rp \<lparr>al_permissions = [], al_connections = [], al_deadline = d\<rparr>) pend =
    Continue (session_with nonce u' rp \<lparr>al_permissions = [octets], al_connections = [],
        al_deadline = ev_clock env k + tc_lifetime cfg\<rparr>) pend
      (Some (encode (cr_hmac cp) None (message_new CreatePermission SuccessResponse tid)))"
  using assms view_peer_address [OF assms(1,2)]
  by (simp add: signed_view_def request_attrs turn_step_def env_input_def lift_resp_def permission_def
      Let_def retain_live_def hretain_def hmap_def session_with_def)

lemma connect_turn_step:
  assumes "signed_view cp chk cfg (peer_request Connect (V4 octets port) tid) u raw i"
    and "length octets = 4" and "ev_clock env k < d"
  shows "turn_step cp chk cfg peer (env_input env k raw)
      (session_with nonce u' rp \<lparr>al_permissions = [octets], al_connections = [], al_deadline = d\<rparr>) (Some m) =
    Continue (session_with nonce u' rp \<lparr>al_permissions = [octets],
        al_connections = [ucast (drop_bit 32 (ev_rnd env k))],
        al_deadline = ev_clock env k + tc_lifetime cfg\<rparr>)
      (Some (hput (ucast (drop_bit 32 (ev_rnd env k))) (V4 octets port) m))
      (Some (encode (cr_hmac cp) None (push_connection_id (ucast (drop_bit 32 (ev_rnd env k)))
        (message_new Connect SuccessResponse tid))))"
  using assms view_peer_address [OF assms(1,2)]
  by (simp add: signed_view_def request_attrs turn_step_def env_input_def connect_def Let_def
      retain_live_def hretain_def hmap_def session_with_def)

lemma bind_turn_step:
  assumes "signed_view cp chk cfg (bind_request c tid) u raw i" and "hget m c = Some a"
  shows "turn_step cp chk cfg peer (env_input env k raw) s (Some m) =
    Ended (Spliced a) (Some (hdel c m))
      (Some (encode (cr_hmac cp) None (message_new ConnectionBind SuccessResponse tid)))"
proof -
  have "connection_id i = Some c"
    using assms(1) unfolding connection_id_def
    by (intro u32_attr_be32) (simp add: signed_view_def request_attrs)
  then show ?thesis
    using assms
    by (simp add: signed_view_def request_attrs turn_step_def env_input_def connection_bind_def Let_def)
qed

lemma challenge_link:
  assumes ready: "relay_ready cp cfg env tids u" and "0 < secs"
    and sess: "rw_sessions w 0 = new_turn_session (ev_nonce env 0)"
    and cred: "cs_username cred = u" "cs_password cred = rest_password cp (tc_secret cfg) u"
  shows "challenge (relay_link cp chk cfg env) (cr_hmac cp) 0 secs (tids n) cred w =
    (w\<lparr>rw_step := Suc (rw_step w)\<rparr>, Inr (dial_cred cp cfg env u))"
proof -
  let ?m = "allocate_request secs (tids n)"
  let ?resp = "push_attr Nonce (as_bytes (ev_nonce env 0)) (push_attr Realm (as_bytes (tc_realm cfg))
    (push_attr ErrorCode [0, 0, 4, 1] (message_new Allocate ErrorResponse (tids n))))"
  let ?raw = "encode (cr_hmac cp) None ?m"
  have tid: "length (tids n) = 12" using ready by (simp add: relay_ready_def)
  have attrs: "st_attrs ?m = [(attr_code RequestedTransport, [6, 0, 0, 0]), (attr_code Lifetime, be32 secs)]"
    using assms(2)
    by (simp add: allocate_request_def push_requested_transport_def push_lifetime_def push_attr_def message_new_def Let_def)
  have kind: "st_method ?m = Allocate" "st_class ?m = Request" "st_tid ?m = tids n"
    using assms(2)
    by (simp_all add: allocate_request_def push_requested_transport_def push_lifetime_def push_attr_def message_new_def Let_def)
  have small: "small 500 ?m"
    using tid kind(3) by (simp add: small_def attrs padding_def)
  have dec: "incoming_decode ?raw = Inr (incoming_of ?m)"
    using small_wire_ok [OF small] by (intro decode_unsigned) simp
  have raw: "?raw \<noteq> []" "length ?raw \<le> 8192"
    using small length_encode_unsigned [of ?m "cr_hmac cp"] by (auto simp: small_def)
  have "turn_step cp chk cfg (ev_client env) (env_input env (rw_step w) ?raw) (rw_sessions w 0) (rw_pending w) =
      Continue (new_turn_session (ev_nonce env 0)) (rw_pending w) (Some (encode (cr_hmac cp) None ?resp))"
    using dec raw kind
    by (simp add: turn_step_def env_input_def sess lift_resp_def allocate_def Let_def verify_integrity_def
        string_attr_def find_attr_def incoming_of_def attrs challenge_resp_def new_turn_session_def
        retain_live_def hretain_def)
  from relay_link_Continue [OF this]
  have link: "relay_link cp chk cfg env w 0 ?raw =
      (w\<lparr>rw_step := Suc (rw_step w)\<rparr>, Inr (encode (cr_hmac cp) None ?resp))"
    using sess by (simp add: fun_upd_idem)
  have "small 4000 ?resp"
    by (rule small_mono [OF small_push [OF small_push [OF small_push [OF small_new [OF tid]]]]])
      (use ready in \<open>simp add: relay_ready_def\<close>)
  then have "transact (relay_link cp chk cfg env) (cr_hmac cp) 0 ?m None w =
      (w\<lparr>rw_step := Suc (rw_step w)\<rparr>, Inr (incoming_of ?resp))"
    using link kind(3) by (intro transact_resp [where h' = "cr_hmac cp"]) simp_all
  moreover have "st_attrs ?resp = [(attr_code ErrorCode, [0, 0, 4, 1]),
      (attr_code Realm, as_bytes (tc_realm cfg)), (attr_code Nonce, as_bytes (ev_nonce env 0))]"
    by (simp add: push_attr_def message_new_def)
  moreover have "st_class ?resp = ErrorResponse" by (simp add: push_attr_def message_new_def)
  moreover have "from_utf8_lossy (as_bytes (tc_realm cfg)) = tc_realm cfg"
    "from_utf8_lossy (as_bytes (ev_nonce env 0)) = ev_nonce env 0"
    using ready from_utf8_lossy_as_bytes by (simp_all add: relay_ready_def)
  ultimately show ?thesis
    using cred
    by (simp add: challenge_def error_code_def find_attr_def string_attr_def incoming_of_def server_code_def
        dial_cred_def)
qed

lemma small_requests:
  assumes "length tid = 12"
  shows "0 < secs \<Longrightarrow> small 500 (allocate_request secs tid)"
    and "small 500 (peer_request mt target tid)" and "small 500 (bind_request c tid)"
  using assms padding_less [of "length (xor_address_bytes target tid)"] length_xor_address_bytes [of target tid]
  by (simp_all add: small_def request_attrs padding_def)

lemma small_responses:
  assumes "length tid = 12"
  shows "small 4000 (message_new m c tid)"
    and "small 4000 (push_connection_id x (message_new m c tid))"
    and "small 4000 (push_lifetime s (push_xor_address a (V4 ext port) (message_new m c tid)))"
proof -
  note new = small_new [OF assms, of m c]
  show "small 4000 (message_new m c tid)" by (rule small_mono [OF new]) simp
  show "small 4000 (push_connection_id x (message_new m c tid))"
    unfolding push_connection_id_def by (rule small_mono [OF small_push [OF new]]) simp
  show "small 4000 (push_lifetime s (push_xor_address a (V4 ext port) (message_new m c tid)))"
    unfolding push_lifetime_def push_xor_address_def
    by (rule small_mono [OF small_push [OF small_push [OF new]]])
      (use length_xor_address_bytes [of "V4 ext port" tid] assms in simp)
qed

text \<open>The state of the composed system after each transaction of a dial.\<close>

definition after_allocate :: "RelayEnv \<Rightarrow> string \<Rightarrow> u32 \<Rightarrow> RelayWorld \<Rightarrow> RelayWorld" where
  "after_allocate env u secs w =
     w\<lparr>rw_sessions := (rw_sessions w)(0 := session_with (ev_nonce env 0) u (relayed_port (ev_rnd env (rw_step w)))
         \<lparr>al_permissions = [], al_connections = [], al_deadline = ev_clock env (rw_step w) + unat secs\<rparr>),
       rw_step := Suc (rw_step w)\<rparr>"

lemma dial_allocate:
  assumes ready: "relay_ready cp cfg env tids u" and "0 < secs"
    and sess: "rw_sessions w 0 = new_turn_session (ev_nonce env 0)"
  shows "\<exists>i. dial_step (relay_link cp chk cfg env) (cr_hmac cp) (cr_md5 cp) tids 0 secs name
      (allocate_request secs) (n, dial_cred cp cfg env u, w) =
    ((Suc n, dial_cred cp cfg env u, after_allocate env u secs w), Inr i) \<and> True"
proof (rule dial_step_link [where build = "allocate_request secs" and R = "\<lambda>_. True", OF ready])
  have len: "length (tids n) = 12" using ready by (simp add: relay_ready_def)
  then show "small 500 (allocate_request secs (tids n))" using small_requests(1) assms(2) by blast
  fix i raw
  assume view: "signed_view cp chk cfg (allocate_request secs (tids n)) u raw i"
  show "\<exists>resp. st_tid resp = tids n \<and> small 4000 resp \<and> st_class resp = SuccessResponse \<and> True \<and>
      relay_link cp chk cfg env w 0 raw = (after_allocate env u secs w, Inr (encode (cr_hmac cp) None resp))"
    using relay_link_Continue [of cp chk cfg env w raw 0, unfolded sess, OF allocate_turn_step [OF view assms(2)]]
      small_responses(3) [OF len]
    by (intro exI [of _ "push_lifetime secs (push_xor_address XorRelayedAddress
        (V4 (tc_external cfg) (relayed_port (ev_rnd env (rw_step w)))) (message_new Allocate SuccessResponse (tids n)))"])
      (simp add: after_allocate_def)
qed (use assms in \<open>simp_all add: request_attrs\<close>)

definition after_permission :: "TurnServerConfig \<Rightarrow> RelayEnv \<Rightarrow> string \<Rightarrow> u16 \<Rightarrow> bytes \<Rightarrow> RelayWorld \<Rightarrow> RelayWorld" where
  "after_permission cfg env u rp octets w =
     w\<lparr>rw_sessions := (rw_sessions w)(0 := session_with (ev_nonce env 0) u rp
         \<lparr>al_permissions = [octets], al_connections = [],
          al_deadline = ev_clock env (rw_step w) + tc_lifetime cfg\<rparr>),
       rw_step := Suc (rw_step w)\<rparr>"

lemma dial_permission:
  assumes ready: "relay_ready cp cfg env tids u" and oct: "length octets = 4"
    and sess: "rw_sessions w 0 = session_with (ev_nonce env 0) u rp
      \<lparr>al_permissions = [], al_connections = [], al_deadline = d\<rparr>"
    and time: "ev_clock env (rw_step w) < d"
  shows "\<exists>i. dial_step (relay_link cp chk cfg env) (cr_hmac cp) (cr_md5 cp) tids 0 secs name
      (peer_request CreatePermission (V4 octets port)) (n, dial_cred cp cfg env u, w) =
    ((Suc n, dial_cred cp cfg env u, after_permission cfg env u rp octets w), Inr i) \<and> True"
proof (rule dial_step_link [where build = "peer_request CreatePermission (V4 octets port)"
      and R = "\<lambda>_. True", OF ready])
  have len: "length (tids n) = 12" using ready by (simp add: relay_ready_def)
  then show "small 500 (peer_request CreatePermission (V4 octets port) (tids n))"
    by (rule small_requests(2))
  fix i raw
  assume view: "signed_view cp chk cfg (peer_request CreatePermission (V4 octets port) (tids n)) u raw i"
  show "\<exists>resp. st_tid resp = tids n \<and> small 4000 resp \<and> st_class resp = SuccessResponse \<and> True \<and>
      relay_link cp chk cfg env w 0 raw =
        (after_permission cfg env u rp octets w, Inr (encode (cr_hmac cp) None resp))"
    using relay_link_Continue [of cp chk cfg env w raw 0, unfolded sess, OF permission_turn_step [OF view oct time]]
      small_responses(1) [OF len]
    by (intro exI [of _ "message_new CreatePermission SuccessResponse (tids n)"])
      (simp add: after_permission_def)
qed (simp_all add: request_attrs)

definition after_connect ::
  "TurnServerConfig \<Rightarrow> RelayEnv \<Rightarrow> string \<Rightarrow> u16 \<Rightarrow> SocketAddr \<Rightarrow> bytes \<Rightarrow> RelayWorld \<Rightarrow> RelayWorld" where
  "after_connect cfg env u rp target octets w =
     w\<lparr>rw_sessions := (rw_sessions w)(0 := session_with (ev_nonce env 0) u rp
         \<lparr>al_permissions = [octets], al_connections = [ucast (drop_bit 32 (ev_rnd env (rw_step w)))],
          al_deadline = ev_clock env (rw_step w) + tc_lifetime cfg\<rparr>),
       rw_pending := map_option (hput (ucast (drop_bit 32 (ev_rnd env (rw_step w)))) target) (rw_pending w),
       rw_step := Suc (rw_step w)\<rparr>"

lemma dial_connect:
  assumes ready: "relay_ready cp cfg env tids u" and oct: "length octets = 4"
    and sess: "rw_sessions w 0 = session_with (ev_nonce env 0) u rp
      \<lparr>al_permissions = [octets], al_connections = [], al_deadline = d\<rparr>"
    and pend: "rw_pending w = Some m" and time: "ev_clock env (rw_step w) < d"
  shows "\<exists>i. dial_step (relay_link cp chk cfg env) (cr_hmac cp) (cr_md5 cp) tids 0 secs name
      (peer_request Connect (V4 octets port)) (n, dial_cred cp cfg env u, w) =
    ((Suc n, dial_cred cp cfg env u, after_connect cfg env u rp (V4 octets port) octets w), Inr i) \<and>
      connection_id i = Some (ucast (drop_bit 32 (ev_rnd env (rw_step w))))"
proof (rule dial_step_link [where build = "peer_request Connect (V4 octets port)", OF ready])
  have len: "length (tids n) = 12" using ready by (simp add: relay_ready_def)
  then show "small 500 (peer_request Connect (V4 octets port) (tids n))"
    by (rule small_requests(2))
  fix i raw
  let ?c = "ucast (drop_bit 32 (ev_rnd env (rw_step w))) :: u32"
  let ?resp = "push_connection_id ?c (message_new Connect SuccessResponse (tids n))"
  assume view: "signed_view cp chk cfg (peer_request Connect (V4 octets port) (tids n)) u raw i"
  have "connection_id (incoming_of ?resp) = Some ?c"
    unfolding connection_id_def
    by (intro u32_attr_be32) (simp add: find_attr_def incoming_of_def push_connection_id_def push_attr_def message_new_def)
  then show "\<exists>resp. st_tid resp = tids n \<and> small 4000 resp \<and> st_class resp = SuccessResponse \<and>
      connection_id (incoming_of resp) = Some ?c \<and>
      relay_link cp chk cfg env w 0 raw =
        (after_connect cfg env u rp (V4 octets port) octets w, Inr (encode (cr_hmac cp) None resp))"
    using relay_link_Continue [of cp chk cfg env w raw 0, unfolded sess pend, OF connect_turn_step [OF view oct time]]
      small_responses(2) [OF len]
    by (intro exI [of _ ?resp]) (simp add: after_connect_def pend)
qed (simp_all add: request_attrs)

lemma dial_bind:
  assumes ready: "relay_ready cp cfg env tids u" and pend: "rw_pending w = Some m" "hget m c = Some a"
  shows "\<exists>i. dial_step (relay_link cp chk cfg env) (cr_hmac cp) (cr_md5 cp) tids 1 secs name
      (bind_request c) (n, dial_cred cp cfg env u, w) =
    ((Suc n, dial_cred cp cfg env u,
      w\<lparr>rw_ends := (rw_ends w)(1 := Some (Spliced a)), rw_pending := Some (hdel c m),
        rw_step := Suc (rw_step w)\<rparr>), Inr i) \<and> True"
proof (rule dial_step_link [where build = "bind_request c" and R = "\<lambda>_. True", OF ready])
  have len: "length (tids n) = 12" using ready by (simp add: relay_ready_def)
  then show "small 500 (bind_request c (tids n))" by (rule small_requests(3))
  fix i raw
  assume view: "signed_view cp chk cfg (bind_request c (tids n)) u raw i"
  show "\<exists>resp. st_tid resp = tids n \<and> small 4000 resp \<and> st_class resp = SuccessResponse \<and> True \<and>
      relay_link cp chk cfg env w 1 raw =
        (w\<lparr>rw_ends := (rw_ends w)(1 := Some (Spliced a)), rw_pending := Some (hdel c m),
           rw_step := Suc (rw_step w)\<rparr>, Inr (encode (cr_hmac cp) None resp))"
    using relay_link_Ended [of cp chk cfg env w raw 1, unfolded pend(1), OF bind_turn_step [OF view pend(2)]]
      small_responses(1) [OF len]
    by (intro exI [of _ "message_new ConnectionBind SuccessResponse (tids n)"]) simp
qed (simp_all add: request_attrs)

section \<open>Properties\<close>

text \<open>C10. The client reaches its peer through this server: with credentials made from the server's
  secret, an IPv4 target that accepts connections and no step slower than the lifetimes, the
  whole sequence of \<open>dial_via_relay\<close> (challenge, allocate, permission, connect, bind) succeeds,
  and its data connection ends up spliced to the target.\<close>

theorem dial_reaches_peer:
  assumes "relay_ready cp cfg env tids (re_username relay)"
    and "relay = endpoint_from_secret (cr_hmac cp) (cr_b64 cp) now addr (tc_secret cfg) ttl suffix realm"
    and "length octets = 4" and "rw_step w = 0" and "rw_pending w = Some m"
    and "ev_clock env 2 < ev_clock env 1 + 3600"
    and "ev_clock env 3 < ev_clock env 2 + tc_lifetime cfg"
  shows "\<exists>w' cid. dial_via_relay (relay_link cp chk cfg env) (relay_conn env) (cr_hmac cp) (cr_md5 cp) tids
      relay (V4 octets port) w = (w', Inr cid) \<and> rw_ends w' 1 = Some (Spliced (V4 octets port))"
proof -
  let ?u = "re_username relay" and ?net = "relay_link cp chk cfg env"
  let ?step = "\<lambda>cn. dial_step ?net (cr_hmac cp) (cr_md5 cp) tids cn 3600"
  let ?cred = "dial_cred cp cfg env ?u"
  let ?cid = "ucast (drop_bit 32 (ev_rnd env 3)) :: u32"
  have secs: "re_lifetime_seconds relay = 3600"
    and pw: "re_password relay = rest_password cp (tc_secret cfg) ?u"
    using assms(2) by (simp_all add: endpoint_from_secret_def generate_credentials_def Let_def rest_password_def)
  define w1 where "w1 = fst (relay_conn env w 0)"
  let ?w2 = "w1\<lparr>rw_step := Suc (rw_step w1)\<rparr>"
  let ?w3 = "after_allocate env ?u 3600 ?w2"
  let ?rp = "relayed_port (ev_rnd env 1)"
  let ?w4 = "after_permission cfg env ?u ?rp octets ?w3"
  let ?w5 = "after_connect cfg env ?u ?rp (V4 octets port) octets ?w4"
  define w6 where "w6 = fst (relay_conn env ?w5 1)"
  have pos: "(0 :: u32) < 3600" by simp
  have conn: "relay_conn env w 0 = (w1, Inr ())" "relay_conn env ?w5 1 = (w6, Inr ())"
    by (simp_all add: w1_def w6_def relay_conn_def)
  have steps: "rw_step ?w2 = 1" "rw_step ?w3 = 2" "rw_step ?w4 = 3" "rw_pending ?w4 = Some m"
    using assms(4,5) by (simp_all add: w1_def relay_conn_def after_allocate_def after_permission_def)
  have sess: "rw_sessions w1 0 = new_turn_session (ev_nonce env 0)"
    "rw_sessions ?w2 0 = new_turn_session (ev_nonce env 0)"
    "rw_sessions ?w3 0 = session_with (ev_nonce env 0) ?u ?rp
      \<lparr>al_permissions = [], al_connections = [], al_deadline = ev_clock env 1 + 3600\<rparr>"
    by (simp_all add: w1_def relay_conn_def after_allocate_def assms(4))
  have sess4: "rw_sessions ?w4 0 = session_with (ev_nonce env 0) ?u ?rp
      \<lparr>al_permissions = [octets], al_connections = [], al_deadline = ev_clock env 2 + tc_lifetime cfg\<rparr>"
    by (simp add: after_permission_def steps(2) del: One_nat_def)
  have times: "ev_clock env (rw_step ?w3) < ev_clock env 1 + 3600"
    "ev_clock env (rw_step ?w4) < ev_clock env 2 + tc_lifetime cfg"
    unfolding steps by (rule assms(6), rule assms(7))
  have ch: "challenge ?net (cr_hmac cp) 0 3600 (tids 0)
      \<lparr>cs_username = ?u, cs_password = re_password relay, cs_realm = re_realm relay, cs_nonce = []\<rparr> w1 =
      (?w2, Inr ?cred)"
    by (rule challenge_link [OF assms(1) pos sess(1)]) (simp_all add: pw)
  obtain i3 where s3: "?step 0 ''allocate'' (allocate_request 3600) (1, ?cred, ?w2) =
      ((Suc 1, ?cred, ?w3), Inr i3)"
    using dial_allocate [OF assms(1) pos sess(2), of chk "''allocate''" 1] by blast
  obtain i4 where s4: "?step 0 ''create-permission'' (peer_request CreatePermission (V4 octets port))
      (Suc 1, ?cred, ?w3) = ((Suc (Suc 1), ?cred, ?w4), Inr i4)"
    using dial_permission [OF assms(1,3) sess(3) times(1), of chk 3600 "''create-permission''" port "Suc 1"]
    by blast
  obtain i5 where s5: "?step 0 ''connect'' (peer_request Connect (V4 octets port)) (Suc (Suc 1), ?cred, ?w4) =
      ((Suc (Suc (Suc 1)), ?cred, ?w5), Inr i5)" and cid: "connection_id i5 = Some ?cid"
    using dial_connect [OF assms(1,3) sess4 steps(4) times(2), of chk 3600 "''connect''" port "Suc (Suc 1)"]
    unfolding steps by blast
  have "rw_pending w6 = Some (hput ?cid (V4 octets port) m)"
    using steps(3,4) by (simp add: w6_def relay_conn_def after_connect_def)
  from dial_bind [OF assms(1) this, of ?cid "V4 octets port" chk 3600 "''connection-bind''" "Suc (Suc (Suc 1))"]
  obtain w7 i7 n7 where s7: "?step 1 ''connection-bind'' (bind_request ?cid) (Suc (Suc (Suc 1)), ?cred, w6) =
      ((n7, ?cred, w7), Inr i7)" and e: "rw_ends w7 1 = Some (Spliced (V4 octets port))"
    by auto
  have "dial_via_relay ?net (relay_conn env) (cr_hmac cp) (cr_md5 cp) tids relay (V4 octets port) w = (w7, Inr ?cid)"
    using conn ch s3 s4 s5 cid s7 by (simp add: dial_via_relay_def secs)
  then show ?thesis using e by blast
qed

text \<open>Probing the server needs no credentials and yields the caller's reflexive address: the
  client's IPv4 address and port as the server sees them; an IPv6 client gets no address.\<close>

theorem probe_reflexive:
  assumes "length tid = 12" and "\<forall>octets port. ev_client env = V4 octets port \<longrightarrow> length octets = 4"
  shows "snd (probe (relay_link cp chk cfg env) (relay_conn env) (cr_hmac cp) tid w) =
    Inr (case ev_client env of V4 octets port \<Rightarrow> Some (V4 octets port) | V6 octets port \<Rightarrow> None)"
proof -
  let ?m = "message_new Binding Request tid" and ?peer = "ev_client env"
  let ?raw = "encode (cr_hmac cp) None ?m"
  let ?resp = "push_xor_address XorPeerAddress ?peer
    (push_xor_address XorMappedAddress ?peer (message_new Binding SuccessResponse tid))"
  have dec: "incoming_decode ?raw = Inr (incoming_of ?m)"
    using small_wire_ok [OF small_new [OF assms(1)]] by (intro decode_unsigned) simp
  have raw: "length ?raw = 20" "?raw \<noteq> []"
    using length_encode_unsigned [of ?m "cr_hmac cp"] assms(1) by (auto simp: message_new_def)
  define w1 where "w1 = fst (relay_conn env w 0)"
  have "turn_step cp chk cfg ?peer (env_input env (rw_step w1) ?raw) (rw_sessions w1 0) (rw_pending w1) =
      Continue (retain_live (ev_clock env (rw_step w1)) (rw_sessions w1 0)) (rw_pending w1)
        (Some (encode (cr_hmac cp) None ?resp))"
    using dec raw
    by (simp add: turn_step_def env_input_def incoming_of_def message_new_def binding_resp_def Let_def)
  from relay_link_Continue [OF this]
  have link: "snd (relay_link cp chk cfg env w1 0 ?raw) = Inr (encode (cr_hmac cp) None ?resp)"
    by simp
  have small: "small 78 ?resp"
    unfolding push_xor_address_def
    by (rule small_mono [OF small_push [OF small_push [OF small_new [OF assms(1)]]]])
      (use length_xor_address_bytes [of ?peer tid] assms(1) in simp)
  then have "incoming_decode (encode (cr_hmac cp) None ?resp) = Inr (incoming_of ?resp)"
    using small_wire_ok by (intro decode_unsigned) simp
  moreover have "length (encode (cr_hmac cp) None ?resp) \<le> 1024"
    using small length_encode_unsigned [of ?resp "cr_hmac cp"] by (simp add: small_def)
  ultimately have dec2: "incoming_decode (take 1024 (encode (cr_hmac cp) None ?resp)) = Inr (incoming_of ?resp)"
    by simp
  have attrs: "st_attrs ?resp = [(attr_code XorMappedAddress, xor_address_bytes ?peer tid),
      (attr_code XorPeerAddress, xor_address_bytes ?peer tid)]"
    by (simp add: push_xor_address_def push_attr_def message_new_def)
  have addr: "xor_address (incoming_of ?resp) a =
      (case ?peer of V4 octets port \<Rightarrow> Some (V4 octets port) | V6 octets port \<Rightarrow> None)"
    if "a = XorMappedAddress \<or> a = XorPeerAddress" for a
  proof -
    have "find_attr (incoming_of ?resp) a = Some (xor_address_bytes ?peer tid)"
      using that by (auto simp: find_attr_def incoming_of_def attrs)
    then show ?thesis
      using assms(2) decode_xor_address_v4 [of ?peer tid] decode_xor_address_v6
      by (cases ?peer) (auto simp: xor_address_def)
  qed
  have kind: "in_tid (incoming_of ?resp) = tid" "in_method (incoming_of ?resp) = Binding"
    "in_class (incoming_of ?resp) = SuccessResponse"
    by (simp_all add: incoming_of_def push_xor_address_def push_attr_def message_new_def)
  have "relay_conn env w 0 = (w1, Inr ())" by (simp add: w1_def relay_conn_def)
  moreover obtain w2 where "relay_link cp chk cfg env w1 0 ?raw = (w2, Inr (encode (cr_hmac cp) None ?resp))"
    using link by (metis prod.collapse)
  ultimately show ?thesis
    using dec2 kind addr [of XorMappedAddress] addr [of XorPeerAddress]
    by (simp add: probe_def split: SocketAddr.splits)
qed

section \<open>Witnesses\<close>

definition link_env :: RelayEnv where
  "link_env =
     \<lparr>ev_clock = (\<lambda>k. k), ev_rnd = (\<lambda>k. 0x500000007), ev_nonce = (\<lambda>_. ''n''),
      ev_client = V4 [1, 1, 1, 1] 5\<rparr>"

definition sample_tids :: "nat \<Rightarrow> bytes" where
  "sample_tids n = replicate 12 (word_of_nat n)"

definition sample_relay :: RelayEndpoint where
  "sample_relay = endpoint_from_secret (cr_hmac sample_crypto) (cr_b64 sample_crypto) 10 ''relay:3478''
     (tc_secret sample_config) 60 ''pc'' []"

definition sample_world :: RelayWorld where
  "sample_world =
     \<lparr>rw_sessions = (\<lambda>_. new_turn_session []), rw_ends = (\<lambda>_. None), rw_pending = Some [], rw_step = 0\<rparr>"

theorem dial_reaches_peer_witness:
  "\<exists>w' cid. dial_via_relay (relay_link sample_crypto True sample_config link_env) (relay_conn link_env)
     (cr_hmac sample_crypto) (cr_md5 sample_crypto) sample_tids sample_relay (V4 [10, 0, 0, 2] 53317) sample_world =
     (w', Inr cid) \<and> rw_ends w' 1 = Some (Spliced (V4 [10, 0, 0, 2] 53317))"
proof -
  have "valid_utf8 (as_bytes (re_username sample_relay)) \<and> length (re_username sample_relay) \<le> 1000 \<and>
      valid_utf8 (as_bytes (tc_realm sample_config)) \<and> length (tc_realm sample_config) \<le> 1000 \<and>
      valid_utf8 (as_bytes (ev_nonce link_env 0)) \<and> length (ev_nonce link_env 0) \<le> 1000"
    by code_simp
  then have "relay_ready sample_crypto sample_config link_env sample_tids (re_username sample_relay)"
    by (simp add: relay_ready_def sample_tids_def)
  from dial_reaches_peer [OF this sample_relay_def, of "[10, 0, 0, 2]" sample_world "[]" True 53317]
  show ?thesis
    by (simp add: sample_world_def link_env_def sample_config_def turn_default_def)
qed

theorem probe_reflexive_witness:
  "snd (probe (relay_link sample_crypto True sample_config link_env) (relay_conn link_env)
     (cr_hmac sample_crypto) (sample_tids 0) sample_world) = Inr (Some (V4 [1, 1, 1, 1] 5))"
  using probe_reflexive [of "sample_tids 0" link_env sample_crypto True sample_config sample_world]
  by (simp add: sample_tids_def link_env_def)

end
