(* ===== verification/Relay_Bridge.thy ===== *)
theory Relay_Bridge
  imports Prelude Std_Str
begin

text \<open>
  The bidirectional relay bridge: \<open>handle_bridge\<close> of \<open>src/rust/core/src/relay/turn_server.rs\<close> and
  its client \<open>dial_bridge\<close> of \<open>src/rust/core/src/handle.rs\<close>.

  Each \<open>LISTEN\<close> connection makes a channel of capacity one, numbered in order; the registry maps a
  fingerprint to the channel whose sender it holds.  A listener task waits on its channel until a
  stream arrives or every sender is dropped.  The tasks interleave at their \<open>await\<close> points, which
  are the events of \<open>bridge_handle\<close>: registering, looking a target up (which clones the sender),
  sending the stream through the clone, and the wake-up of a listener.
  \<open>br_fp\<close> and \<open>br_asked\<close> record which fingerprint a channel and a connection named; no operation
  reads them.
\<close>

section \<open>The header line\<close>

datatype BridgeCmd = BListen string | BConnect string

definition parse_bridge :: "bytes \<Rightarrow> string + BridgeCmd" where
  "parse_bridge buf =
     (let line = (case str_lines (from_utf8_lossy (take 256 buf)) of [] \<Rightarrow> [] | l # _ \<Rightarrow> l);
          parts = split_whitespace line in
      if length parts < 3 \<or> parts ! 0 \<noteq> ''BRIDGE'' then Inl ''bad bridge header''
      else if parts ! 1 = ''LISTEN'' then Inr (BListen (parts ! 2))
      else if parts ! 1 = ''CONNECT'' then Inr (BConnect (parts ! 2))
      else Inl ''unknown bridge command'')"

section \<open>The registry and its tasks\<close>

record Bridge =
  br_registry :: "(string, nat) hashmap"
  br_waiting :: "(nat, string) hashmap"
  br_inflight :: "(nat, nat) hashmap"
  br_queue :: "(nat, nat) hashmap"
  br_next :: nat
  br_spliced :: "(nat \<times> nat) list"
  br_fp :: "(nat, string) hashmap"
  br_asked :: "(nat, string) hashmap"

definition new_bridge :: Bridge where
  "new_bridge =
     \<lparr>br_registry = [], br_waiting = [], br_inflight = [], br_queue = [], br_next = 0,
      br_spliced = [], br_fp = [], br_asked = []\<rparr>"

datatype BridgeEvent = EvListen string | EvConnect nat string | EvSend nat | EvWake nat

datatype BridgeReply = BOk | BNotFound | BNone

fun reply_bytes :: "BridgeReply \<Rightarrow> bytes" where
  "reply_bytes BOk = as_bytes (''BRIDGE OK'' @ [lf])"
| "reply_bytes BNotFound = as_bytes (''BRIDGE NOT_FOUND'' @ [lf])"
| "reply_bytes BNone = []"

definition bridge_listen :: "string \<Rightarrow> Bridge \<Rightarrow> Bridge" where
  "bridge_listen fp b =
     (let c = br_next b in
      b\<lparr>br_registry := hput fp c (br_registry b), br_waiting := hput c fp (br_waiting b),
        br_next := Suc c, br_fp := hput c fp (br_fp b)\<rparr>)"

definition bridge_connect :: "nat \<Rightarrow> string \<Rightarrow> Bridge \<Rightarrow> Bridge \<times> BridgeReply" where
  "bridge_connect conn target b =
     (case hget (br_registry b) target of
        None \<Rightarrow> (b, BNotFound)
      | Some c \<Rightarrow> (b\<lparr>br_inflight := hput conn c (br_inflight b),
                      br_asked := hput conn target (br_asked b)\<rparr>, BOk))"

text \<open>\<open>tx.send(stream)\<close>: waits while the channel is full, fails when the listener is gone.\<close>

definition bridge_send :: "nat \<Rightarrow> Bridge \<Rightarrow> Bridge" where
  "bridge_send conn b =
     (case hget (br_inflight b) conn of
        None \<Rightarrow> b
      | Some c \<Rightarrow>
          if hget (br_waiting b) c = None then b\<lparr>br_inflight := hdel conn (br_inflight b)\<rparr>
          else if hget (br_queue b) c \<noteq> None then b
          else b\<lparr>br_inflight := hdel conn (br_inflight b), br_queue := hput c conn (br_queue b)\<rparr>)"

text \<open>Every sender of the channel is dropped.\<close>

definition closed_channel :: "nat \<Rightarrow> Bridge \<Rightarrow> bool" where
  "closed_channel c b \<longleftrightarrow> c \<notin> set (hvals (br_registry b)) \<and> c \<notin> set (hvals (br_inflight b))"

text \<open>\<open>rx.recv()\<close> returns: a stream is spliced, or the listener gives up; both remove the
  registry entry of the fingerprint.\<close>

definition bridge_wake :: "nat \<Rightarrow> Bridge \<Rightarrow> Bridge" where
  "bridge_wake c b =
     (case hget (br_waiting b) c of
        None \<Rightarrow> b
      | Some fp \<Rightarrow>
          (case hget (br_queue b) c of
             Some conn \<Rightarrow>
               b\<lparr>br_registry := hdel fp (br_registry b), br_waiting := hdel c (br_waiting b),
                 br_queue := hdel c (br_queue b), br_spliced := br_spliced b @ [(c, conn)]\<rparr>
           | None \<Rightarrow>
               if closed_channel c b
               then b\<lparr>br_registry := hdel fp (br_registry b), br_waiting := hdel c (br_waiting b)\<rparr>
               else b))"

fun bridge_handle :: "Bridge \<Rightarrow> BridgeEvent \<Rightarrow> Bridge \<times> BridgeReply" where
  "bridge_handle b (EvListen fp) = (bridge_listen fp b, BNone)"
| "bridge_handle b (EvConnect conn target) = bridge_connect conn target b"
| "bridge_handle b (EvSend conn) = (bridge_send conn b, BNone)"
| "bridge_handle b (EvWake c) = (bridge_wake c b, BNone)"

section \<open>The client\<close>

definition bridge_header :: "string \<Rightarrow> string \<Rightarrow> bytes" where
  "bridge_header verb fp = as_bytes (''BRIDGE '' @ verb @ '' '' @ fp @ [lf])"

text \<open>The messages of the last two errors are \<open>bridge: target not listening\<close> and
  \<open>bridge: unexpected response\<close> followed by the text received.\<close>

datatype BridgeError = TargetNotListening | UnexpectedResponse string

definition bridge_response :: "bytes \<Rightarrow> BridgeError + unit" where
  "bridge_response recvd =
     (let resp = take 64 recvd; n = length resp in
      if take (min n 9) resp = as_bytes ''BRIDGE OK'' then Inr ()
      else if take (min n 17) resp = as_bytes ''BRIDGE NOT_FOUND''
        then Inl TargetNotListening
      else Inl (UnexpectedResponse (from_utf8_lossy resp)))"

section \<open>Invariant\<close>

text \<open>A channel and a connection that named the same fingerprint.\<close>

definition agree :: "Bridge \<Rightarrow> nat \<Rightarrow> nat \<Rightarrow> bool" where
  "agree b c conn \<longleftrightarrow>
     c < br_next b \<and> (\<exists>fp. hget (br_fp b) c = Some fp \<and> hget (br_asked b) conn = Some fp)"

definition named :: "Bridge \<Rightarrow> nat \<Rightarrow> string \<Rightarrow> bool" where
  "named b c fp \<longleftrightarrow> c < br_next b \<and> hget (br_fp b) c = Some fp"

definition bridge_inv :: "Bridge \<Rightarrow> bool" where
  "bridge_inv b \<longleftrightarrow>
     hwf (br_registry b) \<and> hwf (br_inflight b) \<and>
     (\<forall>fp c. hget (br_registry b) fp = Some c \<longrightarrow> named b c fp) \<and>
     (\<forall>c fp. hget (br_waiting b) c = Some fp \<longrightarrow> named b c fp) \<and>
     (\<forall>conn c. hget (br_inflight b) conn = Some c \<longrightarrow> agree b c conn) \<and>
     (\<forall>c conn. hget (br_queue b) c = Some conn \<longrightarrow> agree b c conn) \<and>
     (\<forall>(c, conn) \<in> set (br_spliced b). agree b c conn)"

text \<open>A connection asks once: it is not used again while or after it was handed on.\<close>

definition fresh_conn :: "Bridge \<Rightarrow> BridgeEvent \<Rightarrow> bool" where
  "fresh_conn b e \<longleftrightarrow>
     (case e of EvConnect conn target \<Rightarrow> hget (br_asked b) conn = None \<and>
        conn \<notin> set (hvals (br_queue b)) \<and> conn \<notin> snd ` set (br_spliced b) | _ \<Rightarrow> True)"

lemma bridge_inv_listen:
  assumes "bridge_inv b"
  shows "bridge_inv (bridge_listen fp b)"
proof -
  let ?b = "bridge_listen fp b"
  have "agree ?b c conn" if "agree b c conn" for c conn
    using that by (auto simp: agree_def bridge_listen_def Let_def)
  moreover have "named ?b c x" if "named b c x" for c x
    using that by (auto simp: named_def bridge_listen_def Let_def)
  moreover have "named ?b (br_next b) fp" by (simp add: named_def bridge_listen_def Let_def)
  ultimately show ?thesis
    using assms unfolding bridge_inv_def by (auto simp: bridge_listen_def Let_def split: if_splits)
qed

lemma bridge_inv_connect:
  assumes "bridge_inv b" and "fresh_conn b (EvConnect conn target)"
  shows "bridge_inv (fst (bridge_connect conn target b))"
proof (cases "hget (br_registry b) target")
  case None
  then show ?thesis using assms(1) by (simp add: bridge_connect_def)
next
  case (Some c)
  let ?b = "b\<lparr>br_inflight := hput conn c (br_inflight b), br_asked := hput conn target (br_asked b)\<rparr>"
  have "agree ?b c' conn'" if "agree b c' conn'" for c' conn'
    using that assms(2) by (auto simp: agree_def fresh_conn_def)
  moreover have "named ?b c' x = named b c' x" for c' x by (simp add: named_def)
  moreover have "agree ?b c conn"
    using assms(1) Some by (auto simp: bridge_inv_def named_def agree_def)
  ultimately show ?thesis
    using assms(1) Some unfolding bridge_inv_def by (auto simp: bridge_connect_def split: if_splits)
qed

lemma agree_cong:
  "br_next b' = br_next b \<Longrightarrow> br_fp b' = br_fp b \<Longrightarrow> br_asked b' = br_asked b \<Longrightarrow>
     agree b' = agree b \<and> named b' = named b"
  by (simp add: agree_def named_def fun_eq_iff)

lemma bridge_inv_send:
  assumes "bridge_inv b"
  shows "bridge_inv (bridge_send conn b)"
proof -
  have "agree (bridge_send conn b) = agree b \<and> named (bridge_send conn b) = named b"
    by (rule agree_cong) (auto simp: bridge_send_def split: option.split)
  then show ?thesis
    using assms unfolding bridge_inv_def by (auto simp: bridge_send_def split: option.split if_splits)
qed

lemma bridge_inv_wake:
  assumes "bridge_inv b"
  shows "bridge_inv (bridge_wake c b)"
proof -
  have "agree (bridge_wake c b) = agree b \<and> named (bridge_wake c b) = named b"
    by (rule agree_cong) (auto simp: bridge_wake_def split: option.split)
  then show ?thesis
    using assms unfolding bridge_inv_def by (auto simp: bridge_wake_def split: option.split if_splits)
qed

interpretation bridge_actor: guarded_actor bridge_handle fresh_conn bridge_inv
proof unfold_locales
  fix b e assume "bridge_inv b" and "fresh_conn b e"
  then show "bridge_inv (fst (bridge_handle b e))"
    by (cases e) (simp_all add: bridge_inv_listen bridge_inv_connect bridge_inv_send bridge_inv_wake)
qed

lemma bridge_inv_new [simp]: "bridge_inv new_bridge"
  by (simp add: bridge_inv_def new_bridge_def)

lemma hput_hput: "hput k x (hput k y m) = hput k x m"
  by (induction m) auto

lemma hdel_hput: "hdel k (hput k v m) = hdel k m"
  by (induction m) (auto simp: AList.delete_eq)

section \<open>Properties\<close>


text \<open>Registering a second time loses the listener: when a device listens again under the same
  fingerprint before its first listener task has ended, the first task wakes up (its sender was
  replaced) and removes the new entry, so that the fingerprint is no longer found although the
  new listener still waits; that listener then gives up as well.\<close>

theorem second_listener_lost:
  assumes "bridge_inv b"
  shows "let b2 = bridge_listen fp (bridge_listen fp b);
      b3 = bridge_wake (br_next b) b2; b4 = bridge_wake (Suc (br_next b)) b3
    in hget (br_registry b2) fp = Some (Suc (br_next b)) \<and>
       hget (br_waiting b3) (Suc (br_next b)) = Some fp \<and>
       snd (bridge_connect conn fp b3) = BNotFound \<and> hget (br_waiting b4) (Suc (br_next b)) = None"
proof -
  let ?n = "br_next b"
  let ?b2 = "bridge_listen fp (bridge_listen fp b)"
  have reg: "v < ?n" if "v \<in> set (hvals (br_registry b))" for v
    using that assms hget_eq_Some_iff [of "br_registry b"] by (fastforce simp: bridge_inv_def named_def)
  have fly: "v < ?n" if "v \<in> set (hvals (br_inflight b))" for v
    using that assms hget_eq_Some_iff [of "br_inflight b"] by (fastforce simp: bridge_inv_def agree_def)
  have "hget (br_queue b) ?n = None" "hget (br_queue b) (Suc ?n) = None"
    using assms by (auto simp: bridge_inv_def agree_def) (metis not_Some_eq less_irrefl, metis not_Some_eq not_less_eq less_SucI)
  moreover have "set (hvals (br_registry ?b2)) \<subseteq> insert (Suc ?n) (set (hvals (br_registry b)))"
    using hvals_hput_subset [of fp "Suc ?n" "br_registry b"]
    by (simp add: bridge_listen_def Let_def hput_hput)
  then have "?n \<notin> set (hvals (br_registry ?b2))" using reg by fastforce
  moreover have "?n \<notin> set (hvals (br_inflight b))" "Suc ?n \<notin> set (hvals (br_inflight b))"
    using fly by fastforce+
  moreover have "Suc ?n \<notin> set (hvals (hdel fp (br_registry ?b2)))"
  proof -
    have "set (hvals (hdel fp m)) \<subseteq> set (hvals m)" for m :: "(string, nat) hashmap"
      by (auto simp: AList.delete_eq)
    then show ?thesis
      using reg [of "Suc ?n"] by (auto simp: bridge_listen_def Let_def hdel_hput simp del: set_map)
  qed
  ultimately show ?thesis
    by (simp add: Let_def bridge_listen_def bridge_wake_def closed_channel_def bridge_connect_def)
qed

text \<open>A sender learns of a spliced target but not of a missing one: the reply \<open>BRIDGE OK\<close> is
  recognised, while the reply the relay sends for an unknown target is 17 bytes long and is
  reported as an unexpected response, never as "target not listening".\<close>

theorem bridge_replies_classified:
  "bridge_response (reply_bytes BOk) = Inr () \<and>
   bridge_response (reply_bytes BNotFound) = Inl (UnexpectedResponse (''BRIDGE NOT_FOUND'' @ [lf])) \<and>
   bridge_response (reply_bytes BNotFound) \<noteq> Inl TargetNotListening"
proof -
  have "bridge_response (reply_bytes BNotFound) = Inl (UnexpectedResponse (''BRIDGE NOT_FOUND'' @ [lf]))"
    by code_simp
  moreover have "bridge_response (reply_bytes BOk) = Inr ()" by code_simp
  ultimately show ?thesis by simp
qed

section \<open>Witnesses\<close>

definition sample_bridge_run :: "BridgeEvent list" where
  "sample_bridge_run = [EvListen ''f1'', EvConnect 9 ''f1'', EvSend 9, EvWake 0]"


theorem second_listener_lost_witness:
  "snd (bridge_connect 5 ''f1''
     (bridge_wake 0 (bridge_listen ''f1'' (bridge_listen ''f1'' new_bridge)))) = BNotFound"
  using second_listener_lost [OF bridge_inv_new, of "''f1''" 5]
  by (simp add: Let_def new_bridge_def)

end
