(* ===== verification/Device.thy ===== *)
theory Device
  imports Model Samples
begin

text \<open>
  The device table, \<open>src/rust/core/src/device.rs\<close>, and the multicast discovery loop that feeds it,
  \<open>src/rust/core/src/discovery.rs\<close>.

  \<open>DeviceActor\<close> is the state of the actor, one equation of \<open>device_message\<close> per message.  A datagram
  is what \<open>recv_from\<close> yields: the sender's address and the payload; decoding the JSON payload is a
  parameter (\<open>parse\<close>).  What the loop spawns is an \<open>Action\<close>.
\<close>

section \<open>The device actor\<close>

record DeviceActor =
  da_current :: NodeDevice
  da_map :: "(string, NodeDevice) hashmap"
  da_notify :: "NodeDevice list watch"

datatype DeviceMessage =
    DListen
  | DAdd NodeDevice
  | DGetAll
  | DGet string
  | DClear
  | DCheckExist string
  | DGetCurrent
  | DSetCurrent NodeDevice

datatype DeviceReply =
    DRListen (dr_listen: "NodeDevice list watch")
  | DRUnit
  | DRAll (dr_all: "(string, NodeDevice) hashmap")
  | DROpt (dr_opt: "NodeDevice option")
  | DRBool (dr_bool: bool)
  | DRDev (dr_dev: NodeDevice)

definition new_device_actor :: "NodeDevice \<Rightarrow> DeviceActor" where
  "new_device_actor current = \<lparr>da_current = current, da_map = [], da_notify = watch_channel []\<rparr>"

definition notify_change :: "DeviceActor \<Rightarrow> DeviceActor" where
  "notify_change a = a\<lparr>da_notify := watch_send (hvals (da_map a)) (da_notify a)\<rparr>"

definition same_rendered_device :: "NodeDevice \<Rightarrow> NodeDevice \<Rightarrow> bool" where
  "same_rendered_device a b \<longleftrightarrow>
     nd_fingerprint a = nd_fingerprint b \<and> nd_alias a = nd_alias b \<and> nd_address a = nd_address b \<and>
     nd_port a = nd_port b \<and> nd_protocol a = nd_protocol b \<and>
     nd_device_model a = nd_device_model b \<and> nd_device_type a = nd_device_type b"

definition on_add :: "NodeDevice \<Rightarrow> DeviceActor \<Rightarrow> DeviceActor" where
  "on_add d a =
     (let unchanged = (case hget (da_map a) (nd_fingerprint d) of
                         None \<Rightarrow> False | Some old \<Rightarrow> same_rendered_device old d);
          a1 = a\<lparr>da_map := hput (nd_fingerprint d) d (da_map a)\<rparr>
      in if unchanged then a1 else notify_change a1)"

definition on_get :: "string \<Rightarrow> DeviceActor \<Rightarrow> NodeDevice option" where
  "on_get fp a =
     (if nd_fingerprint (da_current a) = fp then Some (da_current a) else hget (da_map a) fp)"

definition on_check_exist :: "string \<Rightarrow> DeviceActor \<Rightarrow> bool" where
  "on_check_exist fp a \<longleftrightarrow> nd_fingerprint (da_current a) = fp \<or> hget (da_map a) fp \<noteq> None"

fun device_message :: "DeviceActor \<Rightarrow> DeviceMessage \<Rightarrow> DeviceActor \<times> DeviceReply" where
  "device_message a (DAdd d) = (on_add d a, DRUnit)"
| "device_message a (DGet fp) = (a, DROpt (on_get fp a))"
| "device_message a DGetAll = (a, DRAll (da_map a))"
| "device_message a (DCheckExist fp) = (a, DRBool (on_check_exist fp a))"
| "device_message a DGetCurrent = (a, DRDev (da_current a))"
| "device_message a (DSetCurrent d) = (a\<lparr>da_current := d\<rparr>, DRUnit)"
| "device_message a DListen = (a, DRListen (da_notify a))"
| "device_message a DClear = (notify_change (a\<lparr>da_map := []\<rparr>), DRUnit)"

definition run_device_actor :: "DeviceActor \<Rightarrow> DeviceMessage list \<Rightarrow> DeviceActor \<times> DeviceReply list" where
  "run_device_actor = run_actor device_message"

text \<open>The methods of \<open>DeviceActorHandle\<close>.\<close>

definition dev_listen :: "DeviceActor \<Rightarrow> NodeDevice list watch" where
  "dev_listen a = dr_listen (snd (device_message a DListen))"

definition clear_devices :: "DeviceActor \<Rightarrow> DeviceActor" where
  "clear_devices a = fst (device_message a DClear)"

definition add_node_device :: "NodeDevice \<Rightarrow> DeviceActor \<Rightarrow> DeviceActor" where
  "add_node_device d a = fst (device_message a (DAdd d))"

definition get_device_map :: "DeviceActor \<Rightarrow> (string, NodeDevice) hashmap" where
  "get_device_map a = dr_all (snd (device_message a DGetAll))"

definition get_device :: "string \<Rightarrow> DeviceActor \<Rightarrow> NodeDevice option" where
  "get_device fp a = dr_opt (snd (device_message a (DGet fp)))"

definition check_device_exist :: "string \<Rightarrow> DeviceActor \<Rightarrow> bool" where
  "check_device_exist fp a = dr_bool (snd (device_message a (DCheckExist fp)))"

definition set_current_device :: "NodeDevice \<Rightarrow> DeviceActor \<Rightarrow> DeviceActor" where
  "set_current_device d a = fst (device_message a (DSetCurrent d))"

definition get_current_device :: "DeviceActor \<Rightarrow> NodeDevice" where
  "get_current_device a = dr_dev (snd (device_message a DGetCurrent))"

section \<open>The discovery loop\<close>

datatype Action = NoAction | RegisterTo NodeDevice | AnnounceSelf NodeAnnounce

record Datagram =
  dg_from :: string
  dg_payload :: bytes

text \<open>One received datagram.\<close>

definition udp_step :: "(string \<Rightarrow> NodeAnnounce option) \<Rightarrow> DeviceActor \<Rightarrow> Datagram \<Rightarrow> DeviceActor \<times> Action" where
  "udp_step parse a dg =
     (let current = get_current_device a in
      if dg_from dg = nd_address current then (a, NoAction)
      else case parse (from_utf8_lossy (take 2048 (dg_payload dg))) of
        None \<Rightarrow> (a, NoAction)
      | Some ann \<Rightarrow>
          let device = (from_announce ann (dg_from dg))\<lparr>nd_discovery_source := ''lan''\<rparr>;
              exist = check_device_exist (nd_fingerprint device) a in
          if nd_fingerprint current = nd_fingerprint device then (a, NoAction)
          else if exist then
            (a, if eq_ignore_ascii_case (nd_protocol device) ''https'' then NoAction
                else RegisterTo device)
          else (add_node_device device a, AnnounceSelf (to_announce current)))"

definition run_udp_actor ::
  "(string \<Rightarrow> NodeAnnounce option) \<Rightarrow> DeviceActor \<Rightarrow> Datagram list \<Rightarrow> DeviceActor \<times> Action list" where
  "run_udp_actor parse = run_actor (udp_step parse)"

section \<open>The table as an interface\<close>

text \<open>What the discovery loop and the relay merge rely on.\<close>

locale device_registry =
  fixes get :: "string \<Rightarrow> 's \<Rightarrow> NodeDevice option"
    and exist :: "string \<Rightarrow> 's \<Rightarrow> bool"
    and add :: "NodeDevice \<Rightarrow> 's \<Rightarrow> 's"
    and self :: "'s \<Rightarrow> NodeDevice"
  assumes self_add: "self (add d s) = self s"
    and get_self: "get (nd_fingerprint (self s)) s = Some (self s)"
    and get_add: "fp \<noteq> nd_fingerprint (self s) \<Longrightarrow>
      get fp (add d s) = (if fp = nd_fingerprint d then Some d else get fp s)"
    and exist_get: "exist fp s \<longleftrightarrow> get fp s \<noteq> None"
begin

lemma add_known: "exist (nd_fingerprint d) (add d s)"
  by (cases "nd_fingerprint d = nd_fingerprint (self s)")
    (simp_all add: exist_get get_add, metis get_self self_add option.distinct(1))

lemma add_keeps: "exist fp s \<Longrightarrow> exist fp (add d s)"
  by (cases "fp = nd_fingerprint (self s)")
    (simp_all add: exist_get get_add, metis get_self self_add option.distinct(1))

lemma add_self_hidden: "nd_fingerprint d = nd_fingerprint (self s) \<Longrightarrow>
    get (nd_fingerprint d) (add d s) = Some (self s)"
  by (metis get_self self_add)

end

lemma on_add_simps [simp]:
  "da_current (on_add d a) = da_current a"
  "da_map (on_add d a) = hput (nd_fingerprint d) d (da_map a)"
  by (simp_all add: on_add_def Let_def notify_change_def)

interpretation devices: device_registry get_device check_device_exist add_node_device get_current_device
  by unfold_locales
    (auto simp: get_device_def check_device_exist_def add_node_device_def get_current_device_def
      on_get_def on_check_exist_def)

section \<open>Lemmas\<close>

text \<open>The fields the list renders.\<close>

definition rendered :: "NodeDevice \<Rightarrow> string \<times> string \<times> string \<times> u16 \<times> string \<times> string \<times> string" where
  "rendered d = (nd_fingerprint d, nd_alias d, nd_address d, nd_port d, nd_protocol d,
     nd_device_model d, nd_device_type d)"

lemma same_rendered_iff: "same_rendered_device a b \<longleftrightarrow> rendered a = rendered b"
  by (auto simp: same_rendered_device_def rendered_def)

definition table_ok :: "DeviceActor \<Rightarrow> bool" where
  "table_ok a \<longleftrightarrow> (\<forall>fp d. hget (da_map a) fp = Some d \<longrightarrow> nd_fingerprint d = fp)"

definition published :: "DeviceActor \<Rightarrow> bool" where
  "published a \<longleftrightarrow> map rendered (watch_borrow (da_notify a)) = map rendered (hvals (da_map a))"

lemma map_hput_same:
  "hget m k = Some w \<Longrightarrow> f v = f w \<Longrightarrow> map f (hvals (hput k v m)) = map f (hvals m)"
  by (induction m) auto

lemma table_ok_message: "table_ok a \<Longrightarrow> table_ok (fst (device_message a m))"
  by (cases m) (auto simp: table_ok_def notify_change_def)

lemma published_message: "published a \<Longrightarrow> published (fst (device_message a m))"
proof (cases m)
  case (DAdd d)
  assume a: "published a"
  show ?thesis
  proof (cases "hget (da_map a) (nd_fingerprint d)")
    case None
    then show ?thesis by (simp add: DAdd on_add_def published_def notify_change_def)
  next
    case (Some old)
    then show ?thesis
      using a map_hput_same [OF Some, of rendered d]
      by (simp add: DAdd on_add_def published_def notify_change_def same_rendered_iff Let_def)
  qed
qed (simp_all add: published_def notify_change_def)

interpretation table_actor: actor_invariant device_message "\<lambda>a. table_ok a \<and> published a"
  by unfold_locales (auto intro: table_ok_message published_message)

lemma new_device_actor_ok [simp]: "table_ok (new_device_actor d)" "published (new_device_actor d)"
  by (simp_all add: table_ok_def published_def new_device_actor_def)

text \<open>What a discovered device looks like.\<close>

definition discovered :: "NodeAnnounce \<Rightarrow> string \<Rightarrow> NodeDevice" where
  "discovered ann addr = (from_announce ann addr)\<lparr>nd_discovery_source := ''lan''\<rparr>"

lemma udp_step_cases:
  assumes "dg_from dg \<noteq> nd_address (da_current a)"
    and "parse (from_utf8_lossy (take 2048 (dg_payload dg))) = Some ann"
  shows "udp_step parse a dg =
    (if na_fingerprint ann = nd_fingerprint (da_current a) then (a, NoAction)
     else if hget (da_map a) (na_fingerprint ann) \<noteq> None then
       (a, if eq_ignore_ascii_case (na_protocol ann) ''https'' then NoAction
           else RegisterTo (discovered ann (dg_from dg)))
     else (on_add (discovered ann (dg_from dg)) a, AnnounceSelf (to_announce (da_current a))))"
  using assms
  by (auto simp: udp_step_def Let_def get_current_device_def check_device_exist_def on_check_exist_def
      add_node_device_def discovered_def from_announce_def)

text \<open>A later state of the table: the same device, and every known peer unchanged.\<close>

definition table_le :: "DeviceActor \<Rightarrow> DeviceActor \<Rightarrow> bool" where
  "table_le a b \<longleftrightarrow> da_current b = da_current a \<and>
     (\<forall>fp d. hget (da_map a) fp = Some d \<longrightarrow> hget (da_map b) fp = Some d) \<and>
     (hget (da_map a) (nd_fingerprint (da_current a)) = None \<longrightarrow>
        hget (da_map b) (nd_fingerprint (da_current a)) = None)"

lemma udp_step_le: "table_le a (fst (udp_step parse a dg))"
proof (cases "dg_from dg = nd_address (da_current a)")
  case True
  then show ?thesis by (simp add: udp_step_def get_current_device_def table_le_def)
next
  case False
  show ?thesis
  proof (cases "parse (from_utf8_lossy (take 2048 (dg_payload dg)))")
    case None
    then show ?thesis using False by (simp add: udp_step_def get_current_device_def table_le_def)
  next
    case (Some ann)
    then show ?thesis
      using udp_step_cases [of dg a parse ann, OF False Some] by (auto simp: table_le_def discovered_def from_announce_def)
  qed
qed

interpretation discovery_order: actor_order "udp_step parse" table_le for parse
  by unfold_locales (auto simp: table_le_def udp_step_le [unfolded table_le_def])

lemma udp_step_known:
  assumes "dg_from dg \<noteq> nd_address (da_current a)"
    and "parse (from_utf8_lossy (take 2048 (dg_payload dg))) = Some ann"
    and "na_fingerprint ann \<noteq> nd_fingerprint (da_current a)"
  shows "\<exists>d. hget (da_map (fst (udp_step parse a dg))) (na_fingerprint ann) = Some d"
  using udp_step_cases [of dg a parse ann, OF assms(1,2)] assms(3) by (auto simp: discovered_def from_announce_def)

section \<open>Properties\<close>

text \<open>In every reachable state of the device actor the list it published last shows, field by
  rendered field, the devices of its table, and each device is filed under its own fingerprint.\<close>

theorem device_list_published:
  assumes "reachable device_message (\<lambda>_ _. True) (new_device_actor self) a"
  shows "map rendered (watch_borrow (dev_listen a)) = map rendered (hvals (get_device_map a)) \<and>
    (\<forall>fp d. hget (get_device_map a) fp = Some d \<longrightarrow> nd_fingerprint d = fp)"
proof -
  have "table_ok a \<and> published a"
    by (rule table_actor.reachable_inv [OF assms]) simp
  then show ?thesis
    by (simp add: table_ok_def published_def dev_listen_def get_device_map_def)
qed

lemma run_udp_le: "table_le a (fst (run_udp_actor parse a dgs))"
  unfolding run_udp_actor_def by (rule discovery_order.le_run)

lemma run_udp_known:
  assumes "dg \<in> set dgs" "dg_from dg \<noteq> nd_address (da_current a)"
    "parse (from_utf8_lossy (take 2048 (dg_payload dg))) = Some ann"
  shows "check_device_exist (na_fingerprint ann) (fst (run_udp_actor parse a dgs))"
  using assms
proof (induction dgs arbitrary: a)
  case Nil
  then show ?case by simp
next
  case (Cons x dgs)
  let ?b = "\<lambda>a dgs. fst (run_udp_actor parse a dgs)"
  let ?a1 = "fst (udp_step parse a x)"
  note le = run_udp_le [of ?a1 parse dgs]
  have run: "?b a (x # dgs) = ?b ?a1 dgs" by (simp add: run_udp_actor_def)
  have cur: "da_current ?a1 = da_current a" using udp_step_le by (auto simp: table_le_def)
  show ?case
  proof (cases "dg = x")
    case True
    have "hget (da_map (?b ?a1 dgs)) (na_fingerprint ann) \<noteq> None"
      if "na_fingerprint ann \<noteq> nd_fingerprint (da_current a)"
      using udp_step_known [of x a parse ann] that Cons.prems True le
      unfolding table_le_def by (metis option.distinct(1))
    then show ?thesis
      using le cur run by (simp add: check_device_exist_def on_check_exist_def table_le_def) metis
  next
    case False
    then show ?thesis using Cons run cur by simp
  qed
qed

text \<open>Discovery only ever adds: over any sequence of datagrams, no known device is changed or
  lost, the device itself is never entered, and every other device whose announcement arrived
  from a foreign address is known at the end.\<close>

theorem discovery_collects_peers:
  shows "let b = fst (run_udp_actor parse a dgs) in
    da_current b = da_current a \<and>
    (\<forall>fp d. hget (da_map a) fp = Some d \<longrightarrow> hget (da_map b) fp = Some d) \<and>
    (hget (da_map a) (nd_fingerprint (da_current a)) = None \<longrightarrow>
       hget (da_map b) (nd_fingerprint (da_current a)) = None) \<and>
    (\<forall>dg \<in> set dgs. \<forall>ann. dg_from dg \<noteq> nd_address (da_current a) \<longrightarrow>
       parse (from_utf8_lossy (take 2048 (dg_payload dg))) = Some ann \<longrightarrow>
       check_device_exist (na_fingerprint ann) b)"
  using run_udp_le [of a parse dgs] run_udp_known [of _ dgs a parse] by (simp add: table_le_def Let_def)

text \<open>What one announcement does: a new peer is entered with its announced data, the address the
  datagram came from and the source \<open>lan\<close>, and is greeted with an announcement; a known peer is
  left as it is and registered with unless it speaks HTTPS; the own announcement is ignored.\<close>

theorem announcement_handled:
  assumes "dg_from dg \<noteq> nd_address (get_current_device a)"
    and "parse (from_utf8_lossy (take 2048 (dg_payload dg))) = Some ann"
    and "nd_fingerprint (get_current_device a) \<noteq> na_fingerprint ann"
  shows "if check_device_exist (na_fingerprint ann) a
    then udp_step parse a dg =
      (a, if eq_ignore_ascii_case (na_protocol ann) ''https'' then NoAction
          else RegisterTo (from_announce ann (dg_from dg)))
    else \<exists>a'. udp_step parse a dg = (a', AnnounceSelf (to_announce (get_current_device a))) \<and>
      get_device (na_fingerprint ann) a' = Some (from_announce ann (dg_from dg)) \<and>
      (\<forall>fp. fp \<noteq> na_fingerprint ann \<longrightarrow> get_device fp a' = get_device fp a)"
proof -
  have lan: "discovered ann (dg_from dg) = from_announce ann (dg_from dg)"
    by (simp add: discovered_def from_announce_def default_discovery_source_def)
  show ?thesis
    using assms udp_step_cases [of dg a parse ann]
    by (auto simp: get_current_device_def check_device_exist_def on_check_exist_def get_device_def on_get_def lan)
      (auto simp: from_announce_def)
qed

section \<open>Witnesses\<close>

theorem device_list_published_witness:
  "map rendered (watch_borrow (dev_listen (fst (run_device_actor (new_device_actor sample_device)
     [DAdd (sample_device\<lparr>nd_fingerprint := ''f2''\<rparr>)])))) =
   [rendered (sample_device\<lparr>nd_fingerprint := ''f2''\<rparr>)]"
proof -
  let ?ms = "[DAdd (sample_device\<lparr>nd_fingerprint := ''f2''\<rparr>)]"
  have "reachable device_message (\<lambda>_ _. True) (new_device_actor sample_device)
      (fst (run_device_actor (new_device_actor sample_device) ?ms))"
    unfolding run_device_actor_def by (rule reachable_run [OF reachable.start]) simp
  from device_list_published [OF this]
  show ?thesis
    by (simp add: run_device_actor_def get_device_map_def new_device_actor_def)
qed

definition sample_announce :: NodeAnnounce where
  "sample_announce = to_announce (sample_device\<lparr>nd_fingerprint := ''f2''\<rparr>)"

theorem discovery_collects_peers_witness:
  "check_device_exist ''f2'' (fst (run_udp_actor (\<lambda>_. Some sample_announce)
     (new_device_actor sample_device) [\<lparr>dg_from = ''10.0.0.9'', dg_payload = []\<rparr>]))"
  using discovery_collects_peers [of "\<lambda>_. Some sample_announce" "new_device_actor sample_device"
      "[\<lparr>dg_from = ''10.0.0.9'', dg_payload = []\<rparr>]"]
  by (simp add: Let_def new_device_actor_def sample_device_def sample_announce_def to_announce_def)

theorem announcement_handled_witness:
  "\<exists>a'. udp_step (\<lambda>_. Some sample_announce) (new_device_actor sample_device)
     \<lparr>dg_from = ''10.0.0.9'', dg_payload = []\<rparr> = (a', AnnounceSelf (to_announce sample_device)) \<and>
     get_device ''f2'' a' = Some (from_announce sample_announce ''10.0.0.9'')"
  using announcement_handled [of "\<lparr>dg_from = ''10.0.0.9'', dg_payload = []\<rparr>"
      "new_device_actor sample_device" "\<lambda>_. Some sample_announce" sample_announce]
  by (simp add: new_device_actor_def get_current_device_def check_device_exist_def on_check_exist_def)
    (auto simp: sample_device_def sample_announce_def to_announce_def)

end
