(* ===== verification/Server.thy ===== *)
theory Server
  imports Session Device Config
begin

text \<open>
  The HTTP server, \<open>src/rust/core/src/server.rs\<close>, with \<open>ProgressWriteAdapter\<close> of \<open>util.rs\<close>: choosing
  a port, telling TLS from plain connections, and the request handlers.

  \<^item> \<open>Core\<close> is the state the handlers reach through \<open>CoreHandle\<close>: configuration, device table,
    sessions, and the files of the host (\<open>co_fs\<close>, from path to content).
  \<^item> A handler that awaits something of another task is split at that point:
    \<open>prepare_upload\<close> ends with the pending session id, \<open>prepare_reply\<close> continues with the decision;
    \<open>upload_begin\<close>, then the body, then \<open>upload_end\<close>.
  \<^item> A status code is a natural number.  Routing and JSON are axum's and serde's.
  \<^item> Paths are Unix paths; \<open>path_join\<close>, \<open>file_stem\<close> and \<open>path_extension\<close> follow \<open>std::path\<close>.
\<close>

section \<open>Listening\<close>

definition MAX_PORT_RETRY :: u16 where
  "MAX_PORT_RETRY = 10"

text \<open>\<open>u16::saturating_add\<close>\<close>

definition saturating_add16 :: "u16 \<Rightarrow> u16 \<Rightarrow> u16" where
  "saturating_add16 a b = (if unat a + unat b \<le> 65535 then a + b else 65535)"

text \<open>\<open>free p\<close> says whether binding port \<open>p\<close> succeeds.\<close>

definition bind_port :: "(u16 \<Rightarrow> bool) \<Rightarrow> u16 \<Rightarrow> string + u16" where
  "bind_port free base =
     (case find free (map (\<lambda>offset. saturating_add16 base (word_of_nat offset)) [0 ..< 11]) of
        Some p \<Rightarrow> Inr p
      | None \<Rightarrow> Inl (''no free port in range '' @ show_nat (unat base) @ ''..='' @
                    show_nat (unat (saturating_add16 base MAX_PORT_RETRY))))"

datatype Conn = Plain | Tls

text \<open>
  One accepted connection: the first byte peeked at (if any), whether an acceptor is configured
  and whether the handshake succeeds.  \<open>None\<close>: the connection is dropped and the loop goes on.
\<close>

definition accept_conn :: "u8 option \<Rightarrow> bool \<Rightarrow> bool \<Rightarrow> Conn option" where
  "accept_conn first acceptor handshake =
     (if first = Some 0x16 \<and> acceptor then (if handshake then Some Tls else None) else Some Plain)"

section \<open>Paths\<close>

definition path_file_name :: "string \<Rightarrow> string option" where
  "path_file_name s =
     (let comps = filter (\<lambda>p. p \<noteq> [] \<and> p \<noteq> ''.'') (split_char (CHR ''/'') s) in
      if comps = [] \<or> last comps = ''..'' then None else Some (last comps))"

definition file_stem :: "string \<Rightarrow> string option" where
  "file_stem s =
     map_option (\<lambda>f. case rsplit_once (CHR ''.'') f of
        None \<Rightarrow> f | Some (before, _) \<Rightarrow> if before = [] then f else before) (path_file_name s)"

definition path_extension :: "string \<Rightarrow> string option" where
  "path_extension s =
     Option.bind (path_file_name s) (\<lambda>f. case rsplit_once (CHR ''.'') f of
        None \<Rightarrow> None | Some (before, after) \<Rightarrow> if before = [] then None else Some after)"

definition path_join :: "string \<Rightarrow> string \<Rightarrow> string" where
  "path_join dir name =
     (if starts_with name ''/'' then name
      else if dir \<noteq> [] \<and> last dir \<noteq> CHR ''/'' then dir @ ''/'' @ name
      else dir @ name)"

definition dedup_name :: "string \<Rightarrow> nat \<Rightarrow> string" where
  "dedup_name file_name n =
     (let stem = (case file_stem file_name of None \<Rightarrow> file_name | Some s \<Rightarrow> s) in
      case path_extension file_name of
        Some ext \<Rightarrow> stem @ '' ('' @ show_nat n @ '').'' @ ext
      | None \<Rightarrow> stem @ '' ('' @ show_nat n @ '')'')"

definition dedup_path :: "(string \<Rightarrow> bool) \<Rightarrow> string \<Rightarrow> string \<Rightarrow> string" where
  "dedup_path exists dir file_name =
     (let candidate = path_join dir file_name in
      if \<not> exists candidate then candidate
      else case find (\<lambda>p. \<not> exists p) (map (\<lambda>n. path_join dir (dedup_name file_name n)) [1 ..< 1000]) of
        Some p \<Rightarrow> p
      | None \<Rightarrow> candidate)"

section \<open>Request handlers\<close>

record Core =
  co_config :: CoreConfig
  co_device :: DeviceActor
  co_sessions :: Actor
  co_fs :: "string \<Rightarrow> bytes option"

definition handle_info :: "Core \<Rightarrow> NodeAnnounce" where
  "handle_info c = to_announce (get_current_device (co_device c))"

definition handle_register :: "string \<Rightarrow> NodeAnnounce \<Rightarrow> Core \<Rightarrow> Core \<times> NodeAnnounce" where
  "handle_register ip payload c =
     (c\<lparr>co_device := add_node_device (from_announce payload ip) (co_device c)\<rparr>, payload)"

definition get_devices :: "Core \<Rightarrow> nat \<times> (string, NodeDevice) hashmap" where
  "get_devices c = (200, get_device_map (co_device c))"

definition prepare_upload ::
  "(nat \<Rightarrow> string) \<Rightarrow> string \<Rightarrow> FileRequest \<Rightarrow> Core \<Rightarrow> Core \<times> ((nat \<times> string) + string)" where
  "prepare_upload gen ip payload c =
     (let sender_device = to_device (fr_info payload) ip;
          c1 = c\<lparr>co_device := add_node_device sender_device (co_device c)\<rparr>
      in case create_recv_session gen sender_device (fr_files payload) (co_sessions c1) of
        (a, r) \<Rightarrow>
          (c1\<lparr>co_sessions := a\<rparr>,
           case r of
             Inr i \<Rightarrow> Inr i
           | Inl ErrBusy \<Rightarrow> Inl (409, ''too many concurrent sessions'')
           | Inl e \<Rightarrow> Inl (500, show_session_error e)))"

text \<open>The rest of \<open>prepare_upload\<close>; \<open>None\<close> is a dropped decision sender.\<close>

definition prepare_reply :: "string \<Rightarrow> Decision option \<Rightarrow> (nat \<times> string) + FileResponse" where
  "prepare_reply i decision =
     (case decision of
        Some (Accepted files) \<Rightarrow> Inr \<lparr>rs_session_id = i, rs_files = files\<rparr>
      | Some Declined \<Rightarrow> Inl (403, ''mission rejected'')
      | Some DCanceled \<Rightarrow> Inl (403, ''mission canceled'')
      | None \<Rightarrow> Inl (403, ''mission canceled''))"

text \<open>
  The guard task takes the first message of its channel.  A completed request sends \<open>False\<close> before
  the guard is dropped (which sends \<open>True\<close>); a dropped request sends only \<open>True\<close>.
\<close>

definition guard_messages :: "bool \<Rightarrow> bool list" where
  "guard_messages completed = (if completed then [False, True] else [True])"

definition guard_task :: "(nat \<Rightarrow> string) \<Rightarrow> string \<Rightarrow> bool list \<Rightarrow> Core \<Rightarrow> Core" where
  "guard_task gen i msgs c =
     (case msgs of
        flag # _ \<Rightarrow> if flag then c\<lparr>co_sessions := cancel gen i (co_sessions c)\<rparr> else c
      | [] \<Rightarrow> c)"

text \<open>\<open>ProgressWriteAdapter\<close>: the running total, sent when the 100 ms interval has ticked.\<close>

fun progress_writes :: "nat \<Rightarrow> (bytes \<times> bool) list \<Rightarrow> nat list" where
  "progress_writes n [] = []"
| "progress_writes n ((chunk, tick) # ws) =
     (let n' = n + length chunk in
      if tick then n' # progress_writes n' ws else progress_writes n' ws)"

text \<open>
  \<open>stream_to_file\<close>: the body is a list of chunks, each with the tick of the interval.  Creating the
  directory or the file may fail, the body may end in an I/O error, and the cancellation of the
  session drops the future before it ends (\<open>None\<close>).  The chunks are those handed to the writer; on
  an error the operating system may keep fewer of them.  \<open>bd_meanwhile\<close> are the session messages of
  other tasks handled while the body is read.
\<close>

datatype BodyEnd = BodyDone | BodyError string | OpenError string | BodyCanceled

record Body =
  bd_chunks :: "(bytes \<times> bool) list"
  bd_end :: BodyEnd
  bd_meanwhile :: "SessionMessage list"

definition stream_to_file ::
  "string \<Rightarrow> string \<Rightarrow> Body \<Rightarrow> (string \<Rightarrow> bytes option) \<Rightarrow>
     (string \<Rightarrow> bytes option) \<times> nat list \<times> ((nat \<times> string) + unit) option" where
  "stream_to_file dir file_name body fs =
     (let path = dedup_path (\<lambda>p. fs p \<noteq> None) dir file_name;
          fs' = fs(path \<mapsto> concat (map fst (bd_chunks body)));
          ns = progress_writes 0 (bd_chunks body) in
      case bd_end body of
        OpenError e \<Rightarrow> (fs, [], Some (Inl (500, e)))
      | BodyDone \<Rightarrow> (fs', ns, Some (Inr ()))
      | BodyError e \<Rightarrow> (fs', ns, Some (Inl (500, e)))
      | BodyCanceled \<Rightarrow> (fs', ns, None))"

definition upload_begin ::
  "(nat \<Rightarrow> string) \<Rightarrow> UploadTask \<Rightarrow> Core \<Rightarrow> Core \<times> ((nat \<times> string) + FileTask)" where
  "upload_begin gen task c =
     (case start_file gen (ut_session_id task) (ut_token task) (co_sessions c) of
        (a, Inr t) \<Rightarrow> (c\<lparr>co_sessions := a\<rparr>, Inr t)
      | (a, Inl e) \<Rightarrow> (c\<lparr>co_sessions := a\<rparr>, Inl (403, show_session_error e)))"

text \<open>How the \<open>select!\<close> of \<open>handle_upload\<close> ends: the copy, or the cancellation.\<close>

datatype CopyEnd = CopyOk | CopyErr nat string | CopyCanceled

definition upload_end ::
  "(nat \<Rightarrow> string) \<Rightarrow> UploadTask \<Rightarrow> CopyEnd \<Rightarrow> Core \<Rightarrow> Core \<times> ((nat \<times> string) + unit)" where
  "upload_end gen task e c =
     (let finish = (\<lambda>st. c\<lparr>co_sessions :=
            finish_file gen (ut_session_id task) (ut_token task) st (co_sessions c)\<rparr>)
      in case e of
        CopyOk \<Rightarrow> (finish FFinish, Inr ())
      | CopyErr code msg \<Rightarrow> (finish (FFail msg), Inl (code, msg))
      | CopyCanceled \<Rightarrow> (finish (FFail ''session canceled''), Inl (408, ''session canceled'')))"

text \<open>The progress values observed become \<open>ReportProgress\<close> messages of the session.\<close>

definition report_all :: "(nat \<Rightarrow> string) \<Rightarrow> string \<Rightarrow> string \<Rightarrow> nat list \<Rightarrow> Actor \<Rightarrow> Actor" where
  "report_all gen i fid ns a = fst (run_session_actor gen a (forward_progress i fid ns))"

text \<open>A whole upload: start the file, copy the body while other messages are handled, finish.\<close>

definition handle_upload ::
  "(nat \<Rightarrow> string) \<Rightarrow> UploadTask \<Rightarrow> Body \<Rightarrow> Core \<Rightarrow> Core \<times> ((nat \<times> string) + unit)" where
  "handle_upload gen task body c =
     (case upload_begin gen task c of
        (c1, Inl e) \<Rightarrow> (c1, Inl e)
      | (c1, Inr t) \<Rightarrow>
          (case stream_to_file (cc_store_path (co_config c1)) (fi_file_name (ft_info t)) body (co_fs c1) of
             (fs, ns, r) \<Rightarrow>
               let a = report_all gen (ut_session_id task) (ft_file_id t) ns (co_sessions c1);
                   c2 = c1\<lparr>co_fs := fs, co_sessions := fst (run_session_actor gen a (bd_meanwhile body))\<rparr>
               in upload_end gen task
                    (case r of
                       None \<Rightarrow> CopyCanceled
                     | Some (Inr _) \<Rightarrow> CopyOk
                     | Some (Inl (code, msg)) \<Rightarrow> CopyErr code msg) c2))"

definition handle_cancel :: "(nat \<Rightarrow> string) \<Rightarrow> string \<Rightarrow> Core \<Rightarrow> Core \<times> nat" where
  "handle_cancel gen i c = (c\<lparr>co_sessions := cancel gen i (co_sessions c)\<rparr>, 200)"

end
