(* ===== verification/Server_Props.thy ===== *)
theory Server_Props
  imports Server Session_Props
begin

text \<open>
  Properties of the HTTP server: the port it binds, where an upload is stored, what an upload does
  to the files and to its session, and how requests for new sessions are answered.  What the upload
  handler relies on of the session manager is the locale \<open>upload_sessions\<close>.
\<close>

section \<open>Ports\<close>

lemma saturating_add16_unat: "unat (saturating_add16 a b) = min 65535 (unat a + unat b)"
proof -
  have "unat (a + b) = unat a + unat b" if "unat a + unat b \<le> 65535"
    using that by (intro unat_add_lem [THEN iffD1]) simp
  then show ?thesis by (auto simp: saturating_add16_def min_def)
qed

section \<open>Paths\<close>

text \<open>A plain file name: one component, neither the directory nor its parent.\<close>

definition plain_name :: "string \<Rightarrow> bool" where
  "plain_name s \<longleftrightarrow> s \<noteq> [] \<and> CHR ''/'' \<notin> set s \<and> s \<noteq> ''.'' \<and> s \<noteq> ''..''"

lemma split_char_absent: "c \<notin> set s \<Longrightarrow> split_char c s = [s]"
  by (induction s) auto

lemma plain_file_name: "plain_name s \<Longrightarrow> path_file_name s = Some s"
  by (simp add: plain_name_def path_file_name_def split_char_absent)

lemma show_nat_no_slash: "CHR ''/'' \<notin> set (show_nat n)"
  using show_nat_digits [of n] by (auto simp: list_all_iff is_digit_def)

lemma plain_parts:
  assumes "plain_name s"
  shows "CHR ''/'' \<notin> set (case file_stem s of None \<Rightarrow> s | Some x \<Rightarrow> x)"
    and "path_extension s = Some e \<Longrightarrow> CHR ''/'' \<notin> set e"
proof -
  have "CHR ''/'' \<notin> set a \<and> CHR ''/'' \<notin> set b" if "rsplit_once (CHR ''.'') s = Some (a, b)" for a b
    using rsplit_once_Some [OF that] assms by (auto simp: plain_name_def)
  then show "CHR ''/'' \<notin> set (case file_stem s of None \<Rightarrow> s | Some x \<Rightarrow> x)"
    and "path_extension s = Some e \<Longrightarrow> CHR ''/'' \<notin> set e"
    using assms plain_file_name [OF assms]
    by (auto simp: file_stem_def path_extension_def plain_name_def split: option.splits if_splits)
qed

lemma plain_dedup_name:
  assumes "plain_name s"
  shows "plain_name (dedup_name s n)"
proof -
  have "CHR ''/'' \<notin> set (dedup_name s n)"
    using plain_parts [OF assms] show_nat_no_slash [of n]
    by (auto simp: dedup_name_def Let_def split: option.split)
  moreover have "CHR '' '' \<in> set (dedup_name s n)"
    by (auto simp: dedup_name_def Let_def split: option.split)
  ultimately show ?thesis by (auto simp: plain_name_def)
qed

text \<open>The path of a plain name directly inside \<open>dir\<close>.\<close>

definition inside :: "string \<Rightarrow> string \<Rightarrow> bool" where
  "inside dir p \<longleftrightarrow> (\<exists>name. plain_name name \<and>
     p = (if dir = [] \<or> last dir = CHR ''/'' then dir @ name else dir @ ''/'' @ name))"

lemma inside_join: "plain_name name \<Longrightarrow> inside dir (path_join dir name)"
  unfolding inside_def
  by (intro exI [of _ name]) (cases name; auto simp: path_join_def plain_name_def starts_with_def)

definition candidates :: "string \<Rightarrow> string \<Rightarrow> string list" where
  "candidates dir name =
     path_join dir name # map (\<lambda>n. path_join dir (dedup_name name n)) [1 ..< 1000]"

lemma set_candidates:
  "set (candidates dir name) =
     insert (path_join dir name) ((\<lambda>n. path_join dir (dedup_name name n)) ` {1 ..< 1000})"
  by (simp only: candidates_def list.set set_map set_upt)

lemma candidate_1: "path_join dir (dedup_name name 1) \<in> set (candidates dir name)"
  by (auto simp: set_candidates)

lemma dedup_path_find:
  "dedup_path ex dir name =
     (case find (\<lambda>p. \<not> ex p) (candidates dir name) of Some p \<Rightarrow> p | None \<Rightarrow> path_join dir name)"
  by (simp add: dedup_path_def candidates_def)

lemma dedup_path_fresh:
  assumes "\<exists>p \<in> set (candidates dir name). \<not> ex p"
  shows "\<not> ex (dedup_path ex dir name)" and "dedup_path ex dir name \<in> set (candidates dir name)"
proof -
  obtain p where p: "find (\<lambda>p. \<not> ex p) (candidates dir name) = Some p"
    using assms by (metis find_None_iff not_Some_eq)
  then have "dedup_path ex dir name = p" by (simp add: dedup_path_find)
  moreover have "\<not> ex p \<and> p \<in> set (candidates dir name)"
    using p unfolding find_Some_iff by auto
  ultimately show "\<not> ex (dedup_path ex dir name)" and "dedup_path ex dir name \<in> set (candidates dir name)"
    by simp_all
qed

section \<open>What uploads rely on\<close>

locale upload_sessions =
  fixes start :: "string \<Rightarrow> string \<Rightarrow> 's \<Rightarrow> 's \<times> (SessionError + FileTask)"
    and finish :: "string \<Rightarrow> string \<Rightarrow> FileState \<Rightarrow> 's \<Rightarrow> 's"
    and progress :: "string \<Rightarrow> string \<Rightarrow> nat \<Rightarrow> 's \<Rightarrow> 's"
    and running :: "'s \<Rightarrow> string \<Rightarrow> string \<Rightarrow> bool"
    and fstate :: "'s \<Rightarrow> string \<Rightarrow> string \<Rightarrow> FileState option"
  assumes start_running: "start i t s = (s', Inr task) \<Longrightarrow> running s' i t"
    and progress_running: "running s i t \<Longrightarrow> running (progress j fid n s) i t"
    and finish_state: "running s i t \<Longrightarrow> fstate (finish i t FFinish s) i t = Some FFinish"
    and finish_failed: "running s i t \<Longrightarrow> fstate (finish i t (FFail msg) s) i t = Some (FFail msg)"
begin

lemma progress_many: "running s i t \<Longrightarrow> running (fold (progress j fid) ns s) i t"
  by (induction ns arbitrary: s) (auto intro: progress_running)

lemma upload_finishes:
  "start i t s = (s1, Inr task) \<Longrightarrow>
     fstate (finish i t FFinish (fold (progress j fid) ns s1)) i t = Some FFinish"
  by (rule finish_state [OF progress_many [OF start_running]])

lemma upload_fails:
  "start i t s = (s1, Inr task) \<Longrightarrow>
     fstate (finish i t (FFail msg) (fold (progress j fid) ns s1)) i t = Some (FFail msg)"
  by (rule finish_failed [OF progress_many [OF start_running]])

end

text \<open>The state of the file a token stands for.\<close>

definition token_state :: "Actor \<Rightarrow> string \<Rightarrow> string \<Rightarrow> FileState option" where
  "token_state a i t =
     Option.bind (hget (a_sessions a) i) (\<lambda>s. Option.bind (hget (s_token_index s) t)
       (\<lambda>fid. map_option fe_state (hget (s_files s) fid)))"

definition token_running :: "Actor \<Rightarrow> string \<Rightarrow> string \<Rightarrow> bool" where
  "token_running a i t \<longleftrightarrow>
     (\<exists>s fid f. hget (a_sessions a) i = Some s \<and> s_state s = Transfering \<and>
        hget (s_token_index s) t = Some fid \<and> hget (s_files s) fid = Some f)"

lemma start_file_running:
  assumes "start_file gen i t a = (a', Inr task)"
  shows "token_running a' i t"
proof -
  obtain s where s: "hget (a_sessions a) i = Some s"
    using assms by (auto simp: start_file_def on_start_file_def split: option.splits)
  then obtain s' where "start_session_file t s = Inr (s', task)"
      and "a' = broadcast_index (put_session i s' a)"
    using assms by (auto simp: start_file_def on_start_file_def split: sum.splits)
  then show ?thesis
    by (auto simp: token_running_def start_session_file_def split: if_splits option.splits)
qed

lemma report_progress_running: "token_running a i t \<Longrightarrow> token_running (report_progress gen j fid n a) i t"
  by (auto simp: token_running_def report_progress_def on_report_progress_def split: option.split)

lemma finish_file_state:
  assumes "token_running a i t" and "st = FFinish \<or> (\<exists>msg. st = FFail msg)"
  shows "token_state (finish_file gen i t st a) i t = Some st"
proof -
  obtain s fid f where s: "hget (a_sessions a) i = Some s" "s_state s = Transfering"
    "hget (s_token_index s) t = Some fid" "hget (s_files s) fid = Some f"
    using assms(1) by (auto simp: token_running_def)
  let ?s = "mark_file fid st s"
  have act: "is_active s" using s(2) by (simp add: is_active_def)
  have "finish_file gen i t st a =
      (case st of FFail msg \<Rightarrow> fail_session i msg (put_session i ?s a)
       | _ \<Rightarrow> broadcast_index (check_finish i (put_session i ?s a)))"
    using s act by (simp add: finish_file_def on_finish_file_def set_file_state_def Let_def)
  then show ?thesis
    using assms(2) s act fail_session_get [of "put_session i ?s a" i ?s]
      check_finish_get [of "put_session i ?s a" i ?s]
    by (auto simp: token_state_def failed_session_def)
qed

interpretation uploads: upload_sessions "start_file gen" "finish_file gen" "report_progress gen"
    token_running token_state for gen
  by unfold_locales
    (blast intro: start_file_running, rule report_progress_running, simp_all add: finish_file_state)

lemma finish_file_ended:
  "hget (a_sessions a) i = Some s \<Longrightarrow> \<not> is_active s \<Longrightarrow> finish_file gen i t st a = a"
  by (auto simp: finish_file_def on_finish_file_def set_file_state_def split: option.split)

lemma report_all_fold: "report_all gen i fid ns a = fold (report_progress gen i fid) ns a"
  by (induction ns arbitrary: a)
    (simp_all add: report_all_def run_session_actor_def forward_progress_def report_progress_def)

section \<open>Properties\<close>

text \<open>The server binds the first free port at or after the configured one, at most ten further
  and never past 65535; it reports failure exactly when none of these is free.\<close>

theorem bind_port_first_free:
  shows "case bind_port free base of
      Inr p \<Rightarrow> free p \<and> unat base \<le> unat p \<and> unat p \<le> min 65535 (unat base + 10) \<and>
        (\<forall>q. unat base \<le> unat q \<and> unat q < unat p \<longrightarrow> \<not> free q)
    | Inl e \<Rightarrow> (\<forall>q. unat base \<le> unat q \<and> unat q \<le> unat base + 10 \<longrightarrow> \<not> free q)"
proof -
  let ?port = "\<lambda>k. saturating_add16 base (word_of_nat k)"
  have up: "unat (?port k) = min 65535 (unat base + k)" if "k < 11" for k
    using that by (simp add: saturating_add16_unat unat_of_nat take_bit_nat_eq_self)
  have hit: "q = ?port (unat q - unat base)" if "unat base \<le> unat q" "unat q \<le> unat base + 10" for q
  proof (rule word_unat_eq_iff [THEN iffD2])
    have "unat q < 65536" using unsigned_less [of q, where ?'a = nat] by simp
    moreover have "unat (?port (unat q - unat base)) = min 65535 (unat base + (unat q - unat base))"
      using that by (intro up) simp
    ultimately show "unat q = unat (?port (unat q - unat base))"
      using that by (simp only: min_def) simp
  qed
  show ?thesis
  proof (cases "find free (map ?port [0 ..< 11])")
    case None
    have "\<not> free q" if "unat base \<le> unat q" "unat q \<le> unat base + 10" for q
    proof -
      have "unat q - unat base \<in> set [0 ..< 11]" using that by auto
      then have "?port (unat q - unat base) \<in> set (map ?port [0 ..< 11])" by auto
      then show ?thesis using hit [OF that] None unfolding find_None_iff by auto
    qed
    then show ?thesis using None by (simp add: bind_port_def)
  next
    case (Some p)
    then obtain k where k: "k < 11" "free (?port k)" "p = ?port k" "\<forall>j < k. \<not> free (?port j)"
      unfolding find_Some_iff by auto
    have "\<not> free q" if "unat base \<le> unat q" "unat q < unat p" for q
    proof -
      have "unat q - unat base < k" using that up [OF k(1)] k(3) by auto
      moreover have "q = ?port (unat q - unat base)"
        using that up [OF k(1)] k(1,3) by (intro hit) auto
      ultimately show ?thesis using k(4) by metis
    qed
    then show ?thesis using Some k up [OF k(1)] unsigned_less [of base, where ?'a = nat]
      by (simp add: bind_port_def)
  qed
qed

text \<open>C16. An uploaded file with a plain name is stored inside the download directory, and on a path
  that no existing file occupies as long as one of the thousand candidate names is free.\<close>

theorem upload_path_inside_and_fresh:
  assumes "plain_name name"
  shows "inside dir (dedup_path ex dir name) \<and>
    ((\<exists>p \<in> set (candidates dir name). \<not> ex p) \<longrightarrow> \<not> ex (dedup_path ex dir name))"
proof -
  have all: "inside dir p" if "p \<in> set (candidates dir name)" for p
    using that inside_join [OF assms] inside_join [OF plain_dedup_name [OF assms]]
    by (auto simp: set_candidates)
  have "inside dir (dedup_path ex dir name)"
  proof (cases "\<exists>p \<in> set (candidates dir name). \<not> ex p")
    case True
    then show ?thesis using dedup_path_fresh(2) all by blast
  next
    case False
    then have "find (\<lambda>p. \<not> ex p) (candidates dir name) = None" by (auto simp: find_None_iff)
    then have "dedup_path ex dir name = path_join dir name" by (simp add: dedup_path_find)
    then show ?thesis using inside_join [OF assms] by simp
  qed
  then show ?thesis using dedup_path_fresh(1) by blast
qed


text \<open>C15. A complete upload with a valid token succeeds: the body is stored on a path that was free,
  no other file changes, and the file of the token is finished in its session.\<close>

theorem handle_upload_stores:
  assumes "upload_begin gen task c = (c1, Inr t)" and "bd_end body = BodyDone" and "bd_meanwhile body = []"
    and "\<exists>p \<in> set (candidates (cc_store_path (co_config c)) (fi_file_name (ft_info t))). co_fs c p = None"
  shows "\<exists>c' path. handle_upload gen task body c = (c', Inr ()) \<and> co_fs c path = None \<and>
    co_fs c' = (co_fs c)(path \<mapsto> concat (map fst (bd_chunks body))) \<and>
    token_state (co_sessions c') (ut_session_id task) (ut_token task) = Some FFinish"
proof -
  obtain a where st: "start_file gen (ut_session_id task) (ut_token task) (co_sessions c) = (a, Inr t)"
    and c1: "c1 = c\<lparr>co_sessions := a\<rparr>"
    using assms(1) by (auto simp: upload_begin_def split: prod.splits sum.splits)
  let ?dir = "cc_store_path (co_config c)" and ?name = "fi_file_name (ft_info t)"
  let ?path = "dedup_path (\<lambda>p. co_fs c p \<noteq> None) ?dir ?name"
  let ?c' = "fst (handle_upload gen task body c)"
  have res: "handle_upload gen task body c = (?c', Inr ())"
    and fs: "co_fs ?c' = (co_fs c)(?path \<mapsto> concat (map fst (bd_chunks body)))"
    and sess: "co_sessions ?c' = finish_file gen (ut_session_id task) (ut_token task) FFinish
      (report_all gen (ut_session_id task) (ft_file_id t) (progress_writes 0 (bd_chunks body)) a)"
    using assms(1-3)
    by (simp_all add: handle_upload_def stream_to_file_def c1 upload_end_def Let_def run_session_actor_def)
  have "co_fs c ?path = None"
    using dedup_path_fresh(1) [of ?dir ?name "\<lambda>p. co_fs c p \<noteq> None"] assms(4) by auto
  moreover have "token_state (co_sessions ?c') (ut_session_id task) (ut_token task) = Some FFinish"
    unfolding sess report_all_fold by (rule uploads.upload_finishes [OF st])
  ultimately show ?thesis using res fs by blast
qed

text \<open>A broken upload is reported and recorded: when the file cannot be created or the body ends
  in an I/O error, the client gets a 500 and the file of the token is failed; when the session has
  ended meanwhile, a cancelled copy answers 408 and changes nothing more of the session.\<close>

theorem handle_upload_fails:
  assumes "upload_begin gen task c = (c1, Inr t)"
  shows "((bd_end body = BodyError e \<or> bd_end body = OpenError e) \<and> bd_meanwhile body = [] \<longrightarrow>
     snd (handle_upload gen task body c) = Inl (500, e) \<and>
     token_state (co_sessions (fst (handle_upload gen task body c))) (ut_session_id task) (ut_token task) =
       Some (FFail e)) \<and>
   (\<forall>s. bd_end body = BodyCanceled \<longrightarrow>
     hget (a_sessions (fst (run_session_actor gen
         (report_all gen (ut_session_id task) (ft_file_id t) (progress_writes 0 (bd_chunks body)) (co_sessions c1))
         (bd_meanwhile body)))) (ut_session_id task) = Some s \<and> \<not> is_active s \<longrightarrow>
     snd (handle_upload gen task body c) = Inl (408, ''session canceled'') \<and>
     hget (a_sessions (co_sessions (fst (handle_upload gen task body c)))) (ut_session_id task) = Some s)"
proof -
  obtain a where st: "start_file gen (ut_session_id task) (ut_token task) (co_sessions c) = (a, Inr t)"
    and c1: "c1 = c\<lparr>co_sessions := a\<rparr>"
    using assms(1) by (auto simp: upload_begin_def split: prod.splits sum.splits)
  have "\<exists>ns. snd (handle_upload gen task body c) = Inl (500, e) \<and>
      co_sessions (fst (handle_upload gen task body c)) =
      finish_file gen (ut_session_id task) (ut_token task) (FFail e)
        (report_all gen (ut_session_id task) (ft_file_id t) ns a)"
    if "bd_end body = BodyError e \<or> bd_end body = OpenError e" "bd_meanwhile body = []"
    using assms(1) that
    by (auto simp: handle_upload_def stream_to_file_def c1 upload_end_def Let_def run_session_actor_def)
  moreover have "snd (handle_upload gen task body c) = Inl (408, ''session canceled'') \<and>
      co_sessions (fst (handle_upload gen task body c)) =
      finish_file gen (ut_session_id task) (ut_token task) (FFail ''session canceled'')
        (fst (run_session_actor gen (report_all gen (ut_session_id task) (ft_file_id t)
           (progress_writes 0 (bd_chunks body)) a) (bd_meanwhile body)))"
    if "bd_end body = BodyCanceled"
    using assms(1) that by (simp add: handle_upload_def stream_to_file_def c1 upload_end_def Let_def)
  ultimately show ?thesis
    using uploads.upload_fails [OF st] by (auto simp: report_all_fold c1 finish_file_ended)
qed

text \<open>A \<open>prepare-upload\<close> request answers 409 exactly when the receive cap is reached, and then
  changes no session; otherwise it leaves a pending session for the sender, whose address is the
  one the connection came from, and in both cases the sender is entered in the device table.\<close>

theorem prepare_upload_spec:
  assumes "inj gen" and "session_reachable gen mx (co_sessions c)" and "hwf (fr_files payload)"
    and "si_fingerprint (fr_info payload) \<noteq> nd_fingerprint (get_current_device (co_device c))"
  shows "\<exists>c' r. prepare_upload gen ip payload c = (c', r) \<and>
    get_device (si_fingerprint (fr_info payload)) (co_device c') = Some (to_device (fr_info payload) ip) \<and>
    (if mx \<le> active_recv (co_sessions c)
     then r = Inl (409, ''too many concurrent sessions'') \<and> co_sessions c' = co_sessions c
     else \<exists>i s. r = Inr i \<and> hget (a_sessions (co_sessions c)) i = None \<and>
       hget (a_sessions (co_sessions c')) i = Some s \<and> s_state s = Pending \<and>
       s_peer s = to_device (fr_info payload) ip)"
proof -
  let ?d = "to_device (fr_info payload) ip"
  have dev: "get_device (si_fingerprint (fr_info payload)) (add_node_device ?d (co_device c)) = Some ?d"
    using devices.get_add [of "si_fingerprint (fr_info payload)" "co_device c" ?d] assms(4)
    by (simp add: to_device_def)
  show ?thesis
  proof (cases "mx \<le> active_recv (co_sessions c)")
    case True
    then show ?thesis
      using dev reachable_max [OF assms(2)]
      by (simp add: prepare_upload_def create_recv_session_def on_create_recv_def)
  next
    case False
    obtain es idx n where "recv_files gen (Suc (a_uuid (co_sessions c))) (fr_files payload) ([], []) = (es, idx, n)"
      by (metis prod_cases3)
    then show ?thesis
      using False dev reachable_max [OF assms(2)]
        session_id_fresh [OF assms(1) reachable_session_inv [OF assms(1,2)]]
      by (simp add: prepare_upload_def create_recv_session_def on_create_recv_def Let_def
          new_session_def put_session_def)
  qed
qed

text \<open>The disconnect guard cancels exactly abandoned requests: a completed request leaves the
  sessions alone, a dropped one cancels its session if that is still active.\<close>

theorem guard_cancels_abandoned:
  assumes "hget (a_sessions (co_sessions c)) i = Some s"
  shows "guard_task gen i (guard_messages True) c = c \<and>
    map_option s_state (hget (a_sessions (co_sessions (guard_task gen i (guard_messages False) c))) i) =
      Some (if is_active s then Canceled else s_state s)"
  using assms
  by (simp add: guard_task_def guard_messages_def cancel_def cancel_session_def take_decision_def
      canceled_session_def)

section \<open>Witnesses\<close>

definition sample_core :: "Actor \<Rightarrow> Core" where
  "sample_core a =
     \<lparr>co_config = default_config\<lparr>cc_store_path := ''d''\<rparr>, co_device = new_device_actor sample_device,
      co_sessions = a, co_fs = [''d/a.txt'' \<mapsto> [1]]\<rparr>"

definition sample_task :: UploadTask where
  "sample_task = \<lparr>ut_session_id = ''u'', ut_file_id = ''a'', ut_token = ''uu''\<rparr>"

theorem bind_port_first_free_witness:
  "\<exists>p. bind_port (\<lambda>p. 53319 \<le> p) 53317 = Inr p \<and> unat p = 53319 \<and>
     (\<forall>q. 53317 \<le> unat q \<and> unat q < 53319 \<longrightarrow> \<not> (53319 :: u16) \<le> q)"
proof -
  have "bind_port (\<lambda>p. 53319 \<le> p) 53317 = Inr (53319 :: u16)"
    by (simp add: bind_port_def saturating_add16_def upt_rec)
  then show ?thesis using bind_port_first_free [where free = "\<lambda>p. (53319 :: u16) \<le> p" and base = 53317] by simp
qed

theorem upload_path_inside_and_fresh_witness:
  "inside ''d'' (dedup_path (\<lambda>p. p = ''d/a.txt'') ''d'' ''a.txt'') \<and>
   dedup_path (\<lambda>p. p = ''d/a.txt'') ''d'' ''a.txt'' \<noteq> ''d/a.txt''"
proof -
  have "plain_name ''a.txt''" by (simp add: plain_name_def)
  moreover note candidate_1 [of "''d''" "''a.txt''"]
  moreover have "path_join ''d'' (dedup_name ''a.txt'' 1) \<noteq> ''d/a.txt''" by code_simp
  ultimately show ?thesis
    using upload_path_inside_and_fresh [of "''a.txt''" "''d''" "\<lambda>p. p = ''d/a.txt''"] by blast
qed


lemma sample_upload_begin:
  "\<exists>c1 t. upload_begin sample_gen sample_task (sample_core sample_accepted) = (c1, Inr t) \<and>
     fi_file_name (ft_info t) = ''a.txt''"
proof -
  have "case snd (start_file sample_gen ''u'' ''uu'' sample_accepted) of Inl e \<Rightarrow> False
      | Inr t \<Rightarrow> fi_file_name (ft_info t) = ''a.txt''"
    by code_simp
  then show ?thesis
    by (auto simp: upload_begin_def sample_task_def sample_core_def split: sum.splits prod.splits)
qed

theorem handle_upload_stores_witness:
  "\<exists>c' path. handle_upload sample_gen sample_task \<lparr>bd_chunks = [([1, 2], True), ([3], False)], bd_end = BodyDone, bd_meanwhile = []\<rparr>
       (sample_core sample_accepted) = (c', Inr ()) \<and>
     co_fs c' path = Some [1, 2, 3] \<and> path \<noteq> ''d/a.txt''"
proof -
  obtain c1 t where b: "upload_begin sample_gen sample_task (sample_core sample_accepted) = (c1, Inr t)"
    and name: "fi_file_name (ft_info t) = ''a.txt''"
    using sample_upload_begin by blast
  let ?body = "\<lparr>bd_chunks = [([1, 2], True), ([3], False)], bd_end = BodyDone, bd_meanwhile = []\<rparr>"
  note candidate_1 [of "''d''" "''a.txt''"]
  moreover have "path_join ''d'' (dedup_name ''a.txt'' 1) \<noteq> ''d/a.txt''" by code_simp
  ultimately have "\<exists>p \<in> set (candidates (cc_store_path (co_config (sample_core sample_accepted)))
      (fi_file_name (ft_info t))). co_fs (sample_core sample_accepted) p = None"
    unfolding name by (auto simp: sample_core_def intro!: bexI)
  from handle_upload_stores [OF b _ _ this, of ?body]
  obtain c' path where "handle_upload sample_gen sample_task ?body (sample_core sample_accepted) = (c', Inr ())"
    "co_fs (sample_core sample_accepted) path = None"
    "co_fs c' = (co_fs (sample_core sample_accepted))(path \<mapsto> concat (map fst (bd_chunks ?body)))"
    by auto
  moreover from this(2) have "path \<noteq> ''d/a.txt''" by (auto simp: sample_core_def)
  ultimately show ?thesis by (intro exI [of _ c'] exI [of _ path]) simp
qed

theorem handle_upload_fails_witness:
  "snd (handle_upload sample_gen sample_task \<lparr>bd_chunks = [], bd_end = BodyError ''reset'', bd_meanwhile = []\<rparr>
     (sample_core sample_accepted)) = Inl (500, ''reset'')"
proof -
  obtain c1 t where "upload_begin sample_gen sample_task (sample_core sample_accepted) = (c1, Inr t)"
    using sample_upload_begin by blast
  from handle_upload_fails [OF this, of "\<lparr>bd_chunks = [], bd_end = BodyError ''reset'', bd_meanwhile = []\<rparr>" "''reset''"]
  show ?thesis by simp
qed

theorem prepare_upload_spec_witness:
  "\<exists>c' i. prepare_upload sample_gen ''10.0.0.7''
       \<lparr>fr_info = (from_device sample_device)\<lparr>si_fingerprint := ''f2''\<rparr>, fr_files = sample_files\<rparr>
       (sample_core sample_state) = (c', Inr i)"
proof -
  let ?p = "\<lparr>fr_info = (from_device sample_device)\<lparr>si_fingerprint := ''f2''\<rparr>, fr_files = sample_files\<rparr>"
  have "session_reachable sample_gen 2 (co_sessions (sample_core sample_state))"
    using sample_reachable by (simp add: sample_core_def)
  moreover have "active_recv (co_sessions (sample_core sample_state)) = 1" by code_simp
  moreover have "si_fingerprint (fr_info ?p) \<noteq>
      nd_fingerprint (get_current_device (co_device (sample_core sample_state)))"
    by (simp add: sample_core_def get_current_device_def new_device_actor_def sample_device_def)
  ultimately show ?thesis
    using prepare_upload_spec [OF inj_sample_gen, of 2 "sample_core sample_state" ?p "''10.0.0.7''"]
    by auto
qed

theorem guard_cancels_abandoned_witness:
  "map_option s_state (hget (a_sessions (co_sessions
     (guard_task sample_gen ''u'' (guard_messages False) (sample_core sample_state)))) ''u'') = Some Canceled"
proof -
  obtain s where "hget (a_sessions sample_state) ''u'' = Some s" and act: "is_active s"
    by (rule sample_session_obtain)
  then have "hget (a_sessions (co_sessions (sample_core sample_state))) ''u'' = Some s"
    by (simp add: sample_core_def)
  from guard_cancels_abandoned [OF this] act show ?thesis by simp
qed

end
