(* ===== verification/Client.thy ===== *)
theory Client
  imports Model
begin

text \<open>
  The HTTP client, \<open>src/rust/core/src/client.rs\<close>: the errors, the URL and parameters of each request,
  and the reading of the answer.

  What the HTTP library returns for a request is a parameter of type \<open>'b http_reply\<close>: a transport
  error, or a status with the body, which is the decoded JSON for a success (or the error of
  decoding it) and the text otherwise.
\<close>

datatype ClientError = CHttp string | CIo string | CStatus nat string

fun show_client_error :: "ClientError \<Rightarrow> string" where
  "show_client_error (CHttp e) = ''http error: '' @ e"
| "show_client_error (CIo e) = ''io error: '' @ e"
| "show_client_error (CStatus code body) = ''peer answered '' @ show_nat code @ '': '' @ body"

fun error_status :: "ClientError \<Rightarrow> nat option" where
  "error_status (CStatus code body) = Some code"
| "error_status _ = None"

datatype SendError = SendIo string | EmptySelection

fun show_send_error :: "SendError \<Rightarrow> string" where
  "show_send_error (SendIo e) = ''io error: '' @ e"
| "show_send_error EmptySelection = ''no files to send''"

datatype 'b http_reply = TransportError string | HttpReply nat "string + 'b" string

definition is_success :: "nat \<Rightarrow> bool" where
  "is_success code \<longleftrightarrow> 200 \<le> code \<and> code < 300"

text \<open>A request: method, URL, query parameters.\<close>

record HttpCall =
  rq_url :: string
  rq_query :: "(string \<times> string) list"

definition register_request :: "NodeDevice \<Rightarrow> HttpCall" where
  "register_request target = \<lparr>rq_url = base_url target @ ''/api/localsend/v2/register'', rq_query = []\<rparr>"

definition prepare_request :: "NodeDevice \<Rightarrow> HttpCall" where
  "prepare_request target = \<lparr>rq_url = base_url target @ ''/api/localsend/v2/prepare-upload'', rq_query = []\<rparr>"

definition upload_request :: "NodeDevice \<Rightarrow> string \<Rightarrow> string \<Rightarrow> string \<Rightarrow> HttpCall" where
  "upload_request target session_id file_id token =
     \<lparr>rq_url = base_url target @ ''/api/localsend/v2/upload'',
      rq_query = [(''sessionId'', session_id), (''fileId'', file_id), (''token'', token)]\<rparr>"

definition cancel_request :: "NodeDevice \<Rightarrow> string \<Rightarrow> HttpCall" where
  "cancel_request target session_id =
     \<lparr>rq_url = base_url target @ ''/api/localsend/v2/cancel'', rq_query = [(''sessionId'', session_id)]\<rparr>"

definition unit_reply :: "'b http_reply \<Rightarrow> ClientError + unit" where
  "unit_reply r =
     (case r of
        TransportError e \<Rightarrow> Inl (CHttp e)
      | HttpReply code _ text \<Rightarrow> if is_success code then Inr () else Inl (CStatus code text))"

definition prepare_upload_reply :: "FileResponse http_reply \<Rightarrow> ClientError + FileResponse" where
  "prepare_upload_reply r =
     (case r of
        TransportError e \<Rightarrow> Inl (CHttp e)
      | HttpReply code body text \<Rightarrow>
          if is_success code then (case body of Inl e \<Rightarrow> Inl (CHttp e) | Inr v \<Rightarrow> Inr v)
          else Inl (CStatus code text))"

text \<open>The progress values of an upload: the total after each chunk read from the file.\<close>

fun sent_counts :: "nat \<Rightarrow> bytes list \<Rightarrow> nat list" where
  "sent_counts n [] = []"
| "sent_counts n (chunk # cs) = (n + length chunk) # sent_counts (n + length chunk) cs"

end
