(* ===== verification/Handle.thy ===== *)
theory Handle
  imports Server Client Turn_Client
begin

text \<open>
  The core handle, \<open>src/rust/core/src/handle.rs\<close>, and the errors of \<open>client.rs\<close>: the core actor
  (configuration and server lifecycle), the relay device list, choosing a transport route, and the
  driver of a send session.

  What another host or the operating system answers is a parameter: whether a port is free, the
  outcome of resolving, dialing, bridging and hole punching (\<open>RouteEnv\<close>), and the answer of the
  peer to each HTTP call of the driver, as a function of the peer's state \<open>'w\<close> (\<open>SendEnv\<close>; \<open>None\<close>
  is a cancellation that wins the \<open>select!\<close>).  The driver runs between other messages of the
  session actor; the model runs it on the actor's state alone.
\<close>

section \<open>The core actor\<close>

record CoreOptions =
  op_enable_discovery :: bool
  op_max_recv_sessions :: nat

definition default_options :: CoreOptions where
  "default_options =
     \<lparr>op_enable_discovery = True, op_max_recv_sessions = DEFAULT_MAX_RECV_SESSIONS\<rparr>"

text \<open>\<open>ap_tls\<close> is the fingerprint of the device identity, when one is configured.\<close>

record App =
  ap_core :: Core
  ap_server :: bool
  ap_state :: "bool watch"
  ap_error :: "string option watch"
  ap_tls :: "string option"

definition new_app :: "NodeDevice \<Rightarrow> CoreConfig \<Rightarrow> CoreOptions \<Rightarrow> string option \<Rightarrow> App" where
  "new_app device config options tls =
     \<lparr>ap_core = \<lparr>co_config = config\<lparr>cc_port := nd_port device\<rparr>, co_device = new_device_actor device,
                 co_sessions = new_actor (op_max_recv_sessions options), co_fs = Map.empty\<rparr>,
      ap_server = False, ap_state = watch_channel False, ap_error = watch_channel None, ap_tls = tls\<rparr>"

definition get_config :: "App \<Rightarrow> CoreConfig" where
  "get_config a = co_config (ap_core a)"

definition set_current :: "NodeDevice \<Rightarrow> App \<Rightarrow> App" where
  "set_current d a = a\<lparr>ap_core := (ap_core a)\<lparr>co_device := set_current_device d (co_device (ap_core a))\<rparr>\<rparr>"

definition current_device :: "App \<Rightarrow> NodeDevice" where
  "current_device a = get_current_device (co_device (ap_core a))"

definition change_config :: "CoreConfig \<Rightarrow> App \<Rightarrow> App" where
  "change_config config a =
     (let a1 = set_current ((current_device a)\<lparr>nd_port := cc_port config\<rparr>) a
      in a1\<lparr>ap_core := (ap_core a1)\<lparr>co_config := config\<rparr>\<rparr>)"

definition change_port :: "u16 \<Rightarrow> App \<Rightarrow> App" where
  "change_port port a = change_config ((get_config a)\<lparr>cc_port := port\<rparr>) a"

definition change_path :: "string \<Rightarrow> App \<Rightarrow> App" where
  "change_path path a = change_config ((get_config a)\<lparr>cc_store_path := path\<rparr>) a"

text \<open>The scheme and fingerprint announced once the server starts.\<close>

definition advertise :: "App \<Rightarrow> App" where
  "advertise a =
     (let current = current_device a;
          plain = (cc_allow_plain_tls (get_config a) = Some True) in
      case ap_tls a of
        Some fp \<Rightarrow>
          if plain then set_current (current\<lparr>nd_protocol := ''http''\<rparr>) a
          else set_current (current\<lparr>nd_protocol := ''https'', nd_fingerprint := fp\<rparr>) a
      | None \<Rightarrow> set_current (current\<lparr>nd_protocol := ''http''\<rparr>) a)"

definition on_start :: "(u16 \<Rightarrow> bool) \<Rightarrow> App \<Rightarrow> App" where
  "on_start free a0 =
     (let a = advertise (a0\<lparr>ap_server := False\<rparr>) in
      case bind_port free (cc_port (get_config a)) of
        Inr port \<Rightarrow>
          let a1 = (if port \<noteq> cc_port (get_config a)
                    then set_current ((current_device a)\<lparr>nd_port := port\<rparr>)
                           (a\<lparr>ap_core := (ap_core a)\<lparr>co_config := (get_config a)\<lparr>cc_port := port\<rparr>\<rparr>\<rparr>)
                    else a)
          in a1\<lparr>ap_error := watch_send None (ap_error a1), ap_state := watch_send True (ap_state a1),
                ap_server := True\<rparr>
      | Inl e \<Rightarrow>
          a\<lparr>ap_error := watch_send (Some e) (ap_error a), ap_state := watch_send False (ap_state a),
            ap_server := True\<rparr>)"

definition on_shutdown :: "App \<Rightarrow> App" where
  "on_shutdown a = a\<lparr>ap_server := False, ap_state := watch_send False (ap_state a)\<rparr>"

definition clear_table :: "App \<Rightarrow> App" where
  "clear_table a = a\<lparr>ap_core := (ap_core a)\<lparr>co_device := clear_devices (co_device (ap_core a))\<rparr>\<rparr>"

definition start :: "(u16 \<Rightarrow> bool) \<Rightarrow> App \<Rightarrow> App" where
  "start free a = clear_table (on_start free a)"

definition shutdown :: "App \<Rightarrow> App" where
  "shutdown a = clear_table (on_shutdown a)"

section \<open>Targets and the relay's device list\<close>

definition target_key :: "NodeDevice \<Rightarrow> string" where
  "target_key d =
     (if nd_fingerprint d = [] then nd_address d @ '':'' @ show_nat (unat (nd_port d))
      else nd_fingerprint d)"

definition is_private_or_lan :: "string \<Rightarrow> bool" where
  "is_private_or_lan addr \<longleftrightarrow>
     starts_with addr ''127.'' \<or> starts_with addr ''10.'' \<or> starts_with addr ''192.168.'' \<or>
     starts_with addr ''169.254.'' \<or> starts_with addr ''0.0.0.0'' \<or>
     (starts_with addr ''172.'' \<and>
        (case split_char (CHR ''.'') addr of
           _ # o2 # _ \<Rightarrow> (case parse_u8 o2 of Some b \<Rightarrow> 16 \<le> b \<and> b \<le> 31 | None \<Rightarrow> False)
         | _ \<Rightarrow> False))"

text \<open>An element of the JSON device list: each field is there with the expected type, or not.\<close>

record RelayDev =
  rd_fingerprint :: "string option"
  rd_alias :: "string option"
  rd_device_model :: "string option"
  rd_device_type :: "string option"
  rd_address :: "string option"
  rd_port :: "u64 option"
  rd_protocol :: "string option"

definition or_else :: "'a \<Rightarrow> 'a option \<Rightarrow> 'a" where
  "or_else d x = (case x of None \<Rightarrow> d | Some v \<Rightarrow> v)"

definition relay_peer :: "RelayDev \<Rightarrow> NodeDevice" where
  "relay_peer dev =
     \<lparr>nd_alias = or_else ''?'' (rd_alias dev), nd_version = ''2.2'',
      nd_device_model = or_else [] (rd_device_model dev),
      nd_device_type = or_else [] (rd_device_type dev),
      nd_fingerprint = or_else [] (rd_fingerprint dev), nd_address = or_else [] (rd_address dev),
      nd_port = ucast (or_else 53317 (rd_port dev)), nd_protocol = or_else ''https'' (rd_protocol dev),
      nd_download = True, nd_announcement = True, nd_announce = True,
      nd_discovery_source = ''relay''\<rparr>"

definition merge_one :: "NodeDevice \<Rightarrow> RelayDev \<Rightarrow> DeviceActor \<Rightarrow> DeviceActor" where
  "merge_one current dev a =
     (let fp = or_else [] (rd_fingerprint dev); alias = or_else [] (rd_alias dev) in
      if fp = [] \<or> fp = nd_fingerprint current then a
      else if alias \<noteq> [] \<and> alias = nd_alias current then a
      else
        let peer = relay_peer dev;
            is_lan_peer = (case get_device (nd_fingerprint peer) a of
                             None \<Rightarrow> False
                           | Some d \<Rightarrow> nd_discovery_source d = ''lan'' \<and> is_private_or_lan (nd_address d))
        in if is_lan_peer then a else add_node_device peer a)"

text \<open>The merge of \<open>relay_discovery\<close>; \<open>current\<close> was read before the request was sent.\<close>

definition relay_merge :: "NodeDevice \<Rightarrow> RelayDev list \<Rightarrow> DeviceActor \<Rightarrow> DeviceActor" where
  "relay_merge current devs a = fold (merge_one current) devs a"

text \<open>The search of \<open>lookup_fingerprint_on_relay\<close> in the returned list.\<close>

definition lookup_fingerprint :: "string \<Rightarrow> RelayDev list \<Rightarrow> string + string" where
  "lookup_fingerprint address devs =
     (case List.map_filter (\<lambda>d. if or_else [] (rd_address d) = address then rd_fingerprint d else None) devs of
        fp # _ \<Rightarrow> Inr fp
      | [] \<Rightarrow> Inl (''no device at '' @ address @ '' in relay registry''))"

section \<open>Choosing a route\<close>

record RouteEnv =
  rv_resolve :: "string + SocketAddr"
  rv_lookup :: "string option"
  rv_dial :: "string \<Rightarrow> bool"
  rv_raw_port :: u16
  rv_punch :: bool
  rv_quic_port :: u16
  rv_tls_bridge :: "string + u16"
  rv_turn_bridge :: "string + u16"

datatype Transport = Direct | RawBridge string | QuicBridge | TlsBridge "string option" bool | TurnBridge

text \<open>
  The result is the device view to dial and the transport chosen; the second component is the route
  the session is marked with.  \<open>TlsBridge expected relayed\<close> carries the certificate hash the peer
  must show (\<open>None\<close>: trust on first use).
\<close>

definition route_transport ::
  "RouteEnv \<Rightarrow> CoreConfig \<Rightarrow> bool \<Rightarrow> RelaySettings option \<Rightarrow> NodeDevice \<Rightarrow> bool \<Rightarrow>
     (string + NodeDevice \<times> Transport) \<times> string option" where
  "route_transport env cfg tls_ready settings target use_relay =
     (case rv_resolve env of
        Inl e \<Rightarrow> (Inl e, None)
      | Inr sock \<Rightarrow>
          let relayed = (use_relay \<and> settings \<noteq> None);
              peer_https = eq_ignore_ascii_case (nd_protocol target) ''https'';
              bridge_fp = (if starts_with (nd_fingerprint target) ''manual-''
                           then or_else (nd_fingerprint target) (rv_lookup env)
                           else nd_fingerprint target);
              bridge = (settings \<noteq> None \<and> (use_relay \<or> \<not> is_private_or_lan (nd_address target)) \<and>
                        rv_dial env bridge_fp);
              tls_on = (tls_ready \<and> cc_allow_plain_tls cfg \<noteq> Some True \<and> peer_https) in
          if bridge then
            (Inr (bridged_view target (rv_raw_port env), RawBridge bridge_fp), Some ''turn'')
          else if relayed \<and> rv_punch env then
            (Inr (bridged_view target (rv_quic_port env), QuicBridge), Some ''stun'')
          else if tls_on then
            (case rv_tls_bridge env of
               Inl e \<Rightarrow> (Inl (''tls bridge failed: '' @ e), None)
             | Inr port \<Rightarrow>
                 (Inr (bridged_view target port,
                       TlsBridge (if starts_with (nd_fingerprint target) ''manual-'' then None
                                  else Some (nd_fingerprint target)) relayed), None))
          else if relayed then
            (case rv_turn_bridge env of
               Inl e \<Rightarrow> (Inl (''relay bridge failed: '' @ e), None)
             | Inr port \<Rightarrow> (Inr (bridged_view target port, TurnBridge), None))
          else (Inr (target, Direct), None))"

section \<open>Sending\<close>

text \<open>The metadata of a selected file, or the error of reading it.\<close>

record Selected =
  sf_path :: string
  sf_size :: "string + i64"

text \<open>\<open>lower\<close> is \<open>str::to_lowercase\<close>, which follows the Unicode case tables.\<close>

definition lower_extension :: "(string \<Rightarrow> string) \<Rightarrow> string \<Rightarrow> string" where
  "lower_extension lower path =
     (case path_extension path of None \<Rightarrow> ''application/octet-stream'' | Some e \<Rightarrow> lower e)"

fun file_entries ::
  "(string \<Rightarrow> string) \<Rightarrow> (nat \<Rightarrow> string) \<Rightarrow> nat \<Rightarrow> Selected list \<Rightarrow> SendError + (string \<times> FileInfo) list \<times> nat" where
  "file_entries lower gen n [] = Inr ([], n)"
| "file_entries lower gen n (f # fs) =
     (case sf_size f of
        Inl e \<Rightarrow> Inl (SendIo e)
      | Inr sz \<Rightarrow>
          (case file_entries lower gen (Suc n) fs of
             Inl e \<Rightarrow> Inl e
           | Inr (es, m) \<Rightarrow>
               Inr ((gen n,
                     \<lparr>fi_id = gen n, fi_file_name = or_else ''file'' (path_file_name (sf_path f)),
                      fi_size = sz, fi_file_type = lower_extension lower (sf_path f),
                      fi_sha256 = None, fi_preview = None\<rparr>) # es, m)))"

text \<open>\<open>send_files_internal\<close> up to spawning the driver: the new session's id and its entries.\<close>

definition send_files ::
  "(string \<Rightarrow> string) \<Rightarrow> (nat \<Rightarrow> string) \<Rightarrow> NodeDevice \<Rightarrow> Selected list \<Rightarrow> Actor \<Rightarrow>
     Actor \<times> (SendError + string \<times> (string \<times> FileInfo) list)" where
  "send_files lower gen target files a =
     (if files = [] then (a, Inl EmptySelection)
      else case file_entries lower gen (a_uuid a) files of
        Inl e \<Rightarrow> (a, Inl e)
      | Inr (entries, n) \<Rightarrow>
          (case create_send_session gen target entries (a\<lparr>a_uuid := n\<rparr>) of
             (a', i) \<Rightarrow> (a', Inr (i, entries))))"

record 'w SendEnv =
  se_route :: "nat \<Rightarrow> RouteEnv"
  se_register :: "NodeDevice \<Rightarrow> NodeAnnounce \<Rightarrow> 'w \<Rightarrow> 'w"
  se_prepare :: "nat \<Rightarrow> NodeDevice \<Rightarrow> FileRequest \<Rightarrow> 'w \<Rightarrow> 'w \<times> (ClientError + FileResponse) option"
  se_upload :: "NodeDevice \<Rightarrow> string \<Rightarrow> string \<Rightarrow> string \<Rightarrow> string \<Rightarrow> 'w \<Rightarrow>
    'w \<times> nat list \<times> (ClientError + unit) option"
  se_cancel :: "NodeDevice \<Rightarrow> string \<Rightarrow> 'w \<Rightarrow> 'w"

definition mark_opt :: "(nat \<Rightarrow> string) \<Rightarrow> string \<Rightarrow> string option \<Rightarrow> Actor \<Rightarrow> Actor" where
  "mark_opt gen i r a = (case r of None \<Rightarrow> a | Some route \<Rightarrow> mark_route gen i route a)"

text \<open>The first routing decision: the target to dial, and the real peer if a direct bridge is used.\<close>

definition initial_route ::
  "(nat \<Rightarrow> string) \<Rightarrow> 'w SendEnv \<Rightarrow> App \<Rightarrow> string \<Rightarrow> NodeDevice \<Rightarrow> bool \<Rightarrow> Actor \<Rightarrow>
     Actor \<times> (string + NodeDevice \<times> NodeDevice option)" where
  "initial_route gen env app i target force_relay a =
     (let cfg = get_config app; settings = relay_settings cfg; tls_ready = (ap_tls app \<noteq> None) in
      if force_relay then
        (if settings = None then (a, Inl ''via-relay requested but no relay is configured'')
         else case route_transport (se_route env 0) cfg tls_ready settings target True of
           (Inl e, mark) \<Rightarrow> (mark_opt gen i mark a, Inl e)
         | (Inr (view, _), mark) \<Rightarrow>
             let a1 = mark_opt gen i mark a;
                 already_stun = (case find (\<lambda>s. sm_id s = i) (watch_borrow (session_index gen a1)) of
                                   None \<Rightarrow> False | Some s \<Rightarrow> sm_route s = ''stun'')
             in (if already_stun then a1 else mark_via_relay gen i a1, Inr (view, None)))
      else
        let tls_on = (tls_ready \<and> cc_allow_plain_tls cfg \<noteq> Some True \<and>
                      eq_ignore_ascii_case (nd_protocol target) ''https'');
            is_relay_discovered = (settings \<noteq> None \<and> \<not> is_private_or_lan (nd_address target)) in
        if tls_on \<and> \<not> is_relay_discovered then
          (case route_transport (se_route env 0) cfg tls_ready settings target False of
             (Inl e, _) \<Rightarrow> (a, Inl e)
           | (Inr (view, _), _) \<Rightarrow> (a, Inr (view, Some target)))
        else (a, Inr (target, None)))"

text \<open>
  \<open>register\<close> (its failure is ignored) and \<open>prepare-upload\<close>, with the fallback to the relay after a
  transport failure of the direct route.  \<open>Inl None\<close>: the session was cancelled;
  \<open>Inl (Some reason)\<close>: it must fail.
\<close>

definition prepare_with_fallback ::
  "(nat \<Rightarrow> string) \<Rightarrow> 'w SendEnv \<Rightarrow> App \<Rightarrow> string \<Rightarrow> FileRequest \<Rightarrow> NodeDevice \<Rightarrow> NodeDevice option \<Rightarrow> bool \<Rightarrow>
     Actor \<Rightarrow> 'w \<Rightarrow> (Actor \<times> 'w) \<times> (string option + NodeDevice \<times> (ClientError + FileResponse))" where
  "prepare_with_fallback gen env app i req target pristine force_relay a w =
     (let announce = to_announce (current_device app) in
      case se_prepare env 0 target req (se_register env target announce w) of
        (w1, None) \<Rightarrow> ((a, w1), Inl None)
      | (w1, Some prepared) \<Rightarrow>
          let settings = relay_settings (get_config app);
              retry = (\<not> force_relay \<and> settings \<noteq> None \<and>
                       (case prepared of Inl (CStatus _ _) \<Rightarrow> False | Inl _ \<Rightarrow> True | Inr _ \<Rightarrow> False)) in
          if \<not> retry then ((a, w1), Inr (target, prepared))
          else case route_transport (se_route env 1) (get_config app) (ap_tls app \<noteq> None) settings
                      (or_else target pristine) True of
            (Inl e, mark) \<Rightarrow> ((mark_opt gen i mark a, w1), Inl (Some e))
          | (Inr (view, _), mark) \<Rightarrow>
              let a1 = mark_via_relay gen i (mark_opt gen i mark a) in
              (case se_prepare env 1 view req (se_register env view announce w1) of
                 (w2, None) \<Rightarrow> ((a1, w2), Inl None)
               | (w2, Some again) \<Rightarrow> ((a1, w2), Inr (view, again))))"

definition prepare_failure :: "ClientError \<Rightarrow> string" where
  "prepare_failure e =
     (if error_status e = Some 403 then ''declined by receiver''
      else if error_status e = Some 409 then ''receiver busy''
      else ''prepare-upload failed: '' @ show_client_error e)"

text \<open>
  The upload loop over the accepted files; ids the sender does not know are skipped.  An upload
  answers with the byte counts the forwarder task observed and the outcome; a cancellation or a
  failure also tells the receiver.
\<close>

fun upload_files ::
  "(nat \<Rightarrow> string) \<Rightarrow> 'w SendEnv \<Rightarrow> string \<Rightarrow> NodeDevice \<Rightarrow> string \<Rightarrow> (string, string) hashmap \<Rightarrow>
     (string \<times> string) list \<Rightarrow> Actor \<times> 'w \<Rightarrow> Actor \<times> 'w" where
  "upload_files gen env i target remote paths [] (a, w) = (a, w)"
| "upload_files gen env i target remote paths ((fid, token) # fs) (a, w) =
     (case hget paths fid of
        None \<Rightarrow> upload_files gen env i target remote paths fs (a, w)
      | Some path \<Rightarrow>
          (case se_upload env target remote fid token path w of
             (w1, counts, outcome) \<Rightarrow>
               let a1 = fold (report_progress gen i fid) counts (report_file_state gen i fid FTransfer a) in
               (case outcome of
                  None \<Rightarrow> (a1, se_cancel env target remote w1)
                | Some (Inr _) \<Rightarrow>
                    upload_files gen env i target remote paths fs (report_file_state gen i fid FFinish a1, w1)
                | Some (Inl e) \<Rightarrow>
                    (report_file_state gen i fid (FFail (show_client_error e)) a1,
                     se_cancel env target remote w1))))"

definition file_paths :: "(string \<times> FileInfo) list \<Rightarrow> Selected list \<Rightarrow> (string, string) hashmap" where
  "file_paths entries files = hcollect (zip (map fst entries) (map sf_path files))"

definition run_send_driver ::
  "(nat \<Rightarrow> string) \<Rightarrow> 'w SendEnv \<Rightarrow> App \<Rightarrow> string \<Rightarrow> NodeDevice \<Rightarrow> Selected list \<Rightarrow>
     (string \<times> FileInfo) list \<Rightarrow> bool \<Rightarrow> Actor \<Rightarrow> 'w \<Rightarrow> Actor \<times> 'w" where
  "run_send_driver gen env app i target files entries force_relay a w =
     (if cancel_token gen i a = None then (a, w)
      else case initial_route gen env app i target force_relay a of
        (a1, Inl reason) \<Rightarrow> (fail gen i reason a1, w)
      | (a1, Inr (view, pristine)) \<Rightarrow>
          let req = \<lparr>fr_info = from_device (current_device app), fr_files = hcollect entries\<rparr> in
          (case prepare_with_fallback gen env app i req view pristine force_relay a1 w of
             ((a2, w2), Inl None) \<Rightarrow> (a2, w2)
           | ((a2, w2), Inl (Some reason)) \<Rightarrow> (fail gen i reason a2, w2)
           | ((a2, w2), Inr (_, Inl e)) \<Rightarrow> (fail gen i (prepare_failure e) a2, w2)
           | ((a2, w2), Inr (view', Inr resp)) \<Rightarrow>
               if rs_files resp = [] then
                 (fold (\<lambda>(fid, _). report_file_state gen i fid FSkip) entries a2, w2)
               else
                 upload_files gen env i view' (rs_session_id resp) (file_paths entries files)
                   (rs_files resp) (report_state gen i Transfering a2, w2)))"

end
