(* ===== verification/Handle_Props.thy ===== *)
theory Handle_Props
  imports Handle Session_Props
begin

text \<open>
  Properties of the core handle: the announced port, the merge of the relay's device list, the
  choice of a transport, and the outcome of a send session.
\<close>

section \<open>Lifecycle\<close>

datatype AppOp = OpStart "u16 \<Rightarrow> bool" | OpShutdown | OpConfig CoreConfig | OpPort u16 | OpPath string

fun app_step :: "App \<Rightarrow> AppOp \<Rightarrow> App \<times> unit" where
  "app_step a (OpStart free) = (start free a, ())"
| "app_step a OpShutdown = (shutdown a, ())"
| "app_step a (OpConfig c) = (change_config c a, ())"
| "app_step a (OpPort p) = (change_port p a, ())"
| "app_step a (OpPath p) = (change_path p a, ())"

definition ports_agree :: "App \<Rightarrow> bool" where
  "ports_agree a \<longleftrightarrow> nd_port (current_device a) = cc_port (get_config a)"

lemma set_current_simps [simp]:
  "current_device (set_current d a) = d" "get_config (set_current d a) = get_config a"
  "ap_tls (set_current d a) = ap_tls a" "ap_error (set_current d a) = ap_error a"
  "ap_state (set_current d a) = ap_state a" "ap_server (set_current d a) = ap_server a"
  by (simp_all add: set_current_def current_device_def get_config_def set_current_device_def
      get_current_device_def)

lemma view_simps [simp]:
  "current_device (a\<lparr>ap_server := b\<rparr>) = current_device a" "get_config (a\<lparr>ap_server := b\<rparr>) = get_config a"
  "current_device (a\<lparr>ap_state := st\<rparr>) = current_device a" "get_config (a\<lparr>ap_state := st\<rparr>) = get_config a"
  "current_device (a\<lparr>ap_error := e\<rparr>) = current_device a" "get_config (a\<lparr>ap_error := e\<rparr>) = get_config a"
  "current_device (a\<lparr>ap_core := (ap_core a)\<lparr>co_config := c\<rparr>\<rparr>) = current_device a"
  "get_config (a\<lparr>ap_core := (ap_core a)\<lparr>co_config := c\<rparr>\<rparr>) = c"
  by (simp_all add: current_device_def get_config_def)

lemma clear_table_simps [simp]:
  "current_device (clear_table a) = current_device a" "get_config (clear_table a) = get_config a"
  "ap_state (clear_table a) = ap_state a" "ap_error (clear_table a) = ap_error a"
  by (simp_all add: clear_table_def current_device_def get_config_def clear_devices_def
      notify_change_def get_current_device_def)

lemma advertise_simps [simp]:
  "nd_port (current_device (advertise a)) = nd_port (current_device a)"
  "get_config (advertise a) = get_config a" "ap_state (advertise a) = ap_state a"
  "ap_error (advertise a) = ap_error a"
  by (auto simp: advertise_def Let_def split: option.split)

lemma on_start_Inr:
  assumes "bind_port free (cc_port (get_config a)) = Inr port" and "ports_agree a"
  shows "cc_port (get_config (on_start free a)) = port \<and> nd_port (current_device (on_start free a)) = port \<and>
    watch_borrow (ap_state (on_start free a)) \<and> watch_borrow (ap_error (on_start free a)) = None"
  using assms by (auto simp: on_start_def Let_def ports_agree_def)

lemma on_start_Inl:
  assumes "bind_port free (cc_port (get_config a)) = Inl e"
  shows "get_config (on_start free a) = get_config a \<and>
    nd_port (current_device (on_start free a)) = nd_port (current_device a) \<and>
    \<not> watch_borrow (ap_state (on_start free a)) \<and> watch_borrow (ap_error (on_start free a)) = Some e"
  using assms by (simp add: on_start_def Let_def)

lemma ports_agree_step: "ports_agree a \<Longrightarrow> ports_agree (fst (app_step a m))"
proof (cases m)
  case (OpStart free)
  assume "ports_agree a"
  then show ?thesis
    using OpStart on_start_Inr [of free a] on_start_Inl [of free a]
    by (cases "bind_port free (cc_port (get_config a))") (auto simp: start_def ports_agree_def)
next
  case OpShutdown
  assume "ports_agree a"
  then show ?thesis using OpShutdown by (simp add: shutdown_def on_shutdown_def ports_agree_def)
qed (simp_all add: ports_agree_def change_config_def change_port_def change_path_def Let_def)

interpretation app_ports: actor_invariant app_step ports_agree
  by unfold_locales (rule ports_agree_step)

lemma ports_agree_new [simp]: "ports_agree (new_app d c o1 tls)"
  by (simp add: ports_agree_def new_app_def current_device_def get_config_def get_current_device_def
      new_device_actor_def)

section \<open>The relay's device list\<close>

definition lan_peer :: "NodeDevice \<Rightarrow> bool" where
  "lan_peer d \<longleftrightarrow> nd_discovery_source d = ''lan'' \<and> is_private_or_lan (nd_address d)"

lemma merge_one_cases:
  assumes "da_current a = current"
  shows "merge_one current dev a = a \<or>
    (nd_fingerprint (relay_peer dev) \<noteq> nd_fingerprint current \<and>
     (\<forall>d. hget (da_map a) (nd_fingerprint (relay_peer dev)) = Some d \<longrightarrow> \<not> lan_peer d) \<and>
     merge_one current dev a = on_add (relay_peer dev) a)"
  using assms
  by (auto simp: merge_one_def Let_def relay_peer_def lan_peer_def get_device_def on_get_def
      add_node_device_def split: option.splits)

text \<open>What a merge keeps of the table.\<close>

definition merge_ok :: "DeviceActor \<Rightarrow> DeviceActor \<Rightarrow> bool" where
  "merge_ok a b \<longleftrightarrow> da_current b = da_current a \<and>
     (\<forall>fp d. hget (da_map a) fp = Some d \<and> lan_peer d \<longrightarrow> hget (da_map b) fp = Some d) \<and>
     (\<forall>fp d. hget (da_map b) fp = Some d \<longrightarrow>
        hget (da_map a) fp = Some d \<or>
        (nd_discovery_source d = ''relay'' \<and> fp \<noteq> nd_fingerprint (da_current a)))"

lemma merge_one_ok: "da_current a = current \<Longrightarrow> merge_ok a (merge_one current dev a)"
  using merge_one_cases [of a current dev]
  by (auto simp: merge_ok_def relay_peer_def split: if_splits)

lemma merge_ok_refl [simp]: "merge_ok a a"
  by (simp add: merge_ok_def)

lemma merge_ok_trans: "merge_ok a b \<Longrightarrow> merge_ok b c \<Longrightarrow> merge_ok a c"
  unfolding merge_ok_def by (metis (no_types))

lemma relay_merge_ok: "da_current a = current \<Longrightarrow> merge_ok a (relay_merge current devs a)"
proof (induction devs arbitrary: a)
  case (Cons dev devs)
  let ?b = "merge_one current dev a"
  have one: "merge_ok a ?b" using Cons.prems by (rule merge_one_ok)
  then have "da_current ?b = current" using Cons.prems by (simp add: merge_ok_def)
  from merge_ok_trans [OF one Cons.IH [OF this]] show ?case by (simp add: relay_merge_def)
qed (simp add: relay_merge_def)

section \<open>Send sessions\<close>

text \<open>
  What the sender's user sees of a session: the state of each file and of the session.
\<close>

definition file_states :: "Session \<Rightarrow> string \<Rightarrow> FileState option" where
  "file_states s fid = map_option fe_state (hget (s_files s) fid)"

definition sess_view :: "string \<Rightarrow> (string \<rightharpoonup> FileState) \<Rightarrow> MissionState \<Rightarrow> Actor \<Rightarrow> bool" where
  "sess_view i F st a \<longleftrightarrow>
     (\<exists>s. hget (a_sessions a) i = Some s \<and> hwf (s_files s) \<and> file_states s = F \<and> s_state s = st)"

definition settled :: "FileState \<Rightarrow> bool" where
  "settled st \<longleftrightarrow> st = FFinish \<or> st = FSkip"

lemma sess_viewI:
  "hget (a_sessions a) i = Some s \<Longrightarrow> hwf (s_files s) \<Longrightarrow> file_states s = F \<Longrightarrow> s_state s = st \<Longrightarrow> sess_view i F st a"
  by (auto simp: sess_view_def)

lemma file_states_mark [simp]:
  "file_states (mark_file fid st s) = (if file_states s fid = None then file_states s else (file_states s)(fid \<mapsto> st))"
  by (auto simp: file_states_def fun_eq_iff split: option.splits)

lemma file_states_cong [simp]:
  "file_states (emit e s) = file_states s" "file_states (s\<lparr>s_state := st\<rparr>) = file_states s"
  "file_states (s\<lparr>s_route := r\<rparr>) = file_states s" "file_states (s\<lparr>s_via_relay := v\<rparr>) = file_states s"
  "file_states (s\<lparr>s_cancelled := v\<rparr>) = file_states s"
  "file_states (s\<lparr>s_decision := dc\<rparr>) = file_states s"
  by (simp_all add: file_states_def fun_eq_iff)

lemma all_done_iff:
  assumes "hwf (s_files s)" and "is_active s" and "file_states s fid \<noteq> None"
  shows "all_done s \<longleftrightarrow> (\<forall>x \<in> ran (file_states s). settled x)"
proof -
  have "ran (file_states s) = fe_state ` set (hvals (s_files s))"
    using hget_eq_Some_iff [OF assms(1)] by (force simp: ran_def file_states_def)
  moreover have "s_files s \<noteq> []" using assms(3) by (auto simp: file_states_def)
  ultimately show ?thesis using assms(2) by (simp add: all_done_def list_all_iff settled_def)
qed

text \<open>Reports of the driver on a running session.\<close>

definition after_report :: "(string \<rightharpoonup> FileState) \<Rightarrow> MissionState" where
  "after_report F = (if \<forall>x \<in> ran F. settled x then Finished else Transfering)"

lemma view_report:
  assumes "sess_view i F st0 a" and "st0 = Pending \<or> st0 = Transfering"
    and "F fid \<noteq> None" and "\<forall>m. st \<noteq> FFail m"
  shows "sess_view i (F(fid \<mapsto> st)) (if \<forall>x \<in> ran (F(fid \<mapsto> st)). settled x then Finished else st0)
    (report_file_state gen i fid st a)"
proof -
  obtain s where s: "hget (a_sessions a) i = Some s" "hwf (s_files s)" "file_states s = F" "s_state s = st0"
    using assms(1) by (auto simp: sess_view_def)
  define s' where "s' = mark_file fid st s"
  have act: "is_active s" using s assms(2) by (auto simp: is_active_def)
  have wf: "hwf (s_files s')" "file_states s' = F(fid \<mapsto> st)" "is_active s'" "s_state s' = st0"
    using s assms(3) act by (auto simp: s'_def)
  have "report_file_state gen i fid st a = broadcast_index (check_finish i (put_session i s' a))"
    using s(1) act assms(4)
    by (cases st) (simp_all add: s'_def report_file_state_def set_file_state_def Let_def)
  then have "hget (a_sessions (report_file_state gen i fid st a)) i =
      Some (if all_done s' then emit (StateChanged Finished) (s'\<lparr>s_state := Finished\<rparr>) else s')"
    using check_finish_get [of "put_session i s' a" i s'] by simp
  moreover have "all_done s' \<longleftrightarrow> (\<forall>x \<in> ran (F(fid \<mapsto> st)). settled x)"
    using all_done_iff [of s' fid] wf by simp
  ultimately show ?thesis using wf by (auto intro!: sess_viewI)
qed

lemma view_report_fail:
  assumes "sess_view i F st0 a" and "st0 = Pending \<or> st0 = Transfering" and "F fid \<noteq> None"
  shows "sess_view i (F(fid \<mapsto> FFail m)) Failed (report_file_state gen i fid (FFail m) a)"
  using assms
  by (auto simp: sess_view_def is_active_def report_file_state_def set_file_state_def Let_def
      fail_session_def take_decision_def failed_session_def split: option.split)

lemma view_progress [simp]:
  "sess_view i F st (report_progress gen i fid n a) = sess_view i F st a"
  by (auto simp: sess_view_def report_progress_def on_report_progress_def split: option.split)

lemma view_progress_all [simp]:
  "sess_view i F st (fold (report_progress gen i fid) ns a) = sess_view i F st a"
  by (induction ns arbitrary: a) simp_all

lemma view_transfering:
  "sess_view i F st a \<Longrightarrow> st = Pending \<or> st = Transfering \<Longrightarrow>
     sess_view i F Transfering (report_state gen i Transfering a)"
  by (auto simp: sess_view_def report_state_def set_state_def is_active_def)

lemma view_mark [simp]:
  "sess_view i F st (mark_route gen i r a) = sess_view i F st a"
  "sess_view i F st (mark_via_relay gen i a) = sess_view i F st a"
  "sess_view i F st (mark_opt gen i r' a) = sess_view i F st a"
  by (auto simp: sess_view_def mark_opt_def mark_route_def mark_via_relay_def on_mark_route_def
      on_mark_via_relay_def split: option.split)

lemma view_fail:
  assumes "sess_view i F st a" and "st = Pending \<or> st = Transfering"
  shows "sess_view i F Failed (fail gen i reason a)"
  using assms
  by (auto simp: sess_view_def is_active_def fail_def fail_session_def take_decision_def
      failed_session_def split: option.split)

lemma ran_transfer_upd [simp]: "\<not> (\<forall>x \<in> ran (F(k \<mapsto> FTransfer)). settled x)"
  by (auto simp: ran_def settled_def intro: exI [of _ k])

text \<open>One accepted file, from the start of its upload to the report of its end.\<close>

lemma view_one_file:
  assumes "sess_view i F Transfering a" and "F fid \<noteq> None"
  shows "sess_view i (F(fid \<mapsto> FFinish)) (after_report (F(fid \<mapsto> FFinish)))
    (report_file_state gen i fid FFinish
      (fold (report_progress gen i fid) ns (report_file_state gen i fid FTransfer a)))"
proof -
  have "sess_view i (F(fid \<mapsto> FTransfer)) Transfering (report_file_state gen i fid FTransfer a)"
    using view_report [OF assms(1) _ assms(2), of FTransfer gen] by simp
  then show ?thesis
    using view_report [of i "F(fid \<mapsto> FTransfer)" Transfering _ fid FFinish gen]
    by (simp add: after_report_def)
qed

text \<open>Every upload of a known file succeeds; the peer's state runs along.\<close>

fun uploads_ok ::
  "'w SendEnv \<Rightarrow> NodeDevice \<Rightarrow> string \<Rightarrow> (string, string) hashmap \<Rightarrow> (string \<times> string) list \<Rightarrow> 'w \<Rightarrow> bool" where
  "uploads_ok env target remote paths [] w \<longleftrightarrow> True"
| "uploads_ok env target remote paths ((fid, token) # fs) w \<longleftrightarrow>
     (case hget paths fid of
        None \<Rightarrow> uploads_ok env target remote paths fs w
      | Some path \<Rightarrow>
          (case se_upload env target remote fid token path w of
             (w1, ns, outcome) \<Rightarrow>
               outcome = Some (Inr ()) \<and> uploads_ok env target remote paths fs w1))"

definition finish_all :: "(string \<rightharpoonup> FileState) \<Rightarrow> (string \<times> string) list \<Rightarrow> string \<rightharpoonup> FileState" where
  "finish_all F fs = (\<lambda>k. if F k \<noteq> None \<and> k \<in> fst ` set fs then Some FFinish else F k)"

lemma finish_all_Cons:
  "finish_all F ((fid, t) # fs) = finish_all (if F fid = None then F else F(fid \<mapsto> FFinish)) fs"
  by (auto simp: finish_all_def fun_eq_iff)

lemma finish_all_done:
  assumes "\<forall>k \<in> fst ` set fs. F k = None"
  shows "finish_all F fs = F"
  using assms by (auto simp: finish_all_def fun_eq_iff)

lemma upload_files_unknown:
  "fst ` set fs \<inter> set (hkeys paths) = {} \<Longrightarrow> upload_files gen env i target remote paths fs (a, w) = (a, w)"
proof (induction fs)
  case (Cons p fs)
  then have "hget paths (fst p) = None" by (auto simp: map_of_eq_None_iff)
  then show ?case using Cons by (cases p) auto
qed simp

lemma upload_files_view:
  assumes "sess_view i F Transfering a" and "dom F = set (hkeys paths)" and "distinct (map fst fs)"
    and "uploads_ok env target remote paths fs w"
    and "\<forall>k \<in> fst ` set fs. k \<in> dom F \<longrightarrow> \<not> settled (the (F k))"
  shows "sess_view i (finish_all F fs)
    (if fst ` set fs \<inter> dom F = {} then Transfering else after_report (finish_all F fs))
    (fst (upload_files gen env i target remote paths fs (a, w)))"
  using assms
proof (induction fs arbitrary: F a w)
  case Nil
  then show ?case by (simp add: finish_all_def)
next
  case (Cons p fs)
  obtain fid token where p: "p = (fid, token)" by (cases p)
  show ?case
  proof (cases "hget paths fid")
    case None
    then have none: "F fid = None" using Cons.prems(2) by (auto simp: map_of_eq_None_iff)
    have "(insert fid (fst ` set fs)) \<inter> dom F = fst ` set fs \<inter> dom F" using none by auto
    then show ?thesis using Cons.IH [of F a w] Cons.prems None none
      by (cases "fst ` set fs \<inter> dom F = {}") (simp_all add: p finish_all_Cons)
  next
    case (Some path)
    obtain w1 ns where up1: "se_upload env target remote fid token path w = (w1, ns, Some (Inr ()))"
      and ok1: "uploads_ok env target remote paths fs w1"
      using Cons.prems(4) Some by (auto simp: p split: prod.splits)
    define G where "G = F(fid \<mapsto> FFinish)"
    define a' where "a' = report_file_state gen i fid FFinish
      (fold (report_progress gen i fid) ns (report_file_state gen i fid FTransfer a))"
    have "fid \<in> dom F" using Some hget_in_hkeys [OF Some] Cons.prems(2) by simp
    then have some: "F fid \<noteq> None" by blast
    have up: "upload_files gen env i target remote paths (p # fs) (a, w) =
        upload_files gen env i target remote paths fs (a', w1)"
      using Some up1 by (simp add: p a'_def Let_def)
    have one: "sess_view i G (after_report G) a'"
      unfolding a'_def G_def using Cons.prems(1) some by (rule view_one_file)
    have fin: "finish_all F (p # fs) = finish_all G fs" using some by (auto simp: p finish_all_Cons G_def)
    have dom': "dom G = set (hkeys paths)" using Cons.prems(2) some by (auto simp: G_def)
    have ne: "fst ` set (p # fs) \<inter> dom F \<noteq> {}" using some by (auto simp: p)
    show ?thesis
    proof (cases "fst ` set fs \<inter> set (hkeys paths) = {}")
      case none: True
      then have "finish_all G fs = G" using dom' by (intro finish_all_done) blast
      moreover have "fst (upload_files gen env i target remote paths fs (a', w1)) = a'"
        by (simp add: upload_files_unknown [OF none])
      ultimately show ?thesis unfolding up fin if_not_P [OF ne] using one by (simp only:)
    next
      case False
      then obtain k where k: "k \<in> fst ` set fs" "k \<in> dom F" using Cons.prems(2) by auto
      then have "G k = F k" "\<not> settled (the (F k))" using Cons.prems(3,5) by (auto simp: p G_def)
      then obtain y where "G k = Some y" "\<not> settled y" using k(2) by auto
      then have "\<not> (\<forall>x \<in> ran G. settled x)" using ranI [of G k y] by blast
      then have tr: "after_report G = Transfering" unfolding after_report_def by (rule if_not_P)
      have pend: "\<forall>k \<in> fst ` set fs. k \<in> dom G \<longrightarrow> \<not> settled (the (G k))"
        using Cons.prems(3,5) by (auto simp: p G_def)
      have "sess_view i (finish_all G fs)
          (if fst ` set fs \<inter> dom G = {} then Transfering else after_report (finish_all G fs))
          (fst (upload_files gen env i target remote paths fs (a', w1)))"
        using one tr dom' Cons.prems(3) ok1 pend by (intro Cons.IH) (simp_all add: p)
      moreover have "fst ` set fs \<inter> dom G \<noteq> {}" using False dom' by (simp only: not_False_eq_True)
      ultimately show ?thesis unfolding up fin if_not_P [OF ne] by (simp only: if_False)
    qed
  qed
qed

lemma view_initial_route:
  "initial_route gen env app i target force a = (a1, r) \<Longrightarrow> sess_view i F st a1 = sess_view i F st a"
  by (auto simp: initial_route_def Let_def split: if_splits prod.splits sum.splits)

lemma view_prepare:
  "prepare_with_fallback gen env app i req target pristine force a w = ((a1, w1), r) \<Longrightarrow>
     sess_view i F st a1 = sess_view i F st a"
  by (auto simp: prepare_with_fallback_def Let_def split: if_splits prod.splits sum.splits option.splits)

lemma map_const_on:
  assumes "\<And>k x. G k = Some x \<Longrightarrow> x = c" and "dom G = A" and "A = B"
  shows "G = (\<lambda>k. if k \<in> B then Some c else None)"
proof
  fix k
  show "G k = (if k \<in> B then Some c else None)"
    using assms(1) [of k] domIff [of k G] assms(2,3) by (cases "G k") auto
qed

lemma view_skip_all:
  assumes "sess_view i F Pending a" and "dom F = fst ` set (es @ fs)" and "distinct (map fst (es @ fs))"
    and "fs \<noteq> []" and "\<forall>k x. F k = Some x \<longrightarrow> x = (if k \<in> fst ` set es then FSkip else FPending)"
  shows "sess_view i (\<lambda>k. if k \<in> fst ` set (es @ fs) then Some FSkip else None) Finished
    (fold (\<lambda>(fid, _). report_file_state gen i fid FSkip) fs a)"
  using assms
proof (induction fs arbitrary: es F a)
  case (Cons p fs)
  obtain fid info where p: "p = (fid, info)" by (cases p)
  let ?F = "F(fid \<mapsto> FSkip)"
  have "fid \<in> dom F" unfolding Cons.prems(2) by (simp add: p)
  then have known: "F fid \<noteq> None" by blast
  have one: "sess_view i ?F (if \<forall>x \<in> ran ?F. settled x then Finished else Pending)
      (report_file_state gen i fid FSkip a)"
    using view_report [OF Cons.prems(1) _ known, of FSkip gen] by simp
  have F: "\<forall>k x. ?F k = Some x \<longrightarrow> x = (if k \<in> fst ` set (es @ [p]) then FSkip else FPending)"
  proof (intro allI impI)
    fix k x assume "?F k = Some x"
    then show "x = (if k \<in> fst ` set (es @ [p]) then FSkip else FPending)"
      using Cons.prems(5) [rule_format, of k x] by (auto simp: p split: if_splits)
  qed
  have dom': "dom ?F = fst ` set ((es @ [p]) @ fs)" using Cons.prems(2) by (auto simp: p)
  show ?case
  proof (cases "fs = []")
    case True
    have "?F = (\<lambda>k. if k \<in> fst ` set (es @ p # fs) then Some FSkip else None)"
    proof (rule map_const_on [OF _ dom'])
      fix k x assume k: "?F k = Some x"
      then have "k \<in> fst ` set ((es @ [p]) @ fs)" unfolding dom' [symmetric] by (rule domI)
      then have "k \<in> fst ` set (es @ [p])" using True by simp
      then show "x = FSkip" using F [rule_format, OF k] by simp
    qed simp
    moreover from this have "\<forall>x \<in> ran ?F. settled x" by (auto simp: ran_def settled_def split: if_splits)
    ultimately show ?thesis using one True by (simp add: p)
  next
    case False
    then obtain k where k: "k \<in> fst ` set fs" by (cases fs) auto
    then have new: "k \<notin> fst ` set (es @ [p])" using Cons.prems(3) by (auto simp: p)
    have "k \<in> dom ?F" unfolding dom' using k by auto
    then obtain x where x: "?F k = Some x" by blast
    then have "x = FPending" using F [rule_format, OF x] new by simp
    then have "FPending \<in> ran ?F" using ranI [of ?F k, OF x] by simp
    then have open_: "\<not> (\<forall>x \<in> ran ?F. settled x)" by (auto simp: settled_def)
    have "sess_view i ?F Pending (report_file_state gen i fid FSkip a)"
      using one unfolding if_not_P [OF open_] .
    from Cons.IH [OF this dom' _ False F] Cons.prems(3) show ?thesis by (simp add: p)
  qed
qed simp

text \<open>A new send session.\<close>

definition pending_on :: "string list \<Rightarrow> string \<rightharpoonup> FileState" where
  "pending_on ids = (\<lambda>k. if k \<in> set ids then Some FPending else None)"

lemma file_entries_ids:
  "file_entries lower gen n fs = Inr (es, m) \<Longrightarrow> map fst es = map gen [n..<n + length fs] \<and> m = n + length fs"
proof (induction fs arbitrary: n es m)
  case (Cons f fs)
  then obtain es' i where es: "file_entries lower gen (Suc n) fs = Inr (es', m)" "es = (gen n, i) # es'"
    by (auto split: sum.splits)
  from Cons.IH [OF es(1)] show ?case by (simp add: es(2) upt_conv_Cons del: upt_Suc)
qed simp

lemma hget_hcollect_states:
  assumes "\<And>p. fst (g p) = fst p" and "\<And>p. fe_state (snd (g p)) = FPending"
  shows "map_option fe_state (hget (hcollect (map g es)) k) = pending_on (map fst es) k"
proof (induction es rule: rev_induct)
  case (snoc p es)
  have "map g (es @ [p]) = map g es @ [(fst p, snd (g p))]" by (simp add: prod_eq_iff assms(1))
  then have "hcollect (map g (es @ [p])) = hput (fst p) (snd (g p)) (hcollect (map g es))"
    by (simp only: hcollect_append)
  then show ?case using snoc assms(2) by (cases "k = fst p") (simp_all add: pending_on_def)
qed (simp add: hcollect_def pending_on_def)

lemma view_new_send:
  assumes "create_send_session gen target entries a = (a', i)"
  shows "sess_view i (pending_on (map fst entries)) Pending a'"
proof -
  let ?es = "map (\<lambda>(fid, info). (fid, \<lparr>fe_token = None, fe_info = info, fe_state = FPending\<rparr>)) entries"
  let ?s = "new_session i Send target (hcollect ?es) [] None"
  have "hget (a_sessions a') i = Some ?s"
    using assms by (auto simp: create_send_session_def on_create_send_def Let_def)
  moreover have "file_states ?s = pending_on (map fst entries)"
    by (rule ext) (simp add: file_states_def new_session_def hget_hcollect_states case_prod_beta)
  ultimately show ?thesis by (auto intro!: sess_viewI simp: new_session_def)
qed

lemma view_send_files:
  assumes "send_files lower gen target files a = (a', Inr (i, entries))" and "inj gen"
  shows "sess_view i (pending_on (map fst entries)) Pending a' \<and> entries \<noteq> [] \<and> distinct (map fst entries) \<and>
    length entries = length files"
proof -
  obtain n where n: "file_entries lower gen (a_uuid a) files = Inr (entries, n)" "files \<noteq> []"
      "create_send_session gen target entries (a\<lparr>a_uuid := n\<rparr>) = (a', i)"
    using assms(1) by (auto simp: send_files_def split: if_splits sum.splits prod.splits)
  from file_entries_ids [OF n(1)] have ids: "map fst entries = map gen [a_uuid a..<a_uuid a + length files]" ..
  then have "length entries = length files" by (metis diff_add_inverse length_map length_upt)
  moreover have "distinct (map fst entries)"
    unfolding ids using assms(2) by (simp add: distinct_map inj_on_def inj_def)
  ultimately show ?thesis using view_new_send [OF n(3)] n(2) by auto
qed

text \<open>The state of a send session once every accepted file has been uploaded.\<close>

definition send_result :: "string list \<Rightarrow> (string \<times> string) list \<Rightarrow> MissionState" where
  "send_result ids accepted =
     (if accepted = [] \<or> set ids \<subseteq> fst ` set accepted then Finished else Transfering)"

lemma after_finish_all:
  "after_report (finish_all (pending_on ids) fs) = (if set ids \<subseteq> fst ` set fs then Finished else Transfering)"
proof -
  have "(\<forall>x \<in> ran (finish_all (pending_on ids) fs). settled x) \<longleftrightarrow> set ids \<subseteq> fst ` set fs"
    by (auto simp: ran_def finish_all_def pending_on_def settled_def split: if_splits)
  then show ?thesis by (simp add: after_report_def)
qed

lemma dom_pending_on [simp]: "dom (pending_on ids) = set ids"
  by (auto simp: pending_on_def dom_def)

lemma hkeys_file_paths [simp]:
  "length entries = length files \<Longrightarrow> set (hkeys (file_paths entries files)) = fst ` set entries"
  unfolding file_paths_def hkeys_hcollect by simp

lemma driver_view:
  assumes view: "sess_view i (pending_on (map fst entries)) Pending a"
    and ne: "entries \<noteq> []" and dist: "distinct (map fst entries)" and len: "length entries = length files"
    and route: "initial_route gen env app i target force a = (a1, Inr (view, pristine))"
    and prep: "prepare_with_fallback gen env app i
        \<lparr>fr_info = from_device (current_device app), fr_files = hcollect entries\<rparr> view pristine force a1 w =
      ((a2, w2), Inr (view', Inr resp))"
    and wf: "hwf (rs_files resp)"
    and up: "uploads_ok env view' (rs_session_id resp) (file_paths entries files) (rs_files resp) w2"
  shows "\<exists>F. sess_view i F (send_result (map fst entries) (rs_files resp))
    (fst (run_send_driver gen env app i target files entries force a w))"
proof -
  let ?ids = "map fst entries"
  let ?paths = "file_paths entries files"
  have "cancel_token gen i a \<noteq> None" using view by (auto simp: sess_view_def cancel_token_def)
  then have run: "run_send_driver gen env app i target files entries force a w =
      (if rs_files resp = [] then (fold (\<lambda>(fid, _). report_file_state gen i fid FSkip) entries a2, w2)
       else upload_files gen env i view' (rs_session_id resp) ?paths (rs_files resp)
         (report_state gen i Transfering a2, w2))"
    by (auto simp: run_send_driver_def route prep)
  have a2: "sess_view i (pending_on ?ids) Pending a2"
    using view view_initial_route [OF route] view_prepare [OF prep] by simp
  show ?thesis
  proof (cases "rs_files resp = []")
    case True
    have "\<forall>k x. pending_on ?ids k = Some x \<longrightarrow> x = (if k \<in> fst ` set [] then FSkip else FPending)"
      by (simp add: pending_on_def)
    from view_skip_all [of i "pending_on ?ids" a2 "[]" entries, OF a2 _ _ ne this]
    show ?thesis using True dist by (auto simp: run send_result_def)
  next
    case False
    have tr: "sess_view i (pending_on ?ids) Transfering (report_state gen i Transfering a2)"
      using view_transfering [OF a2] by simp
    have dom: "dom (pending_on ?ids) = set (hkeys ?paths)" using hkeys_file_paths [OF len] by (simp only: dom_pending_on set_map)
    have "\<forall>k \<in> fst ` set (rs_files resp). k \<in> dom (pending_on ?ids) \<longrightarrow> \<not> settled (the (pending_on ?ids k))"
      by (auto simp: pending_on_def settled_def)
    from upload_files_view [OF tr dom _ up this, of gen] wf
    have "sess_view i (finish_all (pending_on ?ids) (rs_files resp))
        (if fst ` set (rs_files resp) \<inter> set ?ids = {} then Transfering
         else after_report (finish_all (pending_on ?ids) (rs_files resp)))
        (fst (run_send_driver gen env app i target files entries force a w))"
      by (simp add: run False hwf_def)
    moreover have "(if fst ` set (rs_files resp) \<inter> set ?ids = {} then Transfering
        else after_report (finish_all (pending_on ?ids) (rs_files resp))) = send_result ?ids (rs_files resp)"
      using ne False unfolding after_finish_all by (cases entries) (auto simp: send_result_def)
    ultimately show ?thesis by (simp only:) blast
  qed
qed

lemma view_get_session: "sess_view i F st a \<Longrightarrow> map_option sm_state (get_session gen i a) = Some st"
  by (auto simp: sess_view_def get_session_def summary_def)

lemma view_token: "sess_view i F st a \<Longrightarrow> cancel_token gen i a \<noteq> None"
  by (auto simp: sess_view_def cancel_token_def)

section \<open>Properties\<close>

text \<open>The port the device announces is the port of the configuration, after any sequence of
  starts, shutdowns and configuration changes; a start that finds a free port runs on it (and
  announces it), one that finds none leaves the server stopped and publishes the error.\<close>

theorem announced_port:
  "let a = fst (run_actor app_step (new_app d c opts tls) ops); b = start free a in
   nd_port (current_device a) = cc_port (get_config a) \<and>
   (case bind_port free (cc_port (get_config a)) of
      Inr port \<Rightarrow> nd_port (current_device b) = port \<and> cc_port (get_config b) = port \<and>
                   watch_borrow (ap_state b) \<and> watch_borrow (ap_error b) = None
    | Inl e \<Rightarrow> get_config b = get_config a \<and> \<not> watch_borrow (ap_state b) \<and>
                watch_borrow (ap_error b) = Some e)"
proof -
  define a where "a = fst (run_actor app_step (new_app d c opts tls) ops)"
  have inv: "ports_agree a"
    unfolding a_def by (rule app_ports.run_inv) simp_all
  then show ?thesis
    using on_start_Inr [OF _ inv, of free] on_start_Inl [of free a]
    by (auto simp: ports_agree_def start_def Let_def a_def [symmetric] split: sum.split)
qed

text \<open>C27. Merging the relay's list never replaces a peer found on the local network, never enters
  the device itself, and everything it adds is marked as coming from the relay.\<close>

theorem relay_merge_safe:
  assumes "da_current a = current"
  shows "(\<forall>fp d. hget (da_map a) fp = Some d \<and> nd_discovery_source d = ''lan'' \<and> is_private_or_lan (nd_address d)
            \<longrightarrow> hget (da_map (relay_merge current devs a)) fp = Some d) \<and>
    (\<forall>fp d. hget (da_map (relay_merge current devs a)) fp = Some d \<longrightarrow>
        hget (da_map a) fp = Some d \<or>
        (nd_discovery_source d = ''relay'' \<and> fp \<noteq> nd_fingerprint current))"
  using relay_merge_ok [OF assms, of devs] assms unfolding merge_ok_def lan_peer_def by blast

text \<open>With TLS on, a send to an https peer is never routed in the clear to the peer or through
  TURN, and a TLS bridge pins the announced certificate unless the target was entered by hand.  The
  relay's own bridge is the exception: whenever it can be dialled it is used, and it carries the
  plain HTTP requests of the client.\<close>

theorem https_route:
  assumes "route_transport env cfg True settings target use_relay = (Inr (view, tr), mark)"
    and "cc_allow_plain_tls cfg \<noteq> Some True" and "eq_ignore_ascii_case (nd_protocol target) ''https''"
  shows "tr \<noteq> Direct \<and> tr \<noteq> TurnBridge \<and>
    (\<forall>fp relayed. tr = TlsBridge fp relayed \<longrightarrow>
       fp = (if starts_with (nd_fingerprint target) ''manual-'' then None else Some (nd_fingerprint target))) \<and>
    ((\<exists>fp. tr = RawBridge fp) \<longleftrightarrow>
       settings \<noteq> None \<and> (use_relay \<or> \<not> is_private_or_lan (nd_address target)) \<and>
       rv_dial env (if starts_with (nd_fingerprint target) ''manual-''
                    then or_else (nd_fingerprint target) (rv_lookup env) else nd_fingerprint target))"
  using assms by (auto simp: route_transport_def Let_def split: sum.splits if_splits)

text \<open>C20. A send whose peer answers, and whose uploads all succeed, ends \<open>Finished\<close> exactly when the
  peer accepted nothing or everything.  If it accepted only some of the files, every upload has
  ended and the session still counts as \<open>Transfering\<close>.\<close>

theorem send_outcome:
  assumes "send_files lower gen target files a0 = (a, Inr (i, entries))" and "inj gen"
    and "initial_route gen env app i target force a = (a1, Inr (view, pristine))"
    and "prepare_with_fallback gen env app i
        \<lparr>fr_info = from_device (current_device app), fr_files = hcollect entries\<rparr> view pristine force a1 w =
      ((a2, w2), Inr (view', Inr resp))"
    and "hwf (rs_files resp)"
    and "uploads_ok env view' (rs_session_id resp) (file_paths entries files) (rs_files resp) w2"
  shows "length entries = length files \<and>
    map_option sm_state (get_session gen i (fst (run_send_driver gen env app i target files entries force a w))) =
      Some (if rs_files resp = [] \<or> set (map fst entries) \<subseteq> fst ` set (rs_files resp)
            then Finished else Transfering)"
proof -
  note new = view_send_files [OF assms(1,2)]
  then obtain F where "sess_view i F (send_result (map fst entries) (rs_files resp))
      (fst (run_send_driver gen env app i target files entries force a w))"
    using driver_view [OF _ _ _ _ assms(3-6)] by blast
  from view_get_session [OF this, of gen] new show ?thesis by (simp add: send_result_def)
qed

text \<open>C21. A refusal by the peer ends the send: whatever status it answers, the session fails with
  the reason for that status, and no second route is tried.\<close>

theorem refusal_is_final:
  assumes "send_files lower gen target files a0 = (a, Inr (i, entries))" and "inj gen"
    and "initial_route gen env app i target force a = (a1, Inr (view, pristine))"
    and "se_prepare env 0 view \<lparr>fr_info = from_device (current_device app), fr_files = hcollect entries\<rparr>
        (se_register env view (to_announce (current_device app)) w) = (w1, Some (Inl (CStatus code body)))"
  shows "run_send_driver gen env app i target files entries force a w =
      (fail gen i (if code = 403 then ''declined by receiver'' else if code = 409 then ''receiver busy''
                   else ''prepare-upload failed: peer answered '' @ show_nat code @ '': '' @ body) a1, w1) \<and>
    map_option sm_state (get_session gen i
      (fst (run_send_driver gen env app i target files entries force a w))) = Some Failed"
proof -
  have new: "sess_view i (pending_on (map fst entries)) Pending a" using view_send_files [OF assms(1,2)] ..
  have a1: "sess_view i (pending_on (map fst entries)) Pending a1"
    using new view_initial_route [OF assms(3)] by simp
  have "run_send_driver gen env app i target files entries force a w =
      (fail gen i (prepare_failure (CStatus code body)) a1, w1)"
    using view_token [OF new, of gen] assms(3,4)
    by (auto simp: run_send_driver_def prepare_with_fallback_def Let_def)
  then show ?thesis
    using view_get_session [OF view_fail [OF a1], of gen] by (simp add: prepare_failure_def)
qed

text \<open>A transport failure of the direct route is retried once through the configured relay, and
  the retry is routed to the peer itself, never to the local address of a failed TLS bridge.\<close>

theorem transport_failure_retried:
  assumes "initial_route gen env app i target False a = (a1, Inr (view, pristine))"
    and "relay_settings (get_config app) = Some r"
    and "se_prepare env 0 view req (se_register env view (to_announce (current_device app)) w) = (w1, Some (Inl e))"
    and "error_status e = None"
  shows "prepare_with_fallback gen env app i req view pristine False a1 w =
    (case route_transport (se_route env 1) (get_config app) (ap_tls app \<noteq> None) (Some r) target True of
       (Inl e', mark) \<Rightarrow> ((mark_opt gen i mark a, w1), Inl (Some e'))
     | (Inr (v, _), mark) \<Rightarrow>
         (case se_prepare env 1 v req (se_register env v (to_announce (current_device app)) w1) of
            (w2, again) \<Rightarrow>
              ((mark_via_relay gen i (mark_opt gen i mark a), w2),
               case again of None \<Rightarrow> Inl None | Some r \<Rightarrow> Inr (v, r))))"
proof -
  have real: "a1 = a" "or_else view pristine = target"
    using assms(1) by (auto simp: initial_route_def Let_def or_else_def split: if_splits prod.splits sum.splits)
  have "(case e of CStatus _ _ \<Rightarrow> False | _ \<Rightarrow> True)" using assms(4) by (cases e) auto
  then show ?thesis using assms(2,3)
    by (cases e) (auto simp: prepare_with_fallback_def Let_def real split: prod.split sum.split option.split)
qed

text \<open>A peer with a public address is first dialled directly even when a relay is configured
  and TLS is on; only the failure of that attempt leads to the relay.\<close>

theorem public_peer_dialled_directly:
  assumes "relay_settings (get_config app) \<noteq> None" and "\<not> is_private_or_lan (nd_address target)"
  shows "initial_route gen env app i target False a = (a, Inr (target, None))"
  using assms by (auto simp: initial_route_def Let_def)

section \<open>Witnesses\<close>

definition sample_relay_config :: CoreConfig where
  "sample_relay_config = default_config\<lparr>cc_relay_addr := Some ''9.9.9.9:3478'', cc_relay_secret := Some ''k''\<rparr>"

definition sample_app :: App where
  "sample_app = new_app sample_device sample_relay_config default_options (Some ''f1'')"

definition sample_peer :: NodeDevice where
  "sample_peer = sample_device\<lparr>nd_fingerprint := ''f2'', nd_address := ''8.8.8.8'', nd_alias := ''far''\<rparr>"

definition sample_route :: RouteEnv where
  "sample_route =
     \<lparr>rv_resolve = Inr (V4 [8, 8, 8, 8] 53317), rv_lookup = None, rv_dial = (\<lambda>fp. fp = ''f2''),
      rv_raw_port = 40000, rv_punch = False, rv_quic_port = 40001, rv_tls_bridge = Inr 40002,
      rv_turn_bridge = Inr 40003\<rparr>"

text \<open>The peer accepts the first of two files, or declines, or the network is down.\<close>

definition sample_env :: "(ClientError + FileResponse) \<Rightarrow> unit SendEnv" where
  "sample_env r =
     \<lparr>se_route = (\<lambda>_. sample_route), se_register = (\<lambda>_ _ w. w), se_prepare = (\<lambda>_ _ _ w. (w, Some r)),
      se_upload = (\<lambda>_ _ _ _ _ w. (w, [1, 3], Some (Inr ()))), se_cancel = (\<lambda>_ _ w. w)\<rparr>"

definition sample_selection :: "Selected list" where
  "sample_selection = [\<lparr>sf_path = ''/a.txt'', sf_size = Inr 3\<rparr>, \<lparr>sf_path = ''/b.txt'', sf_size = Inr 4\<rparr>]"

definition sample_send :: "Actor \<times> (SendError + string \<times> (string \<times> FileInfo) list)" where
  "sample_send = send_files id sample_gen sample_peer sample_selection (new_actor 2)"

definition sample_sent :: Actor where
  "sample_sent = fst sample_send"

definition sample_entries :: "(string \<times> FileInfo) list" where
  "sample_entries = (case snd sample_send of Inl _ \<Rightarrow> [] | Inr (_, es) \<Rightarrow> es)"

lemma sample_send_eq:
  "send_files id sample_gen sample_peer sample_selection (new_actor 2) =
     (sample_sent, Inr (''uuu'', sample_entries))"
proof -
  have "map_sum id fst (snd sample_send) = (Inr ''uuu'' :: SendError + string)" by code_simp
  then have "sample_send = (sample_sent, Inr (''uuu'', sample_entries))"
    by (cases "snd sample_send") (auto simp: prod_eq_iff sample_sent_def sample_entries_def)
  then show ?thesis by (simp add: sample_send_def)
qed

lemma sample_ids: "map fst sample_entries = [''u'', ''uu'']"
  by code_simp

lemma sample_direct:
  "initial_route gen env sample_app i sample_peer False a = (a, Inr (sample_peer, None))"
proof -
  have "relay_settings (get_config sample_app) \<noteq> None" by code_simp
  moreover have "\<not> is_private_or_lan (nd_address sample_peer)" by code_simp
  ultimately show ?thesis by (auto simp: initial_route_def Let_def)
qed

theorem relay_merge_safe_witness:
  "nd_discovery_source sample_device = ''lan'' \<and> is_private_or_lan (nd_address sample_device) \<and>
   hget (da_map (relay_merge sample_peer
     [\<lparr>rd_fingerprint = Some ''f1'', rd_alias = None, rd_device_model = None, rd_device_type = None,
       rd_address = Some ''8.8.4.4'', rd_port = None, rd_protocol = None\<rparr>]
     (on_add sample_device (new_device_actor sample_peer)))) ''f1'' = Some sample_device"
proof -
  let ?a = "on_add sample_device (new_device_actor sample_peer)"
  have "da_current ?a = sample_peer" by code_simp
  moreover have "nd_discovery_source sample_device = ''lan'' \<and> is_private_or_lan (nd_address sample_device)"
    by code_simp
  moreover have "hget (da_map ?a) ''f1'' = Some sample_device" by (simp add: sample_device_def)
  ultimately show ?thesis using relay_merge_safe [of ?a sample_peer] by blast
qed

theorem https_route_witness:
  "snd (projr (fst (route_transport sample_route sample_relay_config True
     (relay_settings sample_relay_config) sample_peer True))) = RawBridge ''f2''"
proof -
  let ?r = "route_transport sample_route sample_relay_config True (relay_settings sample_relay_config) sample_peer True"
  have r: "?r = (Inr (bridged_view sample_peer 40000, RawBridge ''f2''), Some ''turn'')" by code_simp
  have "cc_allow_plain_tls sample_relay_config \<noteq> Some True" by code_simp
  moreover have "eq_ignore_ascii_case (nd_protocol sample_peer) ''https''" by code_simp
  ultimately show ?thesis using https_route [OF r] r by simp
qed

theorem send_outcome_witness:
  "map_option sm_state (get_session sample_gen ''uuu'' (fst (run_send_driver sample_gen
     (sample_env (Inr \<lparr>rs_session_id = ''r'', rs_files = [(''u'', ''t'')]\<rparr>)) sample_app ''uuu'' sample_peer
     sample_selection sample_entries False sample_sent ()))) = Some Transfering"
proof -
  let ?resp = "\<lparr>rs_session_id = ''r'', rs_files = [(''u'', ''t'')]\<rparr>"
  let ?env = "sample_env (Inr ?resp)"
  have prep: "prepare_with_fallback sample_gen ?env sample_app ''uuu''
      \<lparr>fr_info = from_device (current_device sample_app), fr_files = hcollect sample_entries\<rparr>
      sample_peer None False sample_sent () = ((sample_sent, ()), Inr (sample_peer, Inr ?resp))"
    by (simp add: prepare_with_fallback_def sample_env_def)
  show ?thesis
    using send_outcome [OF sample_send_eq inj_sample_gen sample_direct prep]
    by (simp add: hwf_def sample_env_def sample_ids split: option.split del: set_map)
qed

theorem refusal_is_final_witness:
  "run_send_driver sample_gen (sample_env (Inl (CStatus 403 ''no''))) sample_app ''uuu'' sample_peer
     sample_selection sample_entries False sample_sent () =
   (fail sample_gen ''uuu'' ''declined by receiver'' sample_sent, ())"
  using refusal_is_final [OF sample_send_eq inj_sample_gen sample_direct,
      of "sample_env (Inl (CStatus 403 ''no''))" "()" "()" 403 "''no''"]
  by (simp add: sample_env_def)

theorem transport_failure_retried_witness:
  "snd (prepare_with_fallback sample_gen (sample_env (Inl (CHttp ''timeout''))) sample_app ''uuu''
     \<lparr>fr_info = from_device sample_device, fr_files = []\<rparr> sample_peer None False sample_sent ()) =
   Inr (bridged_view sample_peer 40000, Inl (CHttp ''timeout''))"
proof -
  let ?env = "sample_env (Inl (CHttp ''timeout''))"
  have r: "relay_settings (get_config sample_app) = Some \<lparr>rl_addr = ''9.9.9.9:3478'', rl_secret = ''k'', rl_realm = ''localsend''\<rparr>"
    by code_simp
  have "route_transport sample_route (get_config sample_app) (ap_tls sample_app \<noteq> None)
      (Some \<lparr>rl_addr = ''9.9.9.9:3478'', rl_secret = ''k'', rl_realm = ''localsend''\<rparr>) sample_peer True =
      (Inr (bridged_view sample_peer 40000, RawBridge ''f2''), Some ''turn'')" by code_simp
  then show ?thesis
    using transport_failure_retried [OF sample_direct r, of ?env]
    by (simp add: sample_env_def)
qed

theorem public_peer_dialled_directly_witness:
  "initial_route sample_gen (sample_env (Inl (CIo ''x''))) sample_app ''uuu'' sample_peer False sample_sent =
     (sample_sent, Inr (sample_peer, None))"
proof (rule public_peer_dialled_directly)
  show "relay_settings (get_config sample_app) \<noteq> None" by code_simp
  show "\<not> is_private_or_lan (nd_address sample_peer)" by code_simp
qed

end
