(* ===== verification/End_To_End.thy ===== *)
theory End_To_End
  imports Handle_Props Server_Props
begin

text \<open>
  A whole transfer: the send driver of one device (\<open>handle.rs\<close>) against the HTTP handlers and the
  session manager of another (\<open>server.rs\<close>, \<open>session.rs\<close>).  The environment \<open>peer_env\<close> of the driver
  answers every request with the handler the router selects for it, through the client's reading
  of the status (\<open>client.rs\<close>); the receiving user's decision is an argument.
\<close>

section \<open>The receiver as the environment of the driver\<close>

datatype UserDecision = UserAccept "string list option" | UserDecline

text \<open>The answer of a handler as the HTTP library hands it to the client.\<close>

fun http_of :: "(nat \<times> string) + 'b \<Rightarrow> 'b http_reply" where
  "http_of (Inr v) = HttpReply 200 (Inr v) []"
| "http_of (Inl (code, msg)) = HttpReply code (Inl msg) msg"

definition decide :: "(nat \<Rightarrow> string) \<Rightarrow> UserDecision \<Rightarrow> string \<Rightarrow> Actor \<Rightarrow> Actor" where
  "decide gen d i a =
     (case d of UserAccept fids \<Rightarrow> fst (accept gen i fids a) | UserDecline \<Rightarrow> fst (decline gen i a))"

text \<open>The decision the request handler of session \<open>i\<close> is woken with.\<close>

definition decision_of :: "string \<Rightarrow> Actor \<Rightarrow> Decision option" where
  "decision_of i a = map_of (a_delivered a) i"

definition peer_prepare ::
  "(nat \<Rightarrow> string) \<Rightarrow> string \<Rightarrow> UserDecision \<Rightarrow> FileRequest \<Rightarrow> Core \<Rightarrow>
     Core \<times> (ClientError + FileResponse) option" where
  "peer_prepare gen ip d req c =
     (case prepare_upload gen ip req c of
        (c1, Inl e) \<Rightarrow> (c1, Some (prepare_upload_reply (http_of (Inl e))))
      | (c1, Inr i) \<Rightarrow>
          let c2 = c1\<lparr>co_sessions := decide gen d i (co_sessions c1)\<rparr> in
          (guard_task gen i (guard_messages True) c2,
           Some (prepare_upload_reply (http_of (prepare_reply i (decision_of i (co_sessions c2)))))))"

text \<open>
  \<open>disk\<close> is the sender's file system: the chunks a file is read in, each with the tick of the
  receiver's progress interval.
\<close>

definition peer_upload ::
  "(nat \<Rightarrow> string) \<Rightarrow> (string \<Rightarrow> (bytes \<times> bool) list option) \<Rightarrow> string \<Rightarrow> string \<Rightarrow> string \<Rightarrow> string \<Rightarrow>
     Core \<Rightarrow> Core \<times> nat list \<times> (ClientError + unit) option" where
  "peer_upload gen disk remote fid token path c =
     (case disk path of
        None \<Rightarrow> (c, [], Some (Inl (CIo ''not found'')))
      | Some chunks \<Rightarrow>
          (case handle_upload gen \<lparr>ut_session_id = remote, ut_file_id = fid, ut_token = token\<rparr>
                  \<lparr>bd_chunks = chunks, bd_end = BodyDone, bd_meanwhile = []\<rparr> c of
             (c1, r) \<Rightarrow> (c1, sent_counts 0 (map fst chunks), Some (unit_reply (http_of r)))))"

definition peer_env ::
  "(nat \<Rightarrow> RouteEnv) \<Rightarrow> (nat \<Rightarrow> string) \<Rightarrow> string \<Rightarrow> UserDecision \<Rightarrow>
     (string \<Rightarrow> (bytes \<times> bool) list option) \<Rightarrow> Core SendEnv" where
  "peer_env route gen ip d disk =
     \<lparr>se_route = route,
      se_register = (\<lambda>_ announce c. fst (handle_register ip announce c)),
      se_prepare = (\<lambda>_ _ req c. peer_prepare gen ip d req c),
      se_upload = (\<lambda>_ remote fid token path c. peer_upload gen disk remote fid token path c),
      se_cancel = (\<lambda>_ remote c. fst (handle_cancel gen remote c))\<rparr>"

section \<open>The receiver's session\<close>

text \<open>What uploads see of a receive session: file states, tokens and data of the files.\<close>

definition recv_view ::
  "string \<Rightarrow> (string \<rightharpoonup> FileState) \<Rightarrow> (string \<rightharpoonup> string) \<Rightarrow> (string \<rightharpoonup> FileInfo) \<Rightarrow> MissionState \<Rightarrow> Actor \<Rightarrow> bool" where
  "recv_view i F T D st a \<longleftrightarrow>
     (\<exists>s. hget (a_sessions a) i = Some s \<and> hwf (s_files s) \<and> file_states s = F \<and> s_state s = st \<and>
        s_direction s = Receive \<and>
        (\<forall>fid t. T fid = Some t \<longrightarrow> hget (s_token_index s) t = Some fid) \<and>
        (\<forall>fid. map_option fe_info (hget (s_files s) fid) = D fid))"

lemma recv_view_progress [simp]:
  "recv_view i F T D st (report_progress gen i fid n a) = recv_view i F T D st a"
  by (auto simp: recv_view_def report_progress_def on_report_progress_def split: option.split)

lemma recv_view_progress_all [simp]:
  "recv_view i F T D st (fold (report_progress gen i fid) ns a) = recv_view i F T D st a"
  by (induction ns arbitrary: a) simp_all

lemma recv_view_start:
  assumes "recv_view i F T D Transfering a" and "F fid = Some FPending" and "T fid = Some t" and "D fid = Some d"
  obtains a' task where "start_file gen i t a = (a', Inr task)" and "ft_file_id task = fid" and "ft_info task = d"
    and "recv_view i (F(fid \<mapsto> FTransfer)) T D Transfering a'"
proof -
  obtain s where s: "hget (a_sessions a) i = Some s" "hwf (s_files s)" "file_states s = F"
      "s_state s = Transfering" "s_direction s = Receive" "hget (s_token_index s) t = Some fid"
      "\<forall>fid t. T fid = Some t \<longrightarrow> hget (s_token_index s) t = Some fid"
      "\<forall>fid. map_option fe_info (hget (s_files s) fid) = D fid"
    using assms(1,3) by (auto simp: recv_view_def)
  obtain f where f: "hget (s_files s) fid = Some f" "fe_state f = FPending" "fe_info f = d"
    using assms(2,4) s(3) s(8) [rule_format, of fid] by (auto simp: file_states_def)
  let ?f = "f\<lparr>fe_state := FTransfer\<rparr>"
  let ?s = "emit (FileStateChanged fid FTransfer) (s\<lparr>s_files := hput fid ?f (s_files s)\<rparr>)"
  let ?task = "\<lparr>ft_file_id = fid, ft_info = fe_info f, ft_session = s_id s\<rparr>"
  have "start_file gen i t a = (broadcast_index (put_session i ?s a), Inr ?task)"
    using s f by (simp add: start_file_def on_start_file_def start_session_file_def)
  moreover have "file_states ?s = F(fid \<mapsto> FTransfer)"
    using s(3) by (auto simp: file_states_def fun_eq_iff)
  then have "recv_view i (F(fid \<mapsto> FTransfer)) T D Transfering (broadcast_index (put_session i ?s a))"
    using s f assms(4) by (auto simp: recv_view_def)
  ultimately show thesis using that f(3) by simp
qed

lemma recv_view_finish:
  assumes "recv_view i F T D Transfering a" and "F fid \<noteq> None" and "T fid = Some t"
  shows "recv_view i (F(fid \<mapsto> FFinish)) T D (after_report (F(fid \<mapsto> FFinish))) (finish_file gen i t FFinish a)"
proof -
  obtain s where s: "hget (a_sessions a) i = Some s" "hwf (s_files s)" "file_states s = F"
      "s_state s = Transfering" "s_direction s = Receive" "hget (s_token_index s) t = Some fid"
      "\<forall>fid t. T fid = Some t \<longrightarrow> hget (s_token_index s) t = Some fid"
      "\<forall>fid. map_option fe_info (hget (s_files s) fid) = D fid"
    using assms(1,3) by (auto simp: recv_view_def)
  define s' where "s' = mark_file fid FFinish s"
  have act: "is_active s" using s by (simp add: is_active_def)
  have s': "hwf (s_files s')" "file_states s' = F(fid \<mapsto> FFinish)" "is_active s'" "s_state s' = Transfering"
      "s_direction s' = Receive" "s_token_index s' = s_token_index s"
    using s assms(2) act by (auto simp: s'_def)
  have info: "map_option fe_info (hget (s_files s') k) = D k" for k
    using s(8) by (simp add: s'_def option.map_comp comp_def)
  have "finish_file gen i t FFinish a = broadcast_index (check_finish i (put_session i s' a))"
    using s act by (simp add: s'_def finish_file_def on_finish_file_def set_file_state_def Let_def)
  then have get: "hget (a_sessions (finish_file gen i t FFinish a)) i =
      Some (if all_done s' then emit (StateChanged Finished) (s'\<lparr>s_state := Finished\<rparr>) else s')"
    using check_finish_get [of "put_session i s' a" i s'] by simp
  have fin: "all_done s' \<longleftrightarrow> (\<forall>x \<in> ran (F(fid \<mapsto> FFinish)). settled x)"
    using all_done_iff [of s' fid] s' by simp
  show ?thesis
  proof (cases "all_done s'")
    case True
    then have "after_report (F(fid \<mapsto> FFinish)) = Finished" unfolding after_report_def using fin by simp
    then show ?thesis using get True s' info s(7) by (auto simp: recv_view_def)
  next
    case False
    then have "after_report (F(fid \<mapsto> FFinish)) = Transfering" unfolding after_report_def using fin by simp
    then show ?thesis using get False s' info s(7) by (auto simp: recv_view_def)
  qed
qed

section \<open>Free names\<close>

lemma dedup_name_shape:
  obtains P S where "P \<noteq> []" and "\<And>n. dedup_name name n = P @ show_nat n @ S"
proof -
  define stem where "stem = (case file_stem name of None \<Rightarrow> name | Some x \<Rightarrow> x)"
  show thesis
    by (rule that [of "stem @ '' (''" "'')'' @ (case path_extension name of None \<Rightarrow> [] | Some e \<Rightarrow> ''.'' @ e)"])
      (auto simp: dedup_name_def stem_def Let_def split: option.split)
qed

lemma show_nat_inject [simp]: "show_nat m = show_nat n \<longleftrightarrow> m = n"
  by (metis digits_val_show_nat)

lemma path_join_dedup_inj: "inj (\<lambda>n. path_join dir (dedup_name name n))"
proof (rule injI)
  fix m n
  obtain P S where P: "P \<noteq> []" and d: "\<And>n. dedup_name name n = P @ show_nat n @ S"
    using dedup_name_shape [of name] by blast
  have "starts_with (P @ x) ''/'' = starts_with P ''/''" for x
    using P by (cases P) (auto simp: starts_with_def)
  moreover assume "path_join dir (dedup_name name m) = path_join dir (dedup_name name n)"
  ultimately show "m = n" by (auto simp: d path_join_def split: if_splits)
qed

lemma free_candidate:
  assumes "finite (dom fs)" and "card (dom fs) < 999"
  shows "\<exists>p \<in> set (candidates dir name). fs p = None"
proof (rule ccontr)
  assume "\<not> ?thesis"
  then have "(\<lambda>n. path_join dir (dedup_name name n)) ` {1 ..< 1000} \<subseteq> dom fs"
    by (auto simp: set_candidates)
  from card_mono [OF assms(1) this] have "card {1 ..< 1000 :: nat} \<le> card (dom fs)"
    using card_image [OF inj_on_subset [OF path_join_dedup_inj subset_UNIV], of dir name "{1 ..< 1000}"]
    by simp
  then show False using assms(2) by simp
qed

section \<open>Uploads\<close>

lemma handle_upload_view:
  assumes "recv_view i F T D Transfering (co_sessions c)" and "F fid = Some FPending"
    and "T fid = Some t" and "D fid = Some d" and "finite (dom (co_fs c))" and "card (dom (co_fs c)) < 999"
  shows "\<exists>c' path. handle_upload gen \<lparr>ut_session_id = i, ut_file_id = fid', ut_token = t\<rparr>
      \<lparr>bd_chunks = chunks, bd_end = BodyDone, bd_meanwhile = []\<rparr> c = (c', Inr ()) \<and>
    co_fs c path = None \<and> co_fs c' = (co_fs c)(path \<mapsto> concat (map fst chunks)) \<and>
    recv_view i (F(fid \<mapsto> FFinish)) T D (after_report (F(fid \<mapsto> FFinish))) (co_sessions c')"
proof -
  obtain a' task where st: "start_file gen i t (co_sessions c) = (a', Inr task)"
    and task: "ft_file_id task = fid" "ft_info task = d"
    and view: "recv_view i (F(fid \<mapsto> FTransfer)) T D Transfering a'"
    by (rule recv_view_start [OF assms(1-4)])
  let ?path = "dedup_path (\<lambda>p. co_fs c p \<noteq> None) (cc_store_path (co_config c)) (fi_file_name d)"
  let ?a = "report_all gen i fid (progress_writes 0 chunks) a'"
  let ?c' = "c\<lparr>co_sessions := finish_file gen i t FFinish ?a,
      co_fs := (co_fs c)(?path \<mapsto> concat (map fst chunks))\<rparr>"
  have "handle_upload gen \<lparr>ut_session_id = i, ut_file_id = fid', ut_token = t\<rparr>
      \<lparr>bd_chunks = chunks, bd_end = BodyDone, bd_meanwhile = []\<rparr> c = (?c', Inr ())"
    using st task
    by (simp add: handle_upload_def upload_begin_def stream_to_file_def upload_end_def Let_def
        run_session_actor_def)
  moreover have "co_fs c ?path = None"
    using dedup_path_fresh(1) [of "cc_store_path (co_config c)" "fi_file_name d" "\<lambda>p. co_fs c p \<noteq> None"]
      free_candidate [OF assms(5,6)] by auto
  moreover have "recv_view i (F(fid \<mapsto> FFinish)) T D (after_report (F(fid \<mapsto> FFinish)))
      (finish_file gen i t FFinish ?a)"
    using recv_view_finish [of i "F(fid \<mapsto> FTransfer)" T D ?a fid t gen] view assms(3)
    by (simp add: report_all_fold)
  ultimately show ?thesis by (intro exI [of _ ?c'] exI [of _ ?path]) simp
qed

definition content :: "(string \<Rightarrow> (bytes \<times> bool) list option) \<Rightarrow> (string, string) hashmap \<Rightarrow> string \<Rightarrow> bytes" where
  "content disk paths fid = concat (map fst (the (disk (the (hget paths fid)))))"

text \<open>What the receiver has stored: each file of \<open>ids\<close> on a path of its own that was free.\<close>

definition stored :: "(string \<rightharpoonup> bytes) \<Rightarrow> (string \<rightharpoonup> bytes) \<Rightarrow> string set \<Rightarrow> (string \<Rightarrow> bytes) \<Rightarrow> bool" where
  "stored fs fs' ids cont \<longleftrightarrow>
     (\<exists>P. inj_on P ids \<and> (\<forall>fid \<in> ids. fs (P fid) = None \<and> fs' (P fid) = Some (cont fid)) \<and>
        (\<forall>p. p \<notin> P ` ids \<longrightarrow> fs' p = fs p))"

lemma stored_empty [simp]: "stored fs fs {} cont"
  by (simp add: stored_def)

lemma stored_step:
  assumes "fs path = None" and "fid \<notin> ids" and "stored (fs(path \<mapsto> cont fid)) fs' ids cont"
  shows "stored fs fs' (insert fid ids) cont"
proof -
  obtain P where P: "inj_on P ids" "\<forall>k \<in> ids. (fs(path \<mapsto> cont fid)) (P k) = None \<and> fs' (P k) = Some (cont k)"
      "\<forall>p. p \<notin> P ` ids \<longrightarrow> fs' p = (fs(path \<mapsto> cont fid)) p"
    using assms(3) by (auto simp: stored_def)
  then have new: "path \<notin> P ` ids" by auto
  let ?Q = "P(fid := path)"
  have img: "?Q ` insert fid ids = insert path (P ` ids)" using assms(2) by auto
  have "inj_on ?Q (insert fid ids)"
    using P(1) assms(2) new by (auto simp: inj_on_def)
  moreover have "\<forall>k \<in> insert fid ids. fs (?Q k) = None \<and> fs' (?Q k) = Some (cont k)"
    using P(2,3) assms(1,2) new by (auto split: if_splits)
  moreover have "\<forall>p. p \<notin> ?Q ` insert fid ids \<longrightarrow> fs' p = fs p"
    unfolding img using P(3) by auto
  ultimately show ?thesis unfolding stored_def by blast
qed

text \<open>The files still to come are pending, have their tokens, and can be read.\<close>

definition to_come ::
  "(string \<rightharpoonup> FileState) \<Rightarrow> (string \<rightharpoonup> string) \<Rightarrow> (string \<rightharpoonup> FileInfo) \<Rightarrow>
     (string \<Rightarrow> (bytes \<times> bool) list option) \<Rightarrow> (string, string) hashmap \<Rightarrow> (string \<times> string) list \<Rightarrow> bool" where
  "to_come F T D disk paths fs \<longleftrightarrow>
     distinct (map fst fs) \<and>
     (\<forall>(fid, t) \<in> set fs. F fid = Some FPending \<and> T fid = Some t \<and> D fid \<noteq> None \<and>
        (\<exists>path. hget paths fid = Some path \<and> disk path \<noteq> None))"

lemma to_come_Cons:
  "to_come F T D disk paths ((fid, t) # fs) \<Longrightarrow> to_come (F(fid \<mapsto> FFinish)) T D disk paths fs"
  by (force simp: to_come_def)

lemma to_come_running:
  assumes "to_come F T D disk paths (p # q # fs)"
  shows "after_report (F(fst p \<mapsto> FFinish)) = Transfering"
proof -
  have "(F(fst p \<mapsto> FFinish)) (fst q) = Some FPending" using assms by (auto simp: to_come_def)
  from ranI [of "F(fst p \<mapsto> FFinish)", OF this] have "\<not> (\<forall>x \<in> ran (F(fst p \<mapsto> FFinish)). settled x)" by (auto simp: settled_def)
  then show ?thesis unfolding after_report_def by (rule if_not_P)
qed

lemma finish_all_Nil [simp]: "finish_all F [] = F"
  by (simp add: finish_all_def)

lemma uploads_received:
  fixes disk :: "string \<Rightarrow> (bytes \<times> bool) list option"
  assumes "recv_view r F T D Transfering (co_sessions c)" and "to_come F T D disk paths fs"
    and "finite (dom (co_fs c))" and "card (dom (co_fs c)) + length fs < 1000"
  shows "uploads_ok (peer_env route gr ip d disk) target r paths fs c \<and>
    recv_view r (finish_all F fs) T D (if fs = [] then Transfering else after_report (finish_all F fs))
      (co_sessions (snd (upload_files gs (peer_env route gr ip d disk) i target r paths fs (a, c)))) \<and>
    stored (co_fs c) (co_fs (snd (upload_files gs (peer_env route gr ip d disk) i target r paths fs (a, c))))
      (fst ` set fs) (content disk paths)"
  using assms
proof (induction fs arbitrary: F a c)
  case Nil
  then show ?case by (simp add: finish_all_def)
next
  case (Cons p fs)
  obtain fid t where p: "p = (fid, t)" by (cases p)
  obtain path chunks d' where k: "F fid = Some FPending" "T fid = Some t" "D fid = Some d'"
      "hget paths fid = Some path" "disk path = Some chunks" and new: "fid \<notin> fst ` set fs"
    using Cons.prems(2) by (auto simp: to_come_def p)
  have card: "card (dom (co_fs c)) < 999" using Cons.prems(4) by simp
  from handle_upload_view [OF Cons.prems(1) k(1-3) Cons.prems(3) card, of gr fid chunks]
  obtain c1 q where up: "handle_upload gr \<lparr>ut_session_id = r, ut_file_id = fid, ut_token = t\<rparr>
        \<lparr>bd_chunks = chunks, bd_end = BodyDone, bd_meanwhile = []\<rparr> c = (c1, Inr ())"
    and q: "co_fs c q = None" "co_fs c1 = (co_fs c)(q \<mapsto> content disk paths fid)"
    and view: "recv_view r (F(fid \<mapsto> FFinish)) T D (after_report (F(fid \<mapsto> FFinish))) (co_sessions c1)"
    using k by (auto simp: content_def)
  let ?env = "peer_env route gr ip d disk"
  define G where "G = F(fid \<mapsto> FFinish)"
  note view = view [folded G_def]
  have ans: "se_upload ?env target r fid t path c = (c1, sent_counts 0 (map fst chunks), Some (Inr ()))"
    using up k by (simp add: peer_env_def peer_upload_def unit_reply_def is_success_def)
  define a1 where "a1 = report_file_state gs i fid FFinish (fold (report_progress gs i fid)
    (sent_counts 0 (map fst chunks)) (report_file_state gs i fid FTransfer a))"
  have run: "upload_files gs ?env i target r paths (p # fs) (a, c) = upload_files gs ?env i target r paths fs (a1, c1)"
    using ans k by (simp add: p a1_def Let_def)
  have fin: "finish_all F (p # fs) = finish_all G fs"
    using k by (simp add: p finish_all_Cons G_def)
  have dom1: "dom (co_fs c1) = insert q (dom (co_fs c))" using q by auto
  then have card1: "finite (dom (co_fs c1))" "card (dom (co_fs c1)) + length fs < 1000"
    using Cons.prems(3,4) q(1) by (simp_all add: card_insert_if domIff)
  have tc: "to_come G T D disk paths fs"
    using Cons.prems(2) by (simp add: p to_come_Cons G_def)
  have ok: "uploads_ok ?env target r paths (p # fs) c = uploads_ok ?env target r paths fs c1"
    using ans k by (simp add: p)
  show ?case
  proof (cases fs)
    case Nil
    have "stored (co_fs c1) (co_fs c1) {} (content disk paths)" by simp
    then have "stored (co_fs c) (co_fs c1) {fid} (content disk paths)"
      using stored_step [of "co_fs c" q fid "{}" "content disk paths" "co_fs c1"] q(1)
      unfolding q(2) [symmetric] by blast
    then show ?thesis using view ok Nil unfolding fin run by (simp add: p)
  next
    case more: (Cons q' fs')
    then have "after_report G = Transfering"
      using to_come_running [of F T D disk paths p q' fs'] Cons.prems(2) by (simp add: p G_def)
    then have "recv_view r G T D Transfering (co_sessions c1)" using view by simp
    note IH = Cons.IH [OF this tc card1, of a1]
    then have "stored (co_fs c) (co_fs (snd (upload_files gs ?env i target r paths fs (a1, c1))))
        (insert fid (fst ` set fs)) (content disk paths)"
      using stored_step [of "co_fs c" q fid "fst ` set fs" "content disk paths", OF q(1) new, folded q(2)]
      by blast
    then show ?thesis using IH ok more unfolding fin run by (simp add: p)
  qed
qed

section \<open>The answer of a receiver that accepts everything\<close>

lemma skip_others_all: "hwf files \<Longrightarrow> skip_others (hkeys files) files = files"
  by (simp add: skip_others_def hmap_def case_prod_beta map_idI)

lemma delivered_fresh:
  assumes "session_inv gen a" and "hget (a_sessions a) i = None"
  shows "i \<notin> fst ` set (a_delivered a)"
  using assms by (auto simp: session_inv_def decisions_ok_def)

lemma accepted_all_tokens:
  assumes "hwf es" and "tokens_ok gen n es idx"
  shows "set (map fst (accepted_tokens (hkeys es) es)) = set (map fst es)"
    and "hget (accepted_tokens (hkeys es) es) fid = Some t \<Longrightarrow> hget idx t = Some fid"
proof -
  let ?tokens = "accepted_tokens (hkeys es) es"
  have tok: "hget ?tokens fid = Option.bind (hget es fid) fe_token" for fid
    using accepted_tokens_get [OF assms(1), of "hkeys es" fid] hget_in_hkeys [of es fid]
    by (cases "hget es fid") auto
  have has: "\<exists>t. fe_token f = Some t \<and> hget idx t = Some fid" if "hget es fid = Some f" for fid f
    using assms(2) that unfolding tokens_ok_def by blast
  have "hget ?tokens fid \<noteq> None \<longleftrightarrow> hget es fid \<noteq> None" for fid
    using tok [of fid] has [of fid] by (cases "hget es fid") auto
  then show "set (map fst ?tokens) = set (map fst es)"
    by (intro set_eqI) (simp add: map_of_eq_None_iff)
  show "hget ?tokens fid = Some t \<Longrightarrow> hget idx t = Some fid"
    using tok [of fid] has [of fid] by (cases "hget es fid") auto
qed

lemma accept_all_new:
  assumes "inj gen" and "session_reachable gen mx a" and "active_recv a < mx" and "hwf files" and "files \<noteq> []"
  obtains a1 a2 i tokens where "create_recv_session gen d files a = (a1, Inr i)"
    and "fst (accept gen i None a1) = a2" and "decision_of i a2 = Some (Accepted tokens)"
    and "hwf tokens" and "set (map fst tokens) = set (map fst files)"
    and "recv_view i (pending_on (map fst files)) (hget tokens) (hget files) Transfering a2"
proof -
  let ?i = "gen (a_uuid a)"
  obtain es idx n where rf: "recv_files gen (Suc (a_uuid a)) files ([], []) = (es, idx, n)"
    by (metis prod_cases3)
  have es: "hcollect es = es" "map fst es = map fst files" "tokens_ok gen n es idx"
    using recv_files_new [OF assms(1,4) rf] by simp_all
  have wf: "hwf es" using es(1) hwf_hcollect [of es] by simp
  let ?s = "new_session ?i Receive d es idx (Some ?i)"
  let ?a1 = "broadcast_index (put_session ?i ?s (a\<lparr>a_uuid := n\<rparr>))"
  have cr: "create_recv_session gen d files a = (?a1, Inr ?i)"
    using assms(3) reachable_max [OF assms(2)] rf es(1)
    by (simp add: create_recv_session_def on_create_recv_def Let_def)
  have s: "s_direction ?s = Receive" "s_state ?s = Pending" "s_files ?s = es" "s_token_index ?s = idx"
      "s_decision ?s = Some ?i"
    by (simp_all add: new_session_def)
  obtain s' where acc: "accept_session None ?s = (s', [(?i, Accepted (accepted_tokens (hkeys es) es))])"
    and s': "s_files s' = es" "s_state s' = Transfering" "s_direction s' = Receive" "s_token_index s' = idx"
    by (rule accept_session_spec [OF s(5), of None])
      (use s skip_others_all [OF wf] in \<open>auto simp: accepted_ids_def\<close>)
  let ?tokens = "accepted_tokens (hkeys es) es"
  define a2 where "a2 = fst (accept gen ?i None ?a1)"
  have info: "map_option (\<lambda>f. (fe_info f, fe_state f)) (hget es fid) = map_option (\<lambda>x. (x, FPending)) (hget files fid)" for fid
    using new_recv_files [OF assms(1,4) rf] es(1) by simp
  have keys: "set (map fst ?tokens) = set (map fst files)"
    using accepted_all_tokens(1) [OF wf es(3)] es(2) by simp
  have F: "file_states s' = pending_on (map fst files)"
  proof
    fix k
    show "file_states s' k = pending_on (map fst files) k"
      using info [of k] hget_in_hkeys [of files k]
      by (cases "hget files k") (auto simp: file_states_def s' pending_on_def map_of_eq_None_iff)
  qed
  obtain k where "k \<in> set (map fst files)" using assms(5) by (cases files) auto
  then have k: "file_states s' k = Some FPending" by (simp add: F pending_on_def)
  then have nd: "\<not> all_done s'" using not_all_done [of s' k] by (auto simp: file_states_def)
  have a2: "hget (a_sessions a2) ?i = Some s'" "a_delivered a2 = a_delivered a @ [(?i, Accepted ?tokens)]"
    using s acc nd check_finish_get [of "broadcast_index (deliver [(?i, Accepted ?tokens)] (put_session ?i s' ?a1))" ?i s']
    by (simp_all add: a2_def accept_def on_accept_def put_session_def deliver_def)
  have "?i \<notin> fst ` set (a_delivered a)"
    using delivered_fresh session_id_fresh [OF assms(1)] reachable_session_inv [OF assms(1,2)] by blast
  then have "decision_of ?i a2 = Some (Accepted ?tokens)"
    by (simp add: decision_of_def a2(2) map_add_def map_of_eq_None_iff [THEN iffD2])
  moreover have "recv_view ?i (pending_on (map fst files)) (hget ?tokens) (hget files) Transfering a2"
    unfolding recv_view_def
  proof (intro exI [of _ s'] conjI allI impI)
    fix fid t assume "hget ?tokens fid = Some t"
    then show "hget (s_token_index s') t = Some fid"
      using accepted_all_tokens(2) [OF wf es(3)] s'(4) by simp
  next
    fix fid show "map_option fe_info (hget (s_files s') fid) = hget files fid"
      using info [of fid] s'(1) by (cases "hget files fid"; cases "hget es fid") auto
  qed (simp_all add: a2 s' wf F)
  moreover have "hwf ?tokens" by (simp add: accepted_tokens_def)
  ultimately show thesis using that [OF cr _ _ _ keys, of a2] a2_def by blast
qed

lemma peer_prepare_accepts:
  assumes "inj gen" and "session_reachable gen mx (co_sessions c)" and "active_recv (co_sessions c) < mx"
    and "hwf (fr_files req)" and "fr_files req \<noteq> []"
  obtains c' i tokens where
    "peer_prepare gen ip (UserAccept None) req c = (c', Some (Inr \<lparr>rs_session_id = i, rs_files = tokens\<rparr>))"
    and "hwf tokens" and "set (map fst tokens) = set (map fst (fr_files req))" and "co_fs c' = co_fs c"
    and "recv_view i (pending_on (map fst (fr_files req))) (hget tokens) (hget (fr_files req)) Transfering (co_sessions c')"
proof -
  let ?d = "to_device (fr_info req) ip"
  obtain a1 a2 i tokens where cr: "create_recv_session gen ?d (fr_files req) (co_sessions c) = (a1, Inr i)"
    and acc: "fst (accept gen i None a1) = a2" "decision_of i a2 = Some (Accepted tokens)"
    and rest: "hwf tokens" "set (map fst tokens) = set (map fst (fr_files req))"
      "recv_view i (pending_on (map fst (fr_files req))) (hget tokens) (hget (fr_files req)) Transfering a2"
    by (rule accept_all_new [OF assms, where d = ?d])
  have prep: "prepare_upload gen ip req c =
      (c\<lparr>co_device := add_node_device ?d (co_device c), co_sessions := a1\<rparr>, Inr i)"
    using cr by (simp add: prepare_upload_def Let_def)
  let ?c = "c\<lparr>co_device := add_node_device ?d (co_device c), co_sessions := a2\<rparr>"
  have "peer_prepare gen ip (UserAccept None) req c = (?c, Some (Inr \<lparr>rs_session_id = i, rs_files = tokens\<rparr>))"
    using acc by (simp add: peer_prepare_def prep decide_def prepare_reply_def guard_task_def guard_messages_def
        prepare_upload_reply_def is_success_def Let_def)
  from that [OF this rest(1,2)] rest(3) show thesis by simp
qed

lemma register_simps [simp]:
  "co_sessions (fst (handle_register ip announce c)) = co_sessions c"
  "co_fs (fst (handle_register ip announce c)) = co_fs c"
  by (simp_all add: handle_register_def)

lemma file_paths_nth:
  assumes "distinct (map fst entries)" and "length entries = length files" and "k < length files"
  shows "hget (file_paths entries files) (fst (entries ! k)) = Some (sf_path (files ! k))"
proof -
  have "hcollect (zip (map fst entries) (map sf_path files)) = zip (map fst entries) (map sf_path files)"
    using assms(1,2) by (intro hcollect_distinct) simp
  then show ?thesis
    using map_of_zip_nth [of "map fst entries" "map sf_path files" k] assms by (simp add: file_paths_def)
qed

lemma stored_by_index:
  assumes "stored fs fs' (set (map fst entries)) cont" and "distinct (map fst entries)"
    and "\<And>k. k < length entries \<Longrightarrow> cont (fst (entries ! k)) = bs k"
  shows "\<exists>P. inj_on P {..<length entries} \<and>
    (\<forall>k < length entries. fs (P k) = None \<and> fs' (P k) = Some (bs k)) \<and>
    (\<forall>p. p \<notin> P ` {..<length entries} \<longrightarrow> fs' p = fs p)"
proof -
  let ?id = "\<lambda>k. fst (entries ! k)"
  have img: "?id ` {..<length entries} = set (map fst entries)"
    by (force simp: in_set_conv_nth image_iff)
  have inj: "inj_on ?id {..<length entries}"
    using assms(2) unfolding distinct_conv_nth inj_on_def by (metis length_map lessThan_iff nth_map)
  obtain P where P: "inj_on P (set (map fst entries))"
      "\<forall>fid \<in> set (map fst entries). fs (P fid) = None \<and> fs' (P fid) = Some (cont fid)"
      "\<forall>p. p \<notin> P ` set (map fst entries) \<longrightarrow> fs' p = fs p"
    using assms(1) unfolding stored_def by blast
  have "inj_on (P \<circ> ?id) {..<length entries}" using comp_inj_on [OF inj, of P] P(1) img by simp
  moreover have "\<forall>k < length entries. fs ((P \<circ> ?id) k) = None \<and> fs' ((P \<circ> ?id) k) = Some (bs k)"
    using P(2) assms(3) by auto
  moreover have "\<forall>p. p \<notin> (P \<circ> ?id) ` {..<length entries} \<longrightarrow> fs' p = fs p"
    using P(3) by (simp only: image_comp [symmetric] img)
  ultimately show ?thesis by blast
qed

lemma accepted_to_come:
  assumes "distinct (map fst entries)" and "length entries = length files" and "hwf tokens"
    and "set (map fst tokens) = set (map fst entries)" and "\<forall>f \<in> set files. disk (sf_path f) \<noteq> None"
  shows "to_come (pending_on (map fst entries)) (hget tokens) (hget entries) disk (file_paths entries files) tokens"
  unfolding to_come_def
proof (intro conjI ballI)
  show "distinct (map fst tokens)" using assms(3) by (simp add: hwf_def)
  fix p assume p: "p \<in> set tokens"
  obtain fid t where ft: "p = (fid, t)" by (cases p)
  have fid: "fid \<in> set (map fst entries)" using p ft assms(4) by force
  then obtain k where k: "k < length files" "fid = fst (entries ! k)"
    using assms(2) by (auto simp: in_set_conv_nth)
  have "hget (file_paths entries files) fid = Some (sf_path (files ! k))" "disk (sf_path (files ! k)) \<noteq> None"
    using file_paths_nth [OF assms(1,2) k(1)] assms(5) k by simp_all
  moreover have "hget tokens fid = Some t" using hget_eq_Some_iff [OF assms(3)] p ft by simp
  moreover have "hget entries fid \<noteq> None" using fid by (simp add: map_of_eq_None_iff)
  ultimately show "case p of (fid, t) \<Rightarrow> pending_on (map fst entries) fid = Some FPending \<and>
      hget tokens fid = Some t \<and> hget entries fid \<noteq> None \<and>
      (\<exists>path. hget (file_paths entries files) fid = Some path \<and> disk path \<noteq> None)"
    using ft fid by (auto simp: pending_on_def)
qed

lemma finish_all_pending:
  "set ids \<subseteq> fst ` set fs \<Longrightarrow> after_report (finish_all (pending_on ids) fs) = Finished"
  by (simp add: after_finish_all)

lemma recv_view_get_session:
  "recv_view i F T D st a \<Longrightarrow> map_option sm_state (get_session gen i a) = Some st"
  by (auto simp: recv_view_def get_session_def summary_def)

section \<open>Properties\<close>

text \<open>C1. A transfer end to end: when a device sends files to a receiver with a free session whose
  user accepts, every file arrives byte for byte on a path of its own that was free before, no
  other file of the receiver changes, and both sessions end \<open>Finished\<close>.\<close>

theorem transfer_complete:
  fixes disk :: "string \<Rightarrow> (bytes \<times> bool) list option"
  assumes send: "send_files lower gs target files a0 = (a, Inr (i, entries))" and "inj gs" and "inj gr"
    and route: "initial_route gs (peer_env rt gr ip (UserAccept None) disk) app i target force a = (a1, Inr (view, pristine))"
    and recv: "session_reachable gr mx (co_sessions c)" "active_recv (co_sessions c) < mx"
    and read: "\<forall>f \<in> set files. disk (sf_path f) \<noteq> None"
    and room: "finite (dom (co_fs c))" "card (dom (co_fs c)) + length files < 1000"
  shows "\<exists>a' c' r P. run_send_driver gs (peer_env rt gr ip (UserAccept None) disk) app i target files entries force a c = (a', c') \<and>
    map_option sm_state (get_session gs i a') = Some Finished \<and>
    map_option sm_state (get_session gr r (co_sessions c')) = Some Finished \<and>
    inj_on P {..<length files} \<and>
    (\<forall>k < length files. co_fs c (P k) = None \<and>
       co_fs c' (P k) = Some (concat (map fst (the (disk (sf_path (files ! k))))))) \<and>
    (\<forall>p. p \<notin> P ` {..<length files} \<longrightarrow> co_fs c' p = co_fs c p)"
proof -
  let ?env = "peer_env rt gr ip (UserAccept None) disk"
  let ?ids = "map fst entries"
  let ?req = "\<lparr>fr_info = from_device (current_device app), fr_files = hcollect entries\<rparr>"
  let ?c1 = "fst (handle_register ip (to_announce (current_device app)) c)"
  have new: "sess_view i (pending_on ?ids) Pending a" "entries \<noteq> []" "distinct ?ids" "length entries = length files"
    using view_send_files [OF send \<open>inj gs\<close>] by simp_all
  have req: "hcollect entries = entries" using new(3) by (rule hcollect_distinct)
  obtain c2 r tokens where prep: "peer_prepare gr ip (UserAccept None) ?req ?c1 =
        (c2, Some (Inr \<lparr>rs_session_id = r, rs_files = tokens\<rparr>))"
    and tok: "hwf tokens" "set (map fst tokens) = set ?ids" "co_fs c2 = co_fs c"
    and view2: "recv_view r (pending_on ?ids) (hget tokens) (hget entries) Transfering (co_sessions c2)"
    by (rule peer_prepare_accepts [OF \<open>inj gr\<close>, of mx ?c1 ?req]) (use recv new(2,3) req in \<open>simp_all add: hwf_def\<close>)
  have pwf: "prepare_with_fallback gs ?env app i ?req view pristine force a1 c =
      ((a1, c2), Inr (view, Inr \<lparr>rs_session_id = r, rs_files = tokens\<rparr>))"
    using prep by (simp add: prepare_with_fallback_def peer_env_def)
  let ?paths = "file_paths entries files"
  have tc: "to_come (pending_on ?ids) (hget tokens) (hget entries) disk ?paths tokens"
    by (rule accepted_to_come [OF new(3,4) tok(1,2) read])
  have len: "length tokens = length files"
    using tok(1,2) new(3,4) by (metis hwf_def distinct_card length_map)
  have ne: "tokens \<noteq> []" using len new(2,4) by auto
  define b where "b = report_state gs i Transfering a1"
  have run: "run_send_driver gs ?env app i target files entries force a c =
      upload_files gs ?env i view r ?paths tokens (b, c2)"
    using view_token [OF new(1), of gs] ne by (auto simp: run_send_driver_def route pwf b_def)
  have "finite (dom (co_fs c2))" "card (dom (co_fs c2)) + length tokens < 1000"
    using room tok(3) len by simp_all
  note up = uploads_received [OF view2 tc this, of rt gr ip "UserAccept None" view gs i b]
  obtain a' c' where res: "upload_files gs ?env i view r ?paths tokens (b, c2) = (a', c')" by fastforce
  have sub: "set ?ids \<subseteq> fst ` set tokens" using tok(2) by simp
  then have "map_option sm_state (get_session gr r (co_sessions c')) = Some Finished"
    using up ne res recv_view_get_session [of r _ _ _ Finished "co_sessions c'" gr]
      finish_all_pending [OF sub] by auto
  moreover obtain F where "sess_view i F (send_result ?ids tokens) a'"
    using driver_view [OF new(1-4) route pwf] up tok(1) res run by auto
  then have "map_option sm_state (get_session gs i a') = Some Finished"
    using view_get_session [of i F _ a' gs] sub by (simp add: send_result_def)
  moreover have "stored (co_fs c) (co_fs c') (set ?ids) (content disk ?paths)"
    using up res tok(2,3) by simp
  from stored_by_index [OF this new(3), of "\<lambda>k. concat (map fst (the (disk (sf_path (files ! k)))))"]
  obtain P where "inj_on P {..<length files}"
    "\<forall>k < length files. co_fs c (P k) = None \<and> co_fs c' (P k) = Some (concat (map fst (the (disk (sf_path (files ! k))))))"
    "\<forall>p. p \<notin> P ` {..<length files} \<longrightarrow> co_fs c' p = co_fs c p"
    using file_paths_nth [OF new(3,4)] new(4) by (auto simp: content_def)
  ultimately show ?thesis using run res by (intro exI [of _ a'] exI [of _ c'] exI [of _ r] exI [of _ P]) simp
qed

section \<open>Witnesses\<close>

theorem transfer_complete_witness:
  "\<exists>a' c' p. run_send_driver sample_gen (peer_env (\<lambda>_. sample_route) sample_gen ''10.0.0.2'' (UserAccept None)
       (\<lambda>_. Some [([1, 2], True), ([3], False)])) sample_app ''uuu'' sample_peer sample_selection sample_entries
       False sample_sent (sample_core sample_state) = (a', c') \<and>
     map_option sm_state (get_session sample_gen ''uuu'' a') = Some Finished \<and>
     co_fs c' p = Some [1, 2, 3]"
proof -
  let ?c = "sample_core sample_state"
  have r: "session_reachable sample_gen 2 (co_sessions ?c)" using sample_reachable by (simp add: sample_core_def)
  have act: "active_recv (co_sessions ?c) < 2" by code_simp
  have room: "finite (dom (co_fs ?c))" "card (dom (co_fs ?c)) + length sample_selection < 1000"
    by (simp_all add: sample_core_def sample_selection_def)
  from transfer_complete [OF sample_send_eq inj_sample_gen inj_sample_gen sample_direct r act _ room,
      of "\<lambda>_. Some [([1, 2], True), ([3], False)]" "\<lambda>_. sample_route" "''10.0.0.2''"]
  obtain a' c' P where "run_send_driver sample_gen (peer_env (\<lambda>_. sample_route) sample_gen ''10.0.0.2'' (UserAccept None)
       (\<lambda>_. Some [([1, 2], True), ([3], False)])) sample_app ''uuu'' sample_peer sample_selection sample_entries
       False sample_sent ?c = (a', c')" "map_option sm_state (get_session sample_gen ''uuu'' a') = Some Finished"
    "\<forall>k < length sample_selection. co_fs c' (P k) = Some [1, 2, 3]"
    by auto
  moreover have "0 < length sample_selection" by (simp add: sample_selection_def)
  ultimately show ?thesis by blast
qed

end
