(* ===== verification/Http_Text.thy ===== *)
theory Http_Text
  imports Std_Str
begin

text \<open>
  The hand-written HTTP/1.1 text handling shared by the QUIC transport
  (\<open>src/rust/core/src/relay/quic.rs\<close>) and the rendezvous on the TURN port
  (\<open>src/rust/core/src/relay/turn_server.rs\<close>): the search for the blank line, the scan of the header
  lines, and the lemmas that make both independent of what follows the head.

  A read from a stream is \<open>Inl\<close> an I/O error or \<open>Inr\<close> the bytes it returned; an empty read, like the
  end of the list, is the end of the stream.
\<close>

type_synonym reads = "(string + bytes) list"

named_theorems http_simps \<open>rewriting HTTP heads\<close>

section \<open>Finding the blank line\<close>

definition blank_line :: bytes where
  "blank_line = [0x0D, 0x0A, 0x0D, 0x0A]"

text \<open>\<open>b.windows(4).position(|w| w == b"\r\n\r\n")\<close>\<close>

fun blank_at :: "bytes \<Rightarrow> nat option" where
  "blank_at [] = None"
| "blank_at (x # b) = (if take 4 (x # b) = blank_line then Some 0 else map_option Suc (blank_at b))"

text \<open>\<open>.map(|p| p + 4).unwrap_or(b.len())\<close>\<close>

definition head_end :: "bytes \<Rightarrow> nat" where
  "head_end b = (case blank_at b of None \<Rightarrow> length b | Some p \<Rightarrow> p + 4)"

section \<open>Header lines\<close>

text \<open>
  The loop over the lines after the first: up to the first empty line, every \<open>key: value\<close> is
  handed on with both sides trimmed.
\<close>

fun header_fold :: "(string \<Rightarrow> string \<Rightarrow> 'a \<Rightarrow> 'a) \<Rightarrow> string list \<Rightarrow> 'a \<Rightarrow> 'a" where
  "header_fold f [] a = a"
| "header_fold f (l # ls) a =
     (if l = [] then a
      else header_fold f ls
             (case split_once (CHR '':'') l of
                None \<Rightarrow> a
              | Some (k, v) \<Rightarrow> f (str_trim k) (str_trim v) a))"

section \<open>Lemmas\<close>

text \<open>Well-formed text in front is decoded unchanged whatever follows it.\<close>

lemma utf8_step_append:
  assumes "utf8_step l r = (n, True)"
  shows "utf8_step l (r @ s) = (n, True) \<and> n \<le> Suc (length r) \<and> n \<noteq> 0"
  using assms
  by (auto simp: utf8_step_def Let_def nth_append hd_append not_less Suc_le_eq split: if_splits)

lemma utf8_lossy_append: "valid_utf8 a \<Longrightarrow> utf8_lossy (a @ b) = a @ utf8_lossy b"
proof (induction a rule: valid_utf8.induct)
  case (2 l r)
  obtain n ok where st: "utf8_step l r = (n, ok)" by fastforce
  with 2 have ok: "ok" and v: "valid_utf8 (drop (n - 1) r)" by auto
  note app = utf8_step_append [OF st [unfolded ok [THEN eqTrueI]], of b]
  then obtain m where n: "n = Suc m" and le: "m \<le> length r" by (cases n) auto
  have "utf8_lossy (drop m r @ b) = drop m r @ utf8_lossy b"
    using 2(1) [OF st [symmetric] refl] v n by simp
  then show ?case using app n le by simp
qed simp

lemma valid_utf8_append: "valid_utf8 a \<Longrightarrow> valid_utf8 b \<Longrightarrow> valid_utf8 (a @ b)"
proof (induction a rule: valid_utf8.induct)
  case (2 l r)
  obtain n ok where st: "utf8_step l r = (n, ok)" by fastforce
  with 2 have ok: "ok" and v: "valid_utf8 (drop (n - 1) r)" by auto
  note app = utf8_step_append [OF st [unfolded ok [THEN eqTrueI]], of b]
  then obtain m where n: "n = Suc m" and le: "m \<le> length r" by (cases n) auto
  have "valid_utf8 (drop m r @ b)"
    using 2(1) [OF st [symmetric] refl] v n 2(3) by simp
  then show ?case using app n le by simp
qed simp

lemma from_utf8_lossy_append:
  "valid_utf8 (as_bytes s) \<Longrightarrow> from_utf8_lossy (as_bytes s @ b) = s @ from_utf8_lossy b"
  by (simp add: from_utf8_lossy_def utf8_lossy_append)
    (simp add: str_of_bytes_def as_bytes_def o_def)

lemma as_bytes_append [simp]: "as_bytes (s @ t) = as_bytes s @ as_bytes t"
  by (simp add: as_bytes_def)

lemma as_bytes_Cons: "as_bytes (c # s) = byte_of_char c # as_bytes s"
  by (simp add: as_bytes_def)

lemma as_bytes_Nil [simp]: "as_bytes [] = []"
  by (simp add: as_bytes_def)

text \<open>The first blank line does not move when bytes are appended.\<close>

lemma blank_here: "take 4 b = blank_line \<Longrightarrow> 4 \<le> length b"
  by (drule arg_cong [where f = length]) (simp add: blank_line_def)

lemma blank_at_le: "blank_at b = Some p \<Longrightarrow> p + 4 \<le> length b"
proof (induction b arbitrary: p)
  case (Cons x b)
  then show ?case using blank_here [of "x # b"] by (auto split: if_splits)
qed simp

lemma blank_at_append: "blank_at b = Some p \<Longrightarrow> blank_at (b @ c) = Some p"
proof (induction b arbitrary: p)
  case (Cons x b)
  have "4 \<le> length (x # b)" using blank_at_le [OF Cons.prems] by simp
  then have "take 4 (x # b @ c) = take 4 (x # b)" by simp
  then show ?case using Cons by (auto split: if_splits)
qed simp

lemma blank_at_skip: "0x0D \<notin> set l \<Longrightarrow> blank_at (l @ b) = map_option (\<lambda>p. p + length l) (blank_at b)"
  by (induction l) (auto simp: blank_line_def option.map_comp o_def option.map_ident)

definition crlf :: string where
  "crlf = [cr, lf]"

lemma as_bytes_crlf: "as_bytes crlf = [0x0D, 0x0A]"
  by (simp add: crlf_def cr_def lf_def as_bytes_def byte_of_char_def)

lemma cr_byte: "0x0D \<in> set (as_bytes s) \<longleftrightarrow> cr \<in> set s"
proof -
  have cr13: "byte_of_char cr = 0x0D" by (simp add: cr_def byte_of_char_def)
  show ?thesis
  proof
    assume "0x0D \<in> set (as_bytes s)"
    then obtain c where "c \<in> set s" "byte_of_char c = byte_of_char cr"
      using cr13 by (auto simp: as_bytes_def)
    then show "cr \<in> set s" by (metis char_of_byte_of_char)
  qed (auto simp: as_bytes_def cr13 [symmetric])
qed

text \<open>A head: a block of non-empty lines without carriage returns, then the blank line.\<close>

definition http_head :: "string list \<Rightarrow> string" where
  "http_head ls = concat (map (\<lambda>l. l @ crlf) ls) @ crlf"

definition head_line :: "string \<Rightarrow> bool" where
  "head_line l \<longleftrightarrow> l \<noteq> [] \<and> cr \<notin> set l \<and> valid_utf8 (as_bytes l)"

lemma valid_crlf: "valid_utf8 (as_bytes crlf)"
  by (intro valid_utf8_ascii) (simp add: as_bytes_crlf)

lemma valid_http_head: "list_all head_line ls \<Longrightarrow> valid_utf8 (as_bytes (http_head ls))"
  by (induction ls) (auto simp: http_head_def valid_crlf head_line_def intro!: valid_utf8_append)

lemma blank_at_crlf_line:
  assumes "x \<noteq> 0x0D"
  shows "blank_at (0x0D # 0x0A # x # b) = map_option (\<lambda>p. p + 2) (blank_at (x # b))"
  using assms by (simp add: blank_line_def option.map_comp o_def)

lemma blank_at_line:
  assumes "head_line l" "b = as_bytes (http_head ls) @ c" "list_all head_line ls"
  shows "blank_at (as_bytes (l @ crlf) @ b) =
    (if ls = [] then Some (length l) else map_option (\<lambda>p. p + (length l + 2)) (blank_at b))"
proof (cases ls)
  case Nil
  then show ?thesis
    using assms by (simp add: http_head_def as_bytes_crlf blank_at_skip cr_byte head_line_def blank_line_def)
next
  case (Cons k ks)
  then obtain x r where k: "k = x # r" "cr \<noteq> x" using assms(3) by (cases k) (auto simp: head_line_def)
  have "byte_of_char x \<noteq> 0x0D" using k(2) cr_byte [of "[x]"] by (auto simp: as_bytes_def)
  then show ?thesis
    using assms(1,2) Cons k
    by (simp add: http_head_def as_bytes_crlf blank_at_skip cr_byte head_line_def as_bytes_Cons
        blank_at_crlf_line option.map_comp o_def add_ac del: blank_at.simps)
qed

lemma head_end_head [http_simps]:
  assumes "list_all head_line ls" "ls \<noteq> []"
  shows "blank_at (as_bytes (http_head ls) @ b) = Some (length (http_head ls) - 4)"
  using assms
proof (induction ls)
  case (Cons l ls)
  have eq: "as_bytes (http_head (l # ls)) @ b = as_bytes (l @ crlf) @ as_bytes (http_head ls) @ b"
    by (simp add: http_head_def)
  have len: "ls \<noteq> [] \<Longrightarrow> 4 \<le> length (http_head ls)"
    using Cons.prems by (cases ls) (auto simp: http_head_def crlf_def)
  show ?case
    unfolding eq using Cons len
    by (subst blank_at_line [of _ _ ls b]) (auto simp: http_head_def crlf_def)
qed simp

lemma head_end_eq [http_simps]:
  "list_all head_line ls \<Longrightarrow> ls \<noteq> [] \<Longrightarrow> head_end (as_bytes (http_head ls) @ b) = length (http_head ls)"
  using head_end_head [of ls b]
  by (cases ls) (auto simp: head_end_def http_head_def crlf_def simp del: as_bytes_append)

lemma split_crlf_line: "cr \<notin> set l \<Longrightarrow> split_crlf (l @ crlf @ s) = l # split_crlf s"
proof (induction l)
  case (Cons x l)
  then show ?case by (cases "l @ crlf @ s") (auto simp: crlf_def)
qed (simp add: crlf_def)

lemma split_crlf_head [http_simps]:
  "list_all head_line ls \<Longrightarrow> split_crlf (http_head ls @ s) = ls @ [] # split_crlf s"
proof (induction ls)
  case (Cons l ls)
  then show ?case
    using split_crlf_line [of l "http_head ls @ s"] by (simp add: http_head_def head_line_def)
qed (use split_crlf_line [of "[]" s] in \<open>simp add: http_head_def\<close>)

lemma from_utf8_lossy_head [http_simps]:
  "list_all head_line ls \<Longrightarrow>
    split_crlf (from_utf8_lossy (as_bytes (http_head ls) @ b)) = ls @ [] # split_crlf (from_utf8_lossy b)"
  by (simp add: from_utf8_lossy_append valid_http_head split_crlf_head)

lemma header_fold_stop [http_simps]:
  "[] \<notin> set ls \<Longrightarrow> header_fold f (ls @ [] # rest) a = header_fold f ls a"
  by (induction ls arbitrary: a) auto

lemma header_fold_Cons [http_simps]:
  assumes "CHR '':'' \<notin> set k"
  shows "header_fold f ((k @ CHR '':'' # v) # ls) a = header_fold f ls (f (str_trim k) (str_trim v) a)"
  using assms by (simp add: split_once_append)

lemma header_fold_append: "[] \<notin> set ls \<Longrightarrow> header_fold f (ls @ ms) a = header_fold f ms (header_fold f ls a)"
  by (induction ls arbitrary: a) auto

text \<open>White space.\<close>

lemma seq_at_space: "seq_at ws_seqs (CHR '' '' # s) = 1"
  by (simp add: seq_at_def ws_seqs_def starts_with_def)

lemma str_trim_space [http_simps]: "str_trim (CHR '' '' # s) = str_trim s"
  by (simp add: str_trim_def trim_start_seqs_def seq_at_space)

definition visible :: "char \<Rightarrow> bool" where
  "visible c \<longleftrightarrow> 0x21 \<le> (of_char c :: nat) \<and> (of_char c :: nat) \<le> 0x7E"

definition token :: "string \<Rightarrow> bool" where
  "token s \<longleftrightarrow> s \<noteq> [] \<and> list_all visible s"

lemma ws_seqs_not_visible: "list_all (\<lambda>w. w \<noteq> [] \<and> \<not> visible (hd w) \<and> \<not> visible (hd (rev w))) ws_seqs"
  by (simp add: ws_seqs_def visible_def)

lemma seq_at_visible:
  assumes "visible c"
  shows "seq_at ws_seqs (c # s) = 0" and "seq_at (map rev ws_seqs) (c # s) = 0"
  using ws_seqs_not_visible assms by (auto simp: list_all_iff intro!: seq_at_0)

lemma str_trim_token: "token s \<Longrightarrow> str_trim s = s"
proof -
  assume t: "token s"
  then obtain c r where s: "s = c # r" by (cases s) (auto simp: token_def)
  from t obtain c' r' where s': "rev s = c' # r'" by (cases "rev s") (auto simp: token_def)
  have "visible c" using s t by (simp add: token_def)
  moreover have "visible c'"
    using s' t by (metis list.set_intros(1) list_all_iff set_rev token_def)
  ultimately show ?thesis using s s' by (metis seq_at_visible str_trim_id)
qed

lemma split_ws_token:
  "list_all visible s \<Longrightarrow> split_ws (length s + n) acc (s @ t) = split_ws n (rev s @ acc) t"
  by (induction s arbitrary: acc) (auto simp: seq_at_visible)

lemma split_ws_space: "acc \<noteq> [] \<Longrightarrow> split_ws (Suc n) acc (CHR '' '' # t) = rev acc # split_ws n [] t"
  by (simp add: seq_at_space)

lemma split_whitespace_token: "token a \<Longrightarrow> split_whitespace a = [a]"
  using split_ws_token [of a 1 "[]" "[]"] by (simp add: split_whitespace_def token_def)

lemma split_whitespace_space:
  assumes "token a"
  shows "split_whitespace (a @ CHR '' '' # t) = a # split_whitespace t"
proof -
  have "split_ws (length a + Suc (Suc (length t))) [] (a @ CHR '' '' # t) = a # split_ws (Suc (length t)) [] t"
    using assms split_ws_token [of a "Suc (Suc (length t))" "[]" "CHR '' '' # t"]
    by (simp only: split_ws_space append_Nil2 token_def rev_is_Nil_conv rev_rev_ident simp_thms)
  then show ?thesis by (simp add: split_whitespace_def)
qed

lemmas split_whitespace_simps [http_simps] = split_whitespace_token split_whitespace_space

lemma visible_facts:
  assumes "list_all visible s"
  shows "cr \<notin> set s" and "valid_utf8 (as_bytes s)" and "CHR '' '' \<notin> set s"
proof -
  show "cr \<notin> set s" using assms by (auto simp: list_all_iff visible_def cr_def)
  show "CHR '' '' \<notin> set s" using assms by (auto simp: list_all_iff visible_def)
  have "list_all (\<lambda>b. b < 0x80) (as_bytes s)"
    using assms by (auto simp: list_all_iff as_bytes_def visible_def byte_of_char_def word_less_nat_alt
        unat_of_nat take_bit_nat_eq_self)
  then show "valid_utf8 (as_bytes s)" by (rule valid_utf8_ascii)
qed

lemma is_digit_visible: "is_digit c \<Longrightarrow> visible c"
  by (simp add: is_digit_def visible_def)

lemma token_show_nat [simp]: "token (show_nat n)"
  using show_nat_digits [of n] by (auto simp: token_def list_all_iff is_digit_visible)

lemma visible_text: "list_all (\<lambda>c. visible c \<or> c = CHR '' '') s \<Longrightarrow> cr \<notin> set s \<and> valid_utf8 (as_bytes s)"
proof -
  assume s: "list_all (\<lambda>c. visible c \<or> c = CHR '' '') s"
  have "byte_of_char c < 0x80" if "visible c \<or> c = CHR '' ''" for c
    using that by (auto simp: visible_def byte_of_char_def word_less_nat_alt unat_of_nat take_bit_nat_eq_self)
  then have "list_all (\<lambda>b. b < 0x80) (as_bytes s)" using s by (auto simp: list_all_iff as_bytes_def)
  moreover have "cr \<notin> set s" using s by (auto simp: list_all_iff visible_def cr_def)
  ultimately show ?thesis using valid_utf8_ascii by simp
qed

lemma head_line_visible: "s \<noteq> [] \<Longrightarrow> list_all (\<lambda>c. visible c \<or> c = CHR '' '') s \<Longrightarrow> head_line s"
  using visible_text by (auto simp: head_line_def)

lemma list_all_visible_mono: "list_all visible s \<Longrightarrow> list_all (\<lambda>c. visible c \<or> c = CHR '' '') s"
  by (auto simp: list_all_iff)

lemma list_all_token: "token s \<Longrightarrow> list_all (\<lambda>c. visible c \<or> c = CHR '' '') s"
  by (simp add: token_def list_all_visible_mono)

end
