(* ===== verification/Quic_Http.thy ===== *)
theory Quic_Http
  imports Http_Text
begin

text \<open>
  HTTP/1.1 over a QUIC stream, \<open>src/rust/core/src/relay/quic.rs\<close>: the server side
  (\<open>serve_stream\<close>) and the client side (\<open>send_request\<close>, \<open>send_request_stream\<close>).

  The QUIC library is present as the reads a stream delivers, in whatever pieces it cuts them, and
  on the client side as \<open>conn w bytes finished\<close>, which takes the bytes written to a new stream
  (with or without the final \<open>finish\<close>) and gives the reads of the answer or the error of opening or
  writing the stream.  \<open>build\<close> is the error of the \<open>http\<close> crate's request builder, if any, and
  \<open>router\<close> the axum router with its body collected, acting on a state of its own.
\<close>

section \<open>Server side\<close>

datatype StreamError = StreamIo string | HeadTruncated bytes | BuildError string | RouterError string

record QuicRequest =
  qr_method :: string
  qr_uri :: string
  qr_headers :: "(string \<times> string) list"
  qr_peer :: string
  qr_body :: bytes

fun read_head :: "bytes \<Rightarrow> reads \<Rightarrow> StreamError + bytes \<times> reads" where
  "read_head head [] = (if blank_at head \<noteq> None then Inr (head, []) else Inl (HeadTruncated head))"
| "read_head head (r # rs) =
     (if blank_at head \<noteq> None then Inr (head, r # rs)
      else case r of
        Inl e \<Rightarrow> Inl (StreamIo e)
      | Inr chunk \<Rightarrow>
          if chunk = [] then Inl (HeadTruncated head) else read_head (head @ chunk) rs)"

fun read_body :: "nat \<Rightarrow> bytes \<Rightarrow> reads \<Rightarrow> StreamError + bytes" where
  "read_body content_length body [] = Inr body"
| "read_body content_length body (r # rs) =
     (if \<not> length body < content_length then Inr body
      else case r of
        Inl e \<Rightarrow> Inl (StreamIo e)
      | Inr chunk \<Rightarrow>
          if chunk = [] then Inr body else read_body content_length (body @ chunk) rs)"

definition usize_max :: nat where
  "usize_max = 18446744073709551615"

definition serve_header :: "string \<Rightarrow> string \<Rightarrow> nat \<times> string option \<Rightarrow> nat \<times> string option" where
  "serve_header k v a =
     (if eq_ignore_ascii_case k ''content-length''
      then ((case parse_uint usize_max v of None \<Rightarrow> 0 | Some n \<Rightarrow> n), snd a)
      else if eq_ignore_ascii_case k ''content-type'' then (fst a, Some v)
      else a)"

text \<open>\<open>parts.next().unwrap_or(d)\<close>, for the first and the second part.\<close>

definition nth_or :: "string list \<Rightarrow> nat \<Rightarrow> string \<Rightarrow> string" where
  "nth_or ps k d = (if k < length ps then ps ! k else d)"

definition serve_headers :: "nat \<Rightarrow> string option \<Rightarrow> (string \<times> string) list" where
  "serve_headers content_length content_type =
     (if content_length > 0 then [(''content-length'', show_nat content_length)] else []) @
     (case content_type of None \<Rightarrow> [] | Some ct \<Rightarrow> [(''content-type'', ct)])"

definition response_bytes :: "nat \<Rightarrow> bytes \<Rightarrow> bytes" where
  "response_bytes status body =
     as_bytes (''HTTP/1.1 '' @ show_nat status @ '' reason'' @ crlf @
       ''content-length: '' @ show_nat (length body) @ crlf @ ''connection: close'' @ crlf @ crlf) @ body"

definition serve_stream ::
  "(string \<Rightarrow> string \<Rightarrow> (string \<times> string) list \<Rightarrow> string option) \<Rightarrow>
   ('w \<Rightarrow> QuicRequest \<Rightarrow> 'w \<times> (string + nat \<times> bytes)) \<Rightarrow> reads \<Rightarrow> 'w \<Rightarrow> 'w \<times> (StreamError + bytes)" where
  "serve_stream build router rs w =
     (case read_head [] rs of
        Inl e \<Rightarrow> (w, Inl e)
      | Inr (head, rest) \<Rightarrow>
          let lines = split_crlf (from_utf8_lossy head);
              parts = split_whitespace (hd lines);
              method = nth_or parts 0 ''GET'';
              path = nth_or parts 1 ''/'';
              (content_length, content_type) = header_fold serve_header (tl lines) (0, None)
          in case read_body content_length (drop (head_end head) head) rest of
               Inl e \<Rightarrow> (w, Inl e)
             | Inr body \<Rightarrow>
                 let headers = serve_headers content_length content_type in
                 case build method path headers of
                   Some e \<Rightarrow> (w, Inl (BuildError e))
                 | None \<Rightarrow>
                     (case router w \<lparr>qr_method = method, qr_uri = path, qr_headers = headers,
                                     qr_peer = ''0.0.0.0:0'', qr_body = body\<rparr> of
                        (w', Inl e) \<Rightarrow> (w', Inl (RouterError e))
                      | (w', Inr (status, body_bytes)) \<Rightarrow> (w', Inr (response_bytes status body_bytes))))"

section \<open>Client side\<close>

record HttpRequest =
  hr_method :: string
  hr_path_and_query :: string
  hr_host :: string
  hr_content_type :: "string option"
  hr_content_length :: "nat option"
  hr_body :: "bytes option"

record HttpResponse =
  hp_status :: nat
  hp_body :: bytes

definition encode_head :: "HttpRequest \<Rightarrow> bytes" where
  "encode_head q =
     as_bytes (hr_method q @ '' '' @ hr_path_and_query q @ '' HTTP/1.1'' @ crlf @
       ''host: '' @ hr_host q @ crlf @ ''connection: close'' @ crlf) @
     (case hr_content_type q of None \<Rightarrow> [] | Some ct \<Rightarrow> as_bytes (''content-type: '' @ ct @ crlf)) @
     (case hr_content_length q of None \<Rightarrow> [] | Some len \<Rightarrow> as_bytes (''content-length: '' @ show_nat len @ crlf)) @
     as_bytes crlf"

definition decode_header :: "string \<Rightarrow> string \<Rightarrow> nat option \<Rightarrow> nat option" where
  "decode_header k v a =
     (if eq_ignore_ascii_case k ''content-length'' then parse_uint 18446744073709551615 v else a)"

definition decode_response :: "bytes \<Rightarrow> string + HttpResponse" where
  "decode_response raw =
     (let lines = split_crlf (from_utf8_lossy raw);
          parts = split_whitespace (hd lines)
      in case (if 1 < length parts then parse_uint 65535 (parts ! 1) else None) of
           None \<Rightarrow> Inl (''bad status line: '' @ hd lines)
         | Some status \<Rightarrow>
             let body = drop (head_end raw) raw in
             Inr \<lparr>hp_status = status,
                  hp_body = (case header_fold decode_header (tl lines) None of
                               None \<Rightarrow> body
                             | Some len \<Rightarrow> take len body)\<rparr>)"

text \<open>The read loop of \<open>send_request\<close> stops at any error; the ten second limit ends the list of reads.\<close>

fun collect_reads :: "reads \<Rightarrow> bytes" where
  "collect_reads [] = []"
| "collect_reads (Inl e # rs) = []"
| "collect_reads (Inr c # rs) = (if c = [] then [] else c @ collect_reads rs)"

definition send_request ::
  "('w \<Rightarrow> bytes \<Rightarrow> bool \<Rightarrow> 'w \<times> (string + reads)) \<Rightarrow> HttpRequest \<Rightarrow> 'w \<Rightarrow> 'w \<times> (string + HttpResponse)" where
  "send_request conn q w =
     (case conn w (encode_head q @ (case hr_body q of None \<Rightarrow> [] | Some b \<Rightarrow> b)) True of
        (w', Inl e) \<Rightarrow> (w', Inl e)
      | (w', Inr rs) \<Rightarrow> (w', decode_response (collect_reads rs)))"

text \<open>The body of the streaming variant: the bytes written, and the error that ended the loop.\<close>

fun send_body :: "nat \<Rightarrow> reads \<Rightarrow> bytes \<times> string option" where
  "send_body remaining [] = ([], None)"
| "send_body remaining (r # rs) =
     (if remaining = 0 then ([], None)
      else case r of
        Inl e \<Rightarrow> ([], Some e)
      | Inr c \<Rightarrow>
          if c = [] then ([], None)
          else let d = take (min (256 * 1024) remaining) c;
                   (sent, err) = send_body (remaining - length d) rs
               in (d @ sent, err))"

fun collect_all :: "reads \<Rightarrow> string + bytes" where
  "collect_all [] = Inr []"
| "collect_all (Inl e # rs) = Inl e"
| "collect_all (Inr c # rs) = (if c = [] then Inr [] else map_sum id ((@) c) (collect_all rs))"

definition send_request_stream ::
  "('w \<Rightarrow> bytes \<Rightarrow> bool \<Rightarrow> 'w \<times> (string + reads)) \<Rightarrow> HttpRequest \<Rightarrow> reads \<Rightarrow> nat \<Rightarrow> 'w \<Rightarrow>
   'w \<times> (string + HttpResponse)" where
  "send_request_stream conn q file len w =
     (case send_body len file of
        (sent, Some e) \<Rightarrow> (fst (conn w (encode_head q @ sent) False), Inl e)
      | (sent, None) \<Rightarrow>
          (case conn w (encode_head q @ sent) True of
             (w', Inl e) \<Rightarrow> (w', Inl e)
           | (w', Inr rs) \<Rightarrow>
               (w', case collect_all rs of Inl e \<Rightarrow> Inl e | Inr raw \<Rightarrow> decode_response raw)))"

section \<open>Reads, however they are cut\<close>

definition delivers :: "reads \<Rightarrow> bytes \<Rightarrow> bool" where
  "delivers rs b \<longleftrightarrow> list_all (case_sum (\<lambda>_. False) (\<lambda>c. c \<noteq> [])) rs \<and> collect_reads rs = b"

lemma delivers_Nil [simp]: "delivers [] b \<longleftrightarrow> b = []"
  by (auto simp: delivers_def)

lemma delivers_Cons: "delivers (r # rs) b \<longleftrightarrow> (\<exists>c b'. r = Inr c \<and> c \<noteq> [] \<and> delivers rs b' \<and> b = c @ b')"
  by (cases r) (auto simp: delivers_def)

lemma collect_all_delivers: "delivers rs b \<Longrightarrow> collect_all rs = Inr b"
  by (induction rs arbitrary: b) (auto simp: delivers_Cons)

lemma read_head_delivers:
  assumes "delivers rs b" "blank_at (head @ b) = Some p"
  shows "\<exists>h rest b'. read_head head rs = Inr (h, rest) \<and> delivers rest b' \<and> h @ b' = head @ b \<and> blank_at h = Some p"
  using assms
proof (induction rs arbitrary: head b)
  case Nil
  then show ?case by auto
next
  case (Cons r rs)
  show ?case
  proof (cases "blank_at head")
    case None
    obtain c b' where r: "r = Inr c" "c \<noteq> []" "delivers rs b'" "b = c @ b'"
      using Cons.prems(1) by (auto simp: delivers_Cons)
    then show ?thesis using None Cons.IH [of b' "head @ c"] Cons.prems(2) by simp
  next
    case (Some q)
    then have "q = p" using Cons.prems(2) blank_at_append [of head q b] by simp
    then show ?thesis using Some Cons.prems(1) by auto
  qed
qed

lemma read_body_delivers:
  assumes "delivers rs b" "length body + length b \<le> n"
  shows "read_body n body rs = Inr (body @ b)"
  using assms
proof (induction rs arbitrary: body b)
  case (Cons r rs)
  then obtain c b' where r: "r = Inr c" "c \<noteq> []" "delivers rs b'" "b = c @ b'" by (auto simp: delivers_Cons)
  moreover have "length body < n" using r Cons.prems(2) by (cases c) auto
  ultimately show ?case using Cons.IH [of b' "body @ c"] Cons.prems(2) by simp
qed simp

lemma send_body_delivers:
  assumes "delivers rs b" "length b \<le> n" "list_all (\<lambda>r. case r of Inl _ \<Rightarrow> True | Inr c \<Rightarrow> length c \<le> 256 * 1024) rs"
  shows "send_body n rs = (b, None)"
  using assms
proof (induction rs arbitrary: b n)
  case (Cons r rs)
  then obtain c b' where r: "r = Inr c" "c \<noteq> []" "delivers rs b'" "b = c @ b'" by (auto simp: delivers_Cons)
  moreover have "n \<noteq> 0" using r Cons.prems(2) by (cases c) auto
  moreover have "take (min 262144 n) c = c" using r Cons.prems(2,3) by simp
  ultimately show ?case using Cons.IH [of b' "n - length c"] Cons.prems(2,3) by simp
qed simp

section \<open>Requests and answers\<close>

definition wf_request :: "HttpRequest \<Rightarrow> bool" where
  "wf_request q \<longleftrightarrow> token (hr_method q) \<and> token (hr_path_and_query q) \<and>
     cr \<notin> set (hr_host q) \<and> valid_utf8 (as_bytes (hr_host q)) \<and>
     (case hr_content_type q of None \<Rightarrow> True | Some ct \<Rightarrow> token ct)"

definition request_lines :: "HttpRequest \<Rightarrow> string list" where
  "request_lines q =
     [hr_method q @ '' '' @ hr_path_and_query q @ '' HTTP/1.1'', ''host: '' @ hr_host q, ''connection: close''] @
     (case hr_content_type q of None \<Rightarrow> [] | Some ct \<Rightarrow> [''content-type: '' @ ct]) @
     (case hr_content_length q of None \<Rightarrow> [] | Some len \<Rightarrow> [''content-length: '' @ show_nat len])"

lemma encode_head_eq: "encode_head q = as_bytes (http_head (request_lines q))"
  by (simp add: encode_head_def request_lines_def http_head_def as_bytes_def split: option.split)

lemma head_lines_request: "wf_request q \<Longrightarrow> list_all head_line (request_lines q)"
proof -
  assume q: "wf_request q"
  have host: "head_line (''host: '' @ hr_host q)"
    using q valid_utf8_append [of "as_bytes ''host: ''" "as_bytes (hr_host q)"] visible_text [of "''host: ''"]
    by (auto simp: head_line_def wf_request_def visible_def cr_def as_bytes_def)
  have "list_all (\<lambda>c. visible c \<or> c = CHR '' '') (hr_method q @ '' '' @ hr_path_and_query q @ '' HTTP/1.1'')"
    using q list_all_token [of "hr_method q"] list_all_token [of "hr_path_and_query q"]
    by (auto simp: wf_request_def visible_def)
  moreover have "list_all (\<lambda>c. visible c \<or> c = CHR '' '') (''content-type: '' @ ct)" if "hr_content_type q = Some ct" for ct
    using q that list_all_token [of ct] by (auto simp: wf_request_def visible_def)
  moreover have "list_all (\<lambda>c. visible c \<or> c = CHR '' '') (''content-length: '' @ show_nat n)" for n
    using list_all_token [of "show_nat n"] by (auto simp: visible_def)
  ultimately show ?thesis
    using host by (auto simp: request_lines_def split: option.split intro!: head_line_visible simp: visible_def)
qed

lemma header_fold_request:
  assumes "wf_request q" "case hr_content_length q of None \<Rightarrow> True | Some n \<Rightarrow> n \<le> usize_max"
  shows "header_fold serve_header (tl (request_lines q)) (0, None) =
    (case hr_content_length q of None \<Rightarrow> 0 | Some n \<Rightarrow> n, hr_content_type q)"
  using assms
  by (cases "hr_content_length q"; cases "hr_content_type q")
    (simp_all add: request_lines_def wf_request_def serve_header_def str_trim_token str_trim_space token_def visible_def
      eq_ignore_ascii_case_def ascii_lower_def parse_uint_show_nat usize_max_def)

lemma serve_request_head:
  assumes "wf_request q" "case hr_content_length q of None \<Rightarrow> True | Some n \<Rightarrow> n \<le> usize_max"
    "delivers rs (encode_head q @ b)"
    "length b \<le> (case hr_content_length q of None \<Rightarrow> 0 | Some n \<Rightarrow> n)"
  shows "serve_stream build router rs w =
    (let headers = serve_headers (case hr_content_length q of None \<Rightarrow> 0 | Some n \<Rightarrow> n) (hr_content_type q) in
     case build (hr_method q) (hr_path_and_query q) headers of
       Some e \<Rightarrow> (w, Inl (BuildError e))
     | None \<Rightarrow>
         (case router w \<lparr>qr_method = hr_method q, qr_uri = hr_path_and_query q, qr_headers = headers,
                          qr_peer = ''0.0.0.0:0'', qr_body = b\<rparr> of
            (w', Inl e) \<Rightarrow> (w', Inl (RouterError e))
          | (w', Inr (status, body_bytes)) \<Rightarrow> (w', Inr (response_bytes status body_bytes))))"
proof -
  let ?ls = "request_lines q"
  note hl = head_lines_request [OF assms(1)]
  have ne: "?ls \<noteq> []" and nil: "[] \<notin> set ?ls"
    using hl by (auto simp: request_lines_def list_all_iff head_line_def)
  note blank = head_end_head [OF hl ne, of b]
  obtain h rest b' where rd: "read_head [] rs = Inr (h, rest)" "delivers rest b'"
      "h @ b' = encode_head q @ b" "blank_at h = Some (length (http_head ?ls) - 4)"
    using read_head_delivers [of rs _ "[]", OF assms(3)] blank by (auto simp: encode_head_eq)
  have len: "4 \<le> length (http_head ?ls)"
    using blank_at_le [OF head_end_head [OF hl ne, of "[]"]] by (simp add: http_head_def crlf_def)
  then have "length (http_head ?ls) \<le> length h" using blank_at_le [OF rd(4)] by simp
  then have "take (length (http_head ?ls)) h = as_bytes (http_head ?ls)"
    using arg_cong [OF rd(3), of "take (length (http_head ?ls))"] by (simp add: encode_head_eq)
  then obtain d where h: "h = as_bytes (http_head ?ls) @ d" "d @ b' = b"
    using rd(3) append_take_drop_id [of "length (http_head ?ls)" h]
    by (metis append.assoc encode_head_eq same_append_eq)
  have body: "read_body (case hr_content_length q of None \<Rightarrow> 0 | Some n \<Rightarrow> n) d rest = Inr b"
    using read_body_delivers [OF rd(2), of d] h(2) assms(4) by auto
  have tl: "tl (?ls @ [] # X) = tl ?ls @ [] # X" "hd (?ls @ [] # X) = hd ?ls" for X
    using ne by auto
  have nil': "[] \<notin> set (tl ?ls)" using nil by (metis list.set_sel(2) ne)
  have parts: "split_whitespace (hd ?ls) = [hr_method q, hr_path_and_query q, ''HTTP/1.1'']"
    using assms(1) split_whitespace_token [of "''HTTP/1.1''"]
    by (simp add: request_lines_def wf_request_def split_whitespace_space token_def visible_def)
  show ?thesis
    using rd(1) body
    by (simp add: serve_stream_def h(1) from_utf8_lossy_head [OF hl] head_end_eq [OF hl ne] tl
        header_fold_stop [OF nil'] header_fold_request [OF assms(1,2)] parts nth_or_def Let_def
        cong: option.case_cong)
qed

definition response_lines :: "nat \<Rightarrow> nat \<Rightarrow> string list" where
  "response_lines status n =
     [''HTTP/1.1'' @ CHR '' '' # show_nat status @ '' reason'', ''content-length: '' @ show_nat n, ''connection: close'']"

lemma response_bytes_eq: "response_bytes status body = as_bytes (http_head (response_lines status (length body))) @ body"
  by (simp add: response_bytes_def response_lines_def http_head_def as_bytes_def)

lemma head_lines_response: "list_all head_line (response_lines status n)"
proof -
  have "list_all (\<lambda>c. visible c \<or> c = CHR '' '') (show_nat k)" for k by (simp add: list_all_token)
  then show ?thesis by (auto simp: response_lines_def visible_def intro!: head_line_visible)
qed

text \<open>What arrives of an answer is decoded as if it were the whole answer.\<close>

lemma decode_cut_response:
  assumes "status \<le> 65535" "length body \<le> 18446744073709551615"
  shows "decode_response (as_bytes (http_head (response_lines status (length body))) @ take k body) =
    Inr \<lparr>hp_status = status, hp_body = take k body\<rparr>"
proof -
  let ?ls = "response_lines status (length body)"
  have hl: "list_all head_line ?ls" by (rule head_lines_response)
  have ne: "?ls \<noteq> []" and nil: "[] \<notin> set (tl ?ls)" by (simp_all add: response_lines_def)
  have hdtl: "hd (?ls @ X) = hd ?ls" "tl (?ls @ X) = tl ?ls @ X" for X using ne by simp_all
  have parts: "split_whitespace (hd ?ls) = [''HTTP/1.1'', show_nat status, ''reason'']"
    using split_whitespace_space [of "''HTTP/1.1''" "show_nat status @ '' reason''"]
      split_whitespace_space [OF token_show_nat, of status "''reason''"] split_whitespace_token [of "''reason''"]
    by (simp add: response_lines_def token_def visible_def)
  have "header_fold decode_header (tl ?ls) None = Some (length body)"
    using assms(2)
    by (simp add: response_lines_def decode_header_def str_trim_token str_trim_space token_def visible_def
        eq_ignore_ascii_case_def ascii_lower_def parse_uint_show_nat)
  then show ?thesis
    using assms(1)
    by (simp add: decode_response_def from_utf8_lossy_head [OF hl] head_end_eq [OF hl ne] hdtl parts
        header_fold_stop [OF nil] parse_uint_show_nat min_def)
qed

text \<open>The peer of a connection: it serves the bytes with its router; both directions may be cut anywhere.\<close>

definition quic_peer ::
  "(string \<Rightarrow> string \<Rightarrow> (string \<times> string) list \<Rightarrow> string option) \<Rightarrow>
   ('w \<Rightarrow> QuicRequest \<Rightarrow> 'w \<times> (string + nat \<times> bytes)) \<Rightarrow> (bytes \<Rightarrow> reads) \<Rightarrow> (bytes \<Rightarrow> reads) \<Rightarrow>
   'w \<Rightarrow> bytes \<Rightarrow> bool \<Rightarrow> 'w \<times> (string + reads)" where
  "quic_peer build router up down w b finished =
     (case serve_stream build router (up b) w of
        (w', Inl e) \<Rightarrow> (w', Inr [])
      | (w', Inr out) \<Rightarrow> (w', Inr (down out)))"

definition request_of :: "HttpRequest \<Rightarrow> bytes \<Rightarrow> QuicRequest" where
  "request_of q body = \<lparr>qr_method = hr_method q, qr_uri = hr_path_and_query q,
     qr_headers = serve_headers (case hr_content_length q of None \<Rightarrow> 0 | Some n \<Rightarrow> n) (hr_content_type q),
     qr_peer = ''0.0.0.0:0'', qr_body = body\<rparr>"

lemma quic_peer_serves:
  assumes "wf_request q" "case hr_content_length q of None \<Rightarrow> True | Some n \<Rightarrow> n \<le> usize_max"
    "length b \<le> (case hr_content_length q of None \<Rightarrow> 0 | Some n \<Rightarrow> n)"
    "build (hr_method q) (hr_path_and_query q) (qr_headers (request_of q b)) = None"
    "router w (request_of q b) = (w', Inr (status, answer))" "delivers (up (encode_head q @ b)) (encode_head q @ b)"
  shows "quic_peer build router up down w (encode_head q @ b) fin = (w', Inr (down (response_bytes status answer)))"
  using serve_request_head [OF assms(1,2,6,3), of build router w] assms(4,5)
  by (simp add: quic_peer_def request_of_def)

section \<open>Properties\<close>

text \<open>C32. An exchange over QUIC: however the stream cuts the bytes in either direction, the router of the
  peer sees exactly the method, path, content type and body of the request, and the client gets
  exactly the status and body the router answered.\<close>

theorem quic_exchange:
  assumes "wf_request q" "hr_content_length q = map_option length (hr_body q)" "length (case hr_body q of None \<Rightarrow> [] | Some b \<Rightarrow> b) \<le> usize_max"
    and "\<forall>b. delivers (up b) b" "\<forall>b. delivers (down b) b"
    and "build (hr_method q) (hr_path_and_query q) (qr_headers (request_of q (case hr_body q of None \<Rightarrow> [] | Some b \<Rightarrow> b))) = None"
    and "router w (request_of q (case hr_body q of None \<Rightarrow> [] | Some b \<Rightarrow> b)) = (w', Inr (status, answer))"
    and "status \<le> 65535" "length answer \<le> usize_max"
  shows "send_request (quic_peer build router up down) q w = (w', Inr \<lparr>hp_status = status, hp_body = answer\<rparr>)"
proof -
  let ?b = "case hr_body q of None \<Rightarrow> [] | Some b \<Rightarrow> b"
  have "quic_peer build router up down w (encode_head q @ ?b) True = (w', Inr (down (response_bytes status answer)))"
    using assms by (intro quic_peer_serves) (auto split: option.splits)
  moreover have "collect_reads (down (response_bytes status answer)) = response_bytes status answer"
    using assms(5) by (simp add: delivers_def)
  ultimately show ?thesis
    using decode_cut_response [of status answer "length answer"] assms(8,9)
    by (simp add: send_request_def response_bytes_eq usize_max_def)
qed

definition sample_http_request :: HttpRequest where
  "sample_http_request = \<lparr>hr_method = ''POST'', hr_path_and_query = ''/api/localsend/v2/register'', hr_host = ''peer'',
     hr_content_type = Some ''application/json'', hr_content_length = Some 2, hr_body = Some [0x7B, 0x7D]\<rparr>"

lemma sample_http_request_simps [simp]:
  "hr_method sample_http_request = ''POST''" "hr_path_and_query sample_http_request = ''/api/localsend/v2/register''"
  "hr_host sample_http_request = ''peer''" "hr_content_type sample_http_request = Some ''application/json''"
  "hr_content_length sample_http_request = Some 2" "hr_body sample_http_request = Some [0x7B, 0x7D]"
  by (simp_all add: sample_http_request_def)

definition sample_router :: "nat \<Rightarrow> QuicRequest \<Rightarrow> nat \<times> (string + nat \<times> bytes)" where
  "sample_router w r = (Suc w, Inr (200, qr_body r @ [0x0A]))"

definition byte_reads :: "bytes \<Rightarrow> reads" where
  "byte_reads b = map (\<lambda>x. Inr [x]) b"

lemma delivers_byte_reads: "delivers (byte_reads b) b"
  by (induction b) (auto simp: byte_reads_def delivers_Cons)

lemma wf_sample_http_request: "wf_request sample_http_request"
  using visible_facts [of "''peer''"] by (simp add: wf_request_def token_def visible_def)

theorem quic_exchange_witness:
  "send_request (quic_peer (\<lambda>_ _ _. None) sample_router byte_reads byte_reads) sample_http_request 0 =
    (1, Inr \<lparr>hp_status = 200, hp_body = [0x7B, 0x7D, 0x0A]\<rparr>)"
  by (rule quic_exchange [OF wf_sample_http_request])
    (simp_all add: delivers_byte_reads sample_router_def request_of_def usize_max_def)

text \<open>A stream that ends early is not noticed on either side: the server hands the router the part of
  the body that arrived although the announced length is larger, and the client reports the part of
  the answer that arrived with the status of a complete one.\<close>

theorem cut_streams_accepted:
  assumes "wf_request q" "hr_content_length q = Some n" "n \<le> usize_max" "length part < n"
    and "delivers rs (encode_head q @ part)"
    and "build (hr_method q) (hr_path_and_query q) (qr_headers (request_of q part)) = None"
    and "router w (request_of q part) = (w', Inr (status, answer))"
    and "status \<le> 65535" "length answer \<le> usize_max"
    and "\<forall>b. conn v b True = (v', Inr (arrived @ [Inl err]))"
    and "delivers arrived (as_bytes (http_head (response_lines status (length answer))) @ take k answer)"
  shows "serve_stream build router rs w = (w', Inr (response_bytes status answer)) \<and>
    send_request conn q v = (v', Inr \<lparr>hp_status = status, hp_body = take k answer\<rparr>)"
proof
  show "serve_stream build router rs w = (w', Inr (response_bytes status answer))"
    using serve_request_head [OF assms(1), of rs part build router w] assms
    by (simp add: request_of_def)
  have "collect_reads (arrived @ [Inl err]) = b" if "delivers arrived b" for b
    using that by (induction arrived arbitrary: b) (auto simp: delivers_Cons)
  from this [OF assms(11)] show "send_request conn q v = (v', Inr \<lparr>hp_status = status, hp_body = take k answer\<rparr>)"
    using decode_cut_response [of status answer k] assms(8-10) by (simp add: send_request_def usize_max_def)
qed

theorem cut_streams_accepted_witness:
  "serve_stream (\<lambda>_ _ _. None) sample_router (byte_reads (encode_head sample_http_request @ [0x7B])) 0 =
     (1, Inr (response_bytes 200 [0x7B, 0x0A])) \<and>
   send_request (\<lambda>v _ _. (v, Inr (byte_reads (as_bytes (http_head (response_lines 200 2)) @ [0x7B]) @ [Inl ''reset''])))
     sample_http_request () = ((), Inr \<lparr>hp_status = 200, hp_body = [0x7B]\<rparr>)"
  using cut_streams_accepted [OF wf_sample_http_request, of 2 "[0x7B]" "byte_reads (encode_head sample_http_request @ [0x7B])"
      "\<lambda>_ _ _. None" sample_router 0 1 200 "[0x7B, 0x0A]"
      "\<lambda>v _ _. (v, Inr (byte_reads (as_bytes (http_head (response_lines 200 2)) @ [0x7B]) @ [Inl ''reset'']))" "()" "()"
      "byte_reads (as_bytes (http_head (response_lines 200 2)) @ [0x7B])" "''reset''" 1]
  by (simp add: delivers_byte_reads sample_router_def request_of_def usize_max_def numeral_2_eq_2)



end
