(* ===== verification/Registry.thy ===== *)
theory Registry
  imports Turn_Client Turn_Auth Http_Text
begin

text \<open>
  The rendezvous registry: \<open>src/rust/core/src/relay/discovery_server.rs\<close>, the HTTP requests the TURN
  port answers with it (\<open>handle_http\<close> of \<open>relay/turn_server.rs\<close>), and the second registry of the relay
  panel, \<open>src/rust/relay-panel/src/discovery.rs\<close>.

  \<^item> \<open>unix\<close> is the wall clock in seconds, \<open>at\<close> the monotonic clock in nanoseconds.
  \<^item> JSON is library code: \<open>parse\<close> reads a registration from the text of a body, \<open>render\<close> writes a list
    of entries.
  \<^item> \<open>handle_register\<close> and \<open>handle_list\<close> of this file are \<open>registry_register\<close> and \<open>registry_list\<close>
    here; they return the status and the error text or the list to serialise.
\<close>

section \<open>Entries\<close>

record DeviceRegistration =
  dr_fingerprint :: string
  dr_alias :: string
  dr_device_model :: string
  dr_device_type :: string
  dr_protocol :: string
  dr_port :: u16
  dr_username :: string
  dr_candidates :: "string list"

record DeviceEntry =
  de_fingerprint :: string
  de_alias :: string
  de_device_model :: string
  de_device_type :: string
  de_protocol :: string
  de_address :: string
  de_port :: u16
  de_candidates :: "string list"

type_synonym registry = "(string, DeviceEntry \<times> nat) hashmap"

definition TTL :: nat where
  "TTL = 75 * 1000000000"

text \<open>\<open>map.retain(|_, (_, at)| at.elapsed() < TTL)\<close>\<close>

definition prune :: "nat \<Rightarrow> registry \<Rightarrow> registry" where
  "prune now m = hretain (\<lambda>_ (e, at). now - at < TTL) m"

definition registration_entry :: "DeviceRegistration \<Rightarrow> string \<Rightarrow> DeviceEntry" where
  "registration_entry reg source_ip =
     \<lparr>de_fingerprint = dr_fingerprint reg, de_alias = dr_alias reg, de_device_model = dr_device_model reg,
      de_device_type = dr_device_type reg, de_protocol = dr_protocol reg, de_address = source_ip,
      de_port = dr_port reg, de_candidates = dr_candidates reg\<rparr>"

section \<open>Credentials\<close>

definition user_expiry :: "string \<Rightarrow> u64 option" where
  "user_expiry username = parse_u64 (hd (split_char (CHR '':'') username))"

definition verify :: "Crypto \<Rightarrow> string \<Rightarrow> u64 \<Rightarrow> string \<Rightarrow> string \<Rightarrow> bool" where
  "verify cp secret unix username password =
     (let expected = cr_b64 cp (cr_hmac cp (as_bytes secret) (as_bytes username));
          expired = (case user_expiry username of None \<Rightarrow> False | Some e \<Rightarrow> e \<le> unix)
      in \<not> expired \<and> constant_time_eq (as_bytes expected) (as_bytes password))"

definition bearer_of :: "string option \<Rightarrow> string option" where
  "bearer_of auth = (case auth of None \<Rightarrow> None | Some h \<Rightarrow> strip_prefix h ''Bearer '')"

section \<open>The registry of the TURN port\<close>

definition stale_keys :: "string \<Rightarrow> string \<Rightarrow> registry \<Rightarrow> string list" where
  "stale_keys source_ip fp m =
     map fst (filter (\<lambda>(k, (e, _)). de_address e = source_ip \<and> k \<noteq> fp) m)"

definition insert_entry :: "DeviceEntry \<Rightarrow> nat \<Rightarrow> registry \<Rightarrow> registry" where
  "insert_entry e at m =
     (let m' = fold hdel (stale_keys (de_address e) (de_fingerprint e) m) m
      in hput (de_fingerprint e) (e, at) m')"

definition registry_register ::
  "Crypto \<Rightarrow> (string \<Rightarrow> DeviceRegistration option) \<Rightarrow> string \<Rightarrow> u64 \<Rightarrow> nat \<Rightarrow> string \<Rightarrow> string option \<Rightarrow> string \<Rightarrow>
   registry \<Rightarrow> registry \<times> nat \<times> (string + DeviceEntry list)" where
  "registry_register cp parse secret unix at body auth source_ip m =
     (case parse body of
        None \<Rightarrow> (m, 400, Inl ''{\"error\":\"bad json\"}'')
      | Some reg \<Rightarrow>
          (case bearer_of auth of
             None \<Rightarrow> (m, 401, Inl ''{\"error\":\"missing auth\"}'')
           | Some password \<Rightarrow>
               if \<not> verify cp secret unix (dr_username reg) password
               then (m, 401, Inl ''{\"error\":\"bad credentials\"}'')
               else
                 let m' = insert_entry (registration_entry reg source_ip) at (prune at m)
                 in (m', 200, Inr (map fst (hvals m')))))"

definition registry_list :: "nat \<Rightarrow> registry \<Rightarrow> registry \<times> nat \<times> (string + DeviceEntry list)" where
  "registry_list at m = (let m' = prune at m in (m', 200, Inr (map fst (hvals m'))))"

section \<open>HTTP on the TURN port\<close>

text \<open>The headers are scanned for the authorization only: the content length is read and not used.\<close>

definition auth_header :: "string \<Rightarrow> string \<Rightarrow> string option \<Rightarrow> string option" where
  "auth_header k v a = (if eq_ignore_ascii_case k ''authorization'' then Some v else a)"

definition http_response :: "nat \<Rightarrow> string \<Rightarrow> bytes" where
  "http_response status body =
     as_bytes (''HTTP/1.1 '' @ show_nat status @ '' status'' @ crlf @ ''content-type: application/json'' @ crlf @
       ''content-length: '' @ show_nat (length body) @ crlf @ ''connection: close'' @ crlf @ crlf @ body)"

text \<open>One read of at most 8192 bytes; \<open>Inr None\<close> is a connection closed before any byte.\<close>

definition handle_http ::
  "Crypto \<Rightarrow> (string \<Rightarrow> DeviceRegistration option) \<Rightarrow> (DeviceEntry list \<Rightarrow> string) \<Rightarrow> string \<Rightarrow> u64 \<Rightarrow> nat \<Rightarrow> string \<Rightarrow>
   string + bytes \<Rightarrow> registry \<Rightarrow> registry \<times> (string + bytes option)" where
  "handle_http cp parse render secret unix at source_ip got m =
     (case got of
        Inl e \<Rightarrow> (m, Inl e)
      | Inr buf \<Rightarrow>
          if buf = [] then (m, Inr None)
          else
            let lines = split_crlf (from_utf8_lossy buf);
                parts = split_whitespace (hd lines);
                method = (case parts of [] \<Rightarrow> [] | p # _ \<Rightarrow> p);
                path = (if 1 < length parts then parts ! 1 else []);
                auth = header_fold auth_header (tl lines) None;
                body_text = from_utf8_lossy (drop (head_end buf) buf);
                (m', status, answer) =
                  (if method = ''POST'' \<and> path = ''/api/discovery/register''
                   then registry_register cp parse secret unix at body_text auth source_ip m
                   else if method = ''GET'' \<and> path = ''/api/discovery/devices'' then registry_list at m
                   else (m, 404, Inl ''{\"error\":\"not found\"}''))
            in (m', Inr (Some (http_response status (case answer of Inl e \<Rightarrow> e | Inr es \<Rightarrow> render es)))))"

section \<open>The registry of the panel\<close>

definition panel_insert :: "DeviceRegistration \<Rightarrow> string \<Rightarrow> nat \<Rightarrow> registry \<Rightarrow> registry" where
  "panel_insert reg source_ip at m =
     hput (dr_fingerprint reg) (registration_entry reg source_ip, at) (prune at m)"

definition panel_list :: "nat \<Rightarrow> registry \<Rightarrow> registry \<times> DeviceEntry list" where
  "panel_list at m = (let m' = prune at m in (m', map fst (hvals m')))"

definition panel_verify :: "Crypto \<Rightarrow> string \<Rightarrow> u64 \<Rightarrow> string \<Rightarrow> string \<Rightarrow> bool" where
  "panel_verify cp secret unix username password =
     (let expected = cr_b64 cp (cr_hmac cp (as_bytes secret) (as_bytes username))
      in (case user_expiry username of None \<Rightarrow> True | Some e \<Rightarrow> e > unix) \<and>
         constant_time_eq (as_bytes expected) (as_bytes password))"

definition check_auth :: "Crypto \<Rightarrow> string \<Rightarrow> u64 \<Rightarrow> string \<Rightarrow> string option \<Rightarrow> bool" where
  "check_auth cp secret unix username auth =
     (case bearer_of auth of None \<Rightarrow> False | Some bearer \<Rightarrow> panel_verify cp secret unix username bearer)"

definition register_device ::
  "Crypto \<Rightarrow> string \<Rightarrow> u64 \<Rightarrow> nat \<Rightarrow> string \<Rightarrow> string option \<Rightarrow> DeviceRegistration \<Rightarrow> registry \<Rightarrow>
   registry \<times> (nat \<times> string + DeviceEntry list)" where
  "register_device cp secret unix at source_ip auth reg m =
     (if \<not> check_auth cp secret unix (dr_username reg) auth then (m, Inl (401, ''bad credentials''))
      else let (m', es) = panel_list at (panel_insert reg source_ip at m) in (m', Inr es))"

definition verify_any :: "string \<Rightarrow> bool" where
  "verify_any password = True"

definition list_devices :: "nat \<Rightarrow> string option \<Rightarrow> registry \<Rightarrow> registry \<times> (nat \<times> string + DeviceEntry list)" where
  "list_devices at auth m =
     (case bearer_of auth of
        None \<Rightarrow> (m, Inl (401, ''missing bearer''))
      | Some bearer \<Rightarrow>
          if \<not> verify_any bearer then (m, Inl (401, ''bad credentials''))
          else let (m', es) = panel_list at m in (m', Inr es))"

end
