(* ===== verification/Sample_Text.thy ===== *)
theory Sample_Text
  imports Std_Str
begin

text \<open>
  A text format of length-prefixed strings.  The witnesses use it in the places where the program calls
  a JSON library, which is a parameter of the model.
\<close>

definition enc_str :: "string \<Rightarrow> string" where
  "enc_str s = show_nat (length s) @ CHR '':'' # s"

definition dec_str :: "string \<Rightarrow> (string \<times> string) option" where
  "dec_str t =
     (case split_once (CHR '':'') t of
        None \<Rightarrow> None
      | Some (n, r) \<Rightarrow> (case parse_uint (length t) n of None \<Rightarrow> None | Some k \<Rightarrow> Some (take k r, drop k r)))"

primrec dec_strs :: "nat \<Rightarrow> string \<Rightarrow> string list option" where
  "dec_strs 0 t = (if t = [] then Some [] else None)"
| "dec_strs (Suc n) t =
     (if t = [] then Some []
      else case dec_str t of None \<Rightarrow> None | Some (s, r) \<Rightarrow> map_option ((#) s) (dec_strs n r))"

lemma dec_str_enc: "dec_str (enc_str s @ t) = Some (s, t)"
proof -
  have "CHR '':'' \<notin> set (show_nat (length s))"
    using show_nat_digits [of "length s"] is_digit_colon by (auto simp: list_all_iff)
  then show ?thesis by (simp add: dec_str_def enc_str_def split_once_append parse_uint_show_nat)
qed

lemma dec_strs_enc: "length ss \<le> n \<Longrightarrow> dec_strs n (concat (map enc_str ss)) = Some ss"
proof (induction ss arbitrary: n)
  case Nil
  then show ?case by (cases n) simp_all
next
  case (Cons s ss)
  then show ?case by (cases n) (auto simp: dec_str_enc, simp add: enc_str_def)
qed

lemma length_enc: "length ss \<le> length (concat (map enc_str ss))"
  by (induction ss) (auto simp: enc_str_def)

end
