(* ===== verification/Registry_Props.thy ===== *)
theory Registry_Props
  imports Registry Sample_Text
begin

text \<open>
  Properties of the rendezvous registry.  The locale \<open>entry_store\<close> states what a registry promises its
  clients about inserting an entry; both registries of the program interpret it, the one of the TURN
  port (\<open>turn_reg\<close>) and the one of the panel (\<open>panel_reg\<close>).  Requests in any order are folded over the
  registry by \<open>run_registry\<close>.
\<close>

section \<open>Stores of entries\<close>

lemma hwf_prune [simp]: "hwf m \<Longrightarrow> hwf (prune now m)"
  by (simp add: prune_def)

lemma hget_prune: "hwf m \<Longrightarrow> hget (prune now m) k =
    (case hget m k of None \<Rightarrow> None | Some (e, at) \<Rightarrow> if now - at < TTL then Some (e, at) else None)"
  by (auto simp: prune_def hget_hretain split: option.splits)

lemma hget_pruneD: "hwf m \<Longrightarrow> hget (prune now m) k = Some v \<Longrightarrow> hget m k = Some v"
  by (auto simp: hget_prune split: option.splits if_splits)

datatype RegOp = RegPut DeviceEntry nat | RegPrune nat

primrec op_at :: "RegOp \<Rightarrow> nat" where
  "op_at (RegPut e at) = at"
| "op_at (RegPrune at) = at"

primrec reg_apply :: "(DeviceEntry \<Rightarrow> nat \<Rightarrow> registry \<Rightarrow> registry) \<Rightarrow> RegOp \<Rightarrow> registry \<Rightarrow> registry" where
  "reg_apply put (RegPut e at) m = put e at (prune at m)"
| "reg_apply put (RegPrune at) m = prune at m"

fun other_device :: "DeviceEntry \<Rightarrow> RegOp \<Rightarrow> bool" where
  "other_device e (RegPut e' at) = (de_fingerprint e' \<noteq> de_fingerprint e \<and> de_address e' \<noteq> de_address e)"
| "other_device e (RegPrune at) = True"

locale entry_store =
  fixes put :: "DeviceEntry \<Rightarrow> nat \<Rightarrow> registry \<Rightarrow> registry"
  assumes put_wf: "hwf m \<Longrightarrow> hwf (put e at m)"
    and put_same: "hwf m \<Longrightarrow> hget (put e at m) (de_fingerprint e) = Some (e, at)"
    and put_other: "hwf m \<Longrightarrow> hget m k = Some (e', t) \<Longrightarrow> k \<noteq> de_fingerprint e \<Longrightarrow>
      de_address e' \<noteq> de_address e \<Longrightarrow> hget (put e at m) k = Some (e', t)"
    and put_back: "hwf m \<Longrightarrow> hget (put e at m) k = Some v \<Longrightarrow> k \<noteq> de_fingerprint e \<Longrightarrow> hget m k = Some v"
begin

lemma apply_wf: "hwf m \<Longrightarrow> hwf (reg_apply put r m)"
  by (cases r) (simp_all add: put_wf)

lemma kept_step:
  assumes "hwf m" "hget m (de_fingerprint e) = Some (e, t)" "other_device e r" "op_at r - t < TTL"
  shows "hget (reg_apply put r m) (de_fingerprint e) = Some (e, t)"
proof (cases r)
  case (RegPut e' at)
  then show ?thesis using assms by (auto simp: hget_prune intro!: put_other)
next
  case (RegPrune at)
  then show ?thesis using assms by (simp add: hget_prune)
qed

lemma kept:
  assumes "hwf m" "hget m (de_fingerprint e) = Some (e, t)" "\<forall>r \<in> set ops. other_device e r \<and> op_at r - t < TTL"
  shows "hget (fold (reg_apply put) ops m) (de_fingerprint e) = Some (e, t)"
  using assms by (induction ops arbitrary: m) (simp_all add: apply_wf kept_step)

lemma not_renewed:
  assumes "hwf m" "hget m (de_fingerprint e) \<in> {None, Some (e, t)}" "\<forall>r \<in> set ops. other_device e r"
  shows "hget (fold (reg_apply put) ops m) (de_fingerprint e) \<in> {None, Some (e, t)}"
  using assms
proof (induction ops arbitrary: m)
  case (Cons r ops)
  have "hget (reg_apply put r m) (de_fingerprint e) \<in> {None, Some (e, t)}"
  proof (cases r)
    case (RegPut e' at)
    then show ?thesis
      using Cons.prems put_back [of "prune at m" e' at "de_fingerprint e"] hget_prune [OF Cons.prems(1), of at "de_fingerprint e"]
      by (cases "hget (put e' at (prune at m)) (de_fingerprint e)") (auto split: if_splits)
  next
    case (RegPrune at)
    then show ?thesis using Cons.prems by (auto simp: hget_prune)
  qed
  then show ?case using Cons by (simp add: apply_wf)
qed simp

lemma run_wf: "hwf m \<Longrightarrow> hwf (fold (reg_apply put) ops m)"
  by (induction ops arbitrary: m) (simp_all add: apply_wf)

text \<open>An inserted entry is found until it has been silent for the TTL, and no longer.\<close>

lemma found_until_silent:
  assumes "hwf m" "\<forall>r \<in> set ops. other_device e r \<and> op_at r \<le> now"
  shows "hget (prune now (fold (reg_apply put) ops (put e t m))) (de_fingerprint e) =
    (if now - t < TTL then Some (e, t) else None)"
proof -
  have wf: "hwf (put e t m)" using assms(1) by (rule put_wf)
  note same = put_same [OF assms(1), of e t]
  show ?thesis
  proof (cases "now - t < TTL")
    case True
    then have "\<forall>r \<in> set ops. other_device e r \<and> op_at r - t < TTL" using assms(2) by fastforce
    from kept [OF wf same this] True show ?thesis by (simp add: hget_prune run_wf wf)
  next
    case False
    then show ?thesis
      using not_renewed [OF wf, of e t ops] same assms(2) by (auto simp: hget_prune run_wf wf)
  qed
qed

end

lemma fold_hdel: "hget (fold hdel ks m) k = (if k \<in> set ks then None else hget m k)"
  by (induction ks arbitrary: m) auto

lemma hwf_fold_hdel: "hwf m \<Longrightarrow> hwf (fold hdel ks m)"
  by (induction ks arbitrary: m) auto

lemma stale_keys_iff:
  "hwf m \<Longrightarrow> k \<in> set (stale_keys ip fp m) \<longleftrightarrow> (\<exists>e t. hget m k = Some (e, t) \<and> de_address e = ip \<and> k \<noteq> fp)"
  by (force simp: stale_keys_def hget_eq_Some_iff)

lemma hget_insert_entry:
  "hwf m \<Longrightarrow> hget (insert_entry e at m) k =
    (if k = de_fingerprint e then Some (e, at)
     else case hget m k of None \<Rightarrow> None | Some (e', t) \<Rightarrow> if de_address e' = de_address e then None else Some (e', t))"
  by (auto simp: insert_entry_def Let_def fold_hdel stale_keys_iff split: option.splits)

lemma hwf_insert_entry: "hwf m \<Longrightarrow> hwf (insert_entry e at m)"
  by (simp add: insert_entry_def Let_def hwf_fold_hdel)

interpretation turn_reg: entry_store insert_entry
  by unfold_locales (auto simp: hwf_insert_entry hget_insert_entry split: option.splits if_splits)

definition panel_put :: "DeviceEntry \<Rightarrow> nat \<Rightarrow> registry \<Rightarrow> registry" where
  "panel_put e at m = hput (de_fingerprint e) (e, at) m"

interpretation panel_reg: entry_store panel_put
  by unfold_locales (auto simp: panel_put_def)

lemma panel_insert_eq:
  "panel_insert reg ip at m = reg_apply panel_put (RegPut (registration_entry reg ip) at) m"
  by (simp add: panel_insert_def panel_put_def registration_entry_def)

section \<open>Runs of requests\<close>

datatype RegRequest = RegisterReq u64 nat string "string option" string | ListReq nat

fun registry_step ::
  "Crypto \<Rightarrow> (string \<Rightarrow> DeviceRegistration option) \<Rightarrow> string \<Rightarrow> RegRequest \<Rightarrow> registry \<Rightarrow>
   registry \<times> nat \<times> (string + DeviceEntry list)" where
  "registry_step cp parse secret (RegisterReq unix at body auth ip) m =
     registry_register cp parse secret unix at body auth ip m"
| "registry_step cp parse secret (ListReq at) m = registry_list at m"

definition run_registry ::
  "Crypto \<Rightarrow> (string \<Rightarrow> DeviceRegistration option) \<Rightarrow> string \<Rightarrow> RegRequest list \<Rightarrow> registry \<Rightarrow> registry" where
  "run_registry cp parse secret rs m = fold (\<lambda>r m. fst (registry_step cp parse secret r m)) rs m"

fun request_op :: "Crypto \<Rightarrow> (string \<Rightarrow> DeviceRegistration option) \<Rightarrow> string \<Rightarrow> RegRequest \<Rightarrow> RegOp option" where
  "request_op cp parse secret (RegisterReq unix at body auth ip) =
     (case (parse body, bearer_of auth) of
        (Some reg, Some pw) \<Rightarrow>
          if verify cp secret unix (dr_username reg) pw then Some (RegPut (registration_entry reg ip) at) else None
      | _ \<Rightarrow> None)"
| "request_op cp parse secret (ListReq at) = Some (RegPrune at)"

lemma step_op: "fst (registry_step cp parse secret r m) =
    (case request_op cp parse secret r of None \<Rightarrow> m | Some p \<Rightarrow> reg_apply insert_entry p m)"
  by (cases r) (auto simp: registry_register_def registry_list_def Let_def split: option.splits)

lemma run_ops: "run_registry cp parse secret rs m =
    fold (reg_apply insert_entry) (List.map_filter (request_op cp parse secret) rs) m"
  by (induction rs arbitrary: m)
    (auto simp: run_registry_def step_op List.map_filter_simps split: option.splits)

lemma set_map_filter_iff: "y \<in> set (List.map_filter f xs) \<longleftrightarrow> (\<exists>x \<in> set xs. f x = Some y)"
  by (force simp: List.map_filter_def)

text \<open>A request by another device, from another address, up to a point in time.\<close>

fun unrelated :: "(string \<Rightarrow> DeviceRegistration option) \<Rightarrow> string \<Rightarrow> string \<Rightarrow> nat \<Rightarrow> RegRequest \<Rightarrow> bool" where
  "unrelated parse fp ip now (RegisterReq unix at body auth ip') =
     (at \<le> now \<and> ip' \<noteq> ip \<and> (case parse body of None \<Rightarrow> True | Some reg \<Rightarrow> dr_fingerprint reg \<noteq> fp))"
| "unrelated parse fp ip now (ListReq at) = (at \<le> now)"

lemma unrelated_ops:
  assumes "list_all (unrelated parse (de_fingerprint e) ip now) rs" "de_address e = ip"
  shows "\<forall>p \<in> set (List.map_filter (request_op cp parse secret) rs). other_device e p \<and> op_at p \<le> now"
proof
  fix p assume "p \<in> set (List.map_filter (request_op cp parse secret) rs)"
  then obtain r where "r \<in> set rs" "request_op cp parse secret r = Some p" by (auto simp: set_map_filter_iff)
  then show "other_device e p \<and> op_at p \<le> now"
    using assms by - (cases r, auto simp: registration_entry_def list_all_iff split: option.splits if_splits)
qed

text \<open>The invariant: keys are the fingerprints of their entries, and addresses are not shared.\<close>

definition registry_ok :: "registry \<Rightarrow> bool" where
  "registry_ok m \<longleftrightarrow> hwf m \<and> (\<forall>k e t. hget m k = Some (e, t) \<longrightarrow> de_fingerprint e = k) \<and>
     (\<forall>k k' e e' t t'. hget m k = Some (e, t) \<longrightarrow> hget m k' = Some (e', t') \<longrightarrow> de_address e = de_address e' \<longrightarrow> k = k')"

lemma registry_ok_prune: "registry_ok m \<Longrightarrow> registry_ok (prune at m)"
  unfolding registry_ok_def using hget_pruneD [of m at] hwf_prune [of m at] by metis

lemma registry_ok_insert: "registry_ok m \<Longrightarrow> registry_ok (insert_entry e at m)"
  unfolding registry_ok_def
  by (auto simp: hwf_insert_entry hget_insert_entry split: option.splits if_splits)

lemma registry_ok_apply: "registry_ok m \<Longrightarrow> registry_ok (reg_apply insert_entry r m)"
  by (cases r) (simp_all add: registry_ok_prune registry_ok_insert)

lemma registry_ok_run: "registry_ok (run_registry cp parse secret rs [])"
proof -
  have "registry_ok m \<Longrightarrow> registry_ok (fold (reg_apply insert_entry) ops m)" for ops m
    by (induction ops arbitrary: m) (simp_all add: registry_ok_apply)
  moreover have "registry_ok []" by (simp add: registry_ok_def)
  ultimately show ?thesis by (simp add: run_ops)
qed

text \<open>What a request that lists shows.\<close>

definition listed :: "nat \<Rightarrow> registry \<Rightarrow> DeviceEntry list" where
  "listed at m = (case registry_list at m of (_, _, Inr es) \<Rightarrow> es | _ \<Rightarrow> [])"

lemma listed_iff: "hwf m \<Longrightarrow> e \<in> set (listed at m) \<longleftrightarrow> (\<exists>k t. hget (prune at m) k = Some (e, t))"
  by (force simp: listed_def registry_list_def Let_def hget_eq_Some_iff)

lemma listed_fingerprint_iff:
  assumes "registry_ok m"
  shows "fp \<in> de_fingerprint ` set (listed at m) \<longleftrightarrow> hget (prune at m) fp \<noteq> None"
proof -
  have wf: "hwf m" using assms by (simp add: registry_ok_def)
  have key: "de_fingerprint e = k" if "hget (prune at m) k = Some (e, t)" for k e t
    using registry_ok_prune [OF assms, of at] that unfolding registry_ok_def by blast
  show ?thesis
  proof
    assume "fp \<in> de_fingerprint ` set (listed at m)"
    then obtain k e t where "hget (prune at m) k = Some (e, t)" "fp = de_fingerprint e" by (auto simp: listed_iff [OF wf])
    then show "hget (prune at m) fp \<noteq> None" using key by auto
  next
    assume "hget (prune at m) fp \<noteq> None"
    then obtain e t where e: "hget (prune at m) fp = Some (e, t)" by auto
    then have "e \<in> set (listed at m)" by (auto simp: listed_iff [OF wf])
    then show "fp \<in> de_fingerprint ` set (listed at m)" using key [OF e] by blast
  qed
qed

text \<open>Credentials.\<close>

lemma user_expiry_minted: "user_expiry (fst (generate_credentials hmac b64 secret expiry suffix)) = Some expiry"
proof -
  have digits: "CHR '':'' \<notin> set (show_nat n)" for n
    using show_nat_digits [of n] is_digit_colon by (auto simp: list_all_iff)
  have "unat expiry \<le> 18446744073709551615"
    using unsigned_less [of expiry, where ?'a = nat] by simp
  then have "parse_u64 (show_nat (unat expiry)) = Some expiry"
    by (simp add: parse_u64_def parse_uint_show_nat)
  then show ?thesis
    using split_char_first [OF digits] by (simp add: generate_credentials_def user_expiry_def Let_def)
qed

lemma verify_iff: "verify cp secret unix u p = (p = rest_password cp secret u \<and>
    (case user_expiry u of None \<Rightarrow> True | Some x \<Rightarrow> unix < x))"
  by (auto simp: verify_def rest_password_def Let_def not_le split: option.split)

lemma panel_verify_eq: "panel_verify cp secret unix u p = verify cp secret unix u p"
  by (auto simp: panel_verify_def verify_def Let_def not_le split: option.split)

lemma snd_minted: "generate_credentials (cr_hmac cp) (cr_b64 cp) secret expiry suffix = (u, p) \<Longrightarrow> p = rest_password cp secret u"
  by (auto simp: generate_credentials_def rest_password_def Let_def)

lemma minted_verified:
  assumes "generate_credentials (cr_hmac cp) (cr_b64 cp) secret expiry suffix = (u, p)" "unix < expiry"
  shows "verify cp secret unix u p"
  using user_expiry_minted [of "cr_hmac cp" "cr_b64 cp" secret expiry suffix] assms by (simp add: verify_iff snd_minted)

lemma str_trim_visible:
  assumes "s \<noteq> []" "visible (hd s)" "visible (last s)"
  shows "str_trim s = s"
proof -
  obtain c r c' r' where s: "s = c # r" "rev s = c' # r'"
    using assms(1) by (cases s; cases "rev s") auto
  have "c' = last s" using s(2) by (metis hd_rev list.sel(1))
  then have "visible c" "visible c'" using assms(2,3) s(1) by simp_all
  then show ?thesis using s by (metis seq_at_visible str_trim_id)
qed

section \<open>Properties\<close>

text \<open>In any run of the registry, from the start: a registered device is listed until it has been
  silent for 75 seconds and from then on it is not, as long as no other request registers its
  fingerprint or comes from its address.\<close>

theorem listed_until_silent:
  assumes "m = run_registry cp parse secret rs0 []"
    and "registry_step cp parse secret (RegisterReq unix at body auth ip) m = (m', 200, res)" "parse body = Some reg"
    and "list_all (unrelated parse (dr_fingerprint reg) ip now) rs"
  shows "dr_fingerprint reg \<in> de_fingerprint ` set (listed now (run_registry cp parse secret rs m')) \<longleftrightarrow> now - at < TTL"
proof -
  let ?e = "registration_entry reg ip"
  have wf: "hwf (prune at m)" using registry_ok_run assms(1) by (simp add: registry_ok_def)
  have m': "m' = insert_entry ?e at (prune at m)"
    using assms(2,3) by (auto simp: registry_register_def Let_def split: option.splits if_splits)
  let ?ops = "List.map_filter (request_op cp parse secret) rs"
  have ops: "\<forall>p \<in> set ?ops. other_device ?e p \<and> op_at p \<le> now"
    using unrelated_ops [of parse ?e ip now rs] assms(4) by (simp add: registration_entry_def)
  have run: "run_registry cp parse secret rs m' = run_registry cp parse secret (rs0 @ RegisterReq unix at body auth ip # rs) []"
    using assms(1,2) by (simp add: run_registry_def)
  then have ok: "registry_ok (run_registry cp parse secret rs m')" by (simp add: registry_ok_run)
  have "hget (prune now (run_registry cp parse secret rs m')) (dr_fingerprint reg) =
      (if now - at < TTL then Some (?e, at) else None)"
    using turn_reg.found_until_silent [OF wf ops, of at] by (simp add: run_ops m' registration_entry_def)
  then show ?thesis by (simp add: listed_fingerprint_iff [OF ok])
qed

text \<open>C34. Every entry the registry lists was written by a registration with a valid credential, from the
  address the entry shows, and no two entries share an address.\<close>

theorem listed_entries_authentic:
  fixes cp parse secret rs
  defines "m \<equiv> run_registry cp parse secret rs []"
  assumes "e \<in> set (listed now m)" "e' \<in> set (listed now m)"
  shows "(de_address e = de_address e' \<longrightarrow> e = e') \<and>
    (\<exists>unix at body auth ip reg pw. RegisterReq unix at body auth ip \<in> set rs \<and> parse body = Some reg \<and>
       auth = Some (''Bearer '' @ pw) \<and> pw = rest_password cp secret (dr_username reg) \<and>
       (\<forall>x. user_expiry (dr_username reg) = Some x \<longrightarrow> unix < x) \<and> e = registration_entry reg ip)"
proof -
  let ?ops = "List.map_filter (request_op cp parse secret) rs"
  have ok: "registry_ok m" unfolding m_def by (rule registry_ok_run)
  then have wf: "hwf m" by (simp add: registry_ok_def)
  obtain k t k' t' where k: "hget m k = Some (e, t)" "hget m k' = Some (e', t')"
    using assms(2,3) hget_pruneD [OF wf] unfolding listed_iff [OF wf] by blast
  have src: "\<exists>at. RegPut e at \<in> set ops" if "hget (fold (reg_apply insert_entry) ops []) k = Some (e, t)" for ops k e t
    using that
  proof (induction ops arbitrary: k e t rule: rev_induct)
    case (snoc p ops)
    let ?m = "fold (reg_apply insert_entry) ops []"
    have "hwf ?m" by (rule turn_reg.run_wf) simp
    then show ?case
      using snoc by (cases p) (fastforce simp: hget_insert_entry hget_prune split: if_splits option.splits)+
  qed simp
  from src [of ?ops k e t] obtain at where "RegPut e at \<in> set ?ops" using k(1) by (auto simp: m_def run_ops)
  then obtain r where r: "r \<in> set rs" "request_op cp parse secret r = Some (RegPut e at)" by (auto simp: set_map_filter_iff)
  have bearer: "auth = Some (''Bearer '' @ pw)" if "bearer_of auth = Some pw" for auth pw
    using that by (cases auth) (auto simp: bearer_of_def dest: strip_prefix_Some)
  have "de_address e = de_address e' \<longrightarrow> e = e'"
  proof
    assume "de_address e = de_address e'"
    then have "k = k'" using ok k unfolding registry_ok_def by blast
    then show "e = e'" using k by simp
  qed
  moreover obtain unix body auth ip reg pw where put: "r = RegisterReq unix at body auth ip" "parse body = Some reg"
      "bearer_of auth = Some pw" "verify cp secret unix (dr_username reg) pw" "e = registration_entry reg ip"
    using r(2) by (cases r) (auto split: option.splits if_splits)
  moreover have "pw = rest_password cp secret (dr_username reg)" "\<forall>x. user_expiry (dr_username reg) = Some x \<longrightarrow> unix < x"
    using put(4) by (auto simp: verify_iff)
  ultimately show ?thesis using r(1) bearer by blast
qed


text \<open>The panel and the TURN port decide alike about a credential: it is accepted when the password is
  the keyed hash of the user name and the expiry in the user name, if there is one, lies ahead.  So
  what a client mints is accepted up to its expiry.\<close>

theorem credentials_agree:
  "panel_verify cp secret unix username password = verify cp secret unix username password \<and>
   verify cp secret unix username password =
     (password = rest_password cp secret username \<and> (case user_expiry username of None \<Rightarrow> True | Some x \<Rightarrow> unix < x)) \<and>
   (case generate_credentials (cr_hmac cp) (cr_b64 cp) secret expiry suffix of
      (u, p) \<Rightarrow> verify cp secret unix u p = (unix < expiry))"
  using user_expiry_minted [of "cr_hmac cp" "cr_b64 cp" secret expiry suffix] panel_verify_eq [of cp secret unix username password]
  by (auto simp: verify_iff snd_minted split: prod.split)

text \<open>A registration request that arrives in one piece is handed to the registry with its body and
  its bearer token, whatever the other headers are; one whose body arrives in a later piece than its
  head is refused as bad JSON, although it is complete.\<close>

theorem http_registration:
  assumes "list_all head_line hs" "\<forall>a. header_fold auth_header hs a = a" "token pw"
    and "valid_utf8 (as_bytes body)" "parse [] = None"
  defines "hd_text \<equiv> http_head ([''POST /api/discovery/register HTTP/1.1'', ''authorization: Bearer '' @ pw] @ hs)"
  shows "handle_http cp parse render secret unix at ip (Inr (as_bytes (hd_text @ body))) m =
      (let (m', status, ans) = registry_register cp parse secret unix at body (Some (''Bearer '' @ pw)) ip m
       in (m', Inr (Some (http_response status (case ans of Inl e \<Rightarrow> e | Inr es \<Rightarrow> render es))))) \<and>
    handle_http cp parse render secret unix at ip (Inr (as_bytes hd_text)) m =
      (m, Inr (Some (http_response 400 ''{\"error\":\"bad json\"}'')))"
proof -
  define ls where "ls = [''POST /api/discovery/register HTTP/1.1'', ''authorization: Bearer '' @ pw] @ hs"
  let ?auth = "Some (''Bearer '' @ pw)"
  have vis: "list_all (\<lambda>c. visible c \<or> c = CHR '' '') pw" "list_all visible pw" "pw \<noteq> []"
    using assms(3) by (auto simp: token_def list_all_iff)
  have hl: "list_all head_line ls"
    using assms(1) vis(1) by (auto simp: ls_def visible_def intro!: head_line_visible)
  have ne: "ls \<noteq> []" by (simp add: ls_def)
  have trim: "str_trim (''Bearer '' @ pw) = ''Bearer '' @ pw"
    using vis by (intro str_trim_visible) (auto simp: visible_def list_all_iff)
  have key: "str_trim ''authorization'' = ''authorization''"
    by (intro str_trim_visible) (simp_all add: visible_def)
  have auth: "header_fold auth_header (tl (ls @ [] # rest)) None = ?auth" for rest
  proof -
    have "[] \<notin> set (tl ls)" using hl by (auto simp: ls_def list_all_iff head_line_def)
    then have "header_fold auth_header (tl (ls @ [] # rest)) None = header_fold auth_header (tl ls) None"
      using ne by (simp add: header_fold_stop)
    then show ?thesis
      using assms(2) trim key by (simp add: ls_def str_trim_space auth_header_def eq_ignore_ascii_case_def)
  qed
  have parts: "split_whitespace ''POST /api/discovery/register HTTP/1.1'' = [''POST'', ''/api/discovery/register'', ''HTTP/1.1'']"
    using split_whitespace_space [of "''POST''" "''/api/discovery/register HTTP/1.1''"]
      split_whitespace_space [of "''/api/discovery/register''" "''HTTP/1.1''"] split_whitespace_token [of "''HTTP/1.1''"]
    by (simp add: token_def visible_def)
  have first: "hd (ls @ X) = ''POST /api/discovery/register HTTP/1.1''" for X by (simp add: ls_def)
  have nonempty: "as_bytes (http_head ls) \<noteq> []" by (simp add: ls_def http_head_def as_bytes_def)
  have gen: "handle_http cp parse render secret unix at ip (Inr (as_bytes (http_head ls) @ b)) m =
      (let (m', status, ans) = registry_register cp parse secret unix at (from_utf8_lossy b) ?auth ip m
       in (m', Inr (Some (http_response status (case ans of Inl e \<Rightarrow> e | Inr es \<Rightarrow> render es)))))" for b
    using nonempty
    by (simp add: handle_http_def from_utf8_lossy_head [OF hl] head_end_eq [OF hl ne] first parts auth Let_def)
  have "from_utf8_lossy [] = []" by (simp add: from_utf8_lossy_def str_of_bytes_def)
  then show ?thesis
    using gen [of "as_bytes body"] gen [of "[]"] assms(4,5)
    by (simp add: hd_text_def ls_def from_utf8_lossy_as_bytes registry_register_def Let_def)
qed

section \<open>Witnesses\<close>

definition sample_text :: "DeviceRegistration \<Rightarrow> string" where
  "sample_text reg = concat (map enc_str
     ([dr_fingerprint reg, dr_alias reg, dr_device_model reg, dr_device_type reg, dr_protocol reg,
       show_nat (unat (dr_port reg)), dr_username reg] @ dr_candidates reg))"

definition sample_parse :: "string \<Rightarrow> DeviceRegistration option" where
  "sample_parse t =
     (case dec_strs (length t) t of
        Some (fp # alias # model # ty # proto # port # user # cs) \<Rightarrow>
          map_option (\<lambda>p. \<lparr>dr_fingerprint = fp, dr_alias = alias, dr_device_model = model, dr_device_type = ty,
            dr_protocol = proto, dr_port = p, dr_username = user, dr_candidates = cs\<rparr>) (parse_u16 port)
      | _ \<Rightarrow> None)"

lemma sample_parse_text [simp]: "sample_parse (sample_text reg) = Some reg"
  unfolding sample_parse_def sample_text_def dec_strs_enc [OF length_enc] by simp

definition sample_registration :: "string \<Rightarrow> DeviceRegistration" where
  "sample_registration fp = \<lparr>dr_fingerprint = fp, dr_alias = fp, dr_device_model = [], dr_device_type = [],
     dr_protocol = ''https'', dr_port = 53317, dr_username = ''9:x'', dr_candidates = []\<rparr>"

definition sample_register :: "nat \<Rightarrow> string \<Rightarrow> string \<Rightarrow> RegRequest" where
  "sample_register at ip fp = RegisterReq 5 at (sample_text (sample_registration fp))
     (Some (''Bearer '' @ rest_password sample_crypto ''k'' ''9:x'')) ip"

lemma sample_register_step [simp]: "registry_step sample_crypto sample_parse ''k'' (sample_register at ip fp) m =
    (let m' = insert_entry (registration_entry (sample_registration fp) ip) at (prune at m) in (m', 200, Inr (map fst (hvals m'))))"
proof -
  have "digit_char 9 = CHR ''9''" by code_simp
  then have "fst (generate_credentials (\<lambda>_ _. []) (\<lambda>_. []) [] 9 ''x'') = ''9:x''"
    by (simp add: generate_credentials_def show_nat.simps)
  then have "user_expiry ''9:x'' = Some 9" by (metis user_expiry_minted)
  then have "verify sample_crypto ''k'' 5 ''9:x'' (rest_password sample_crypto ''k'' ''9:x'')" by (simp add: verify_iff)
  moreover have "dr_username (sample_registration fp) = ''9:x''" by (simp add: sample_registration_def)
  moreover have "bearer_of (Some (''Bearer '' @ p)) = Some p" for p
    unfolding bearer_of_def option.case strip_prefix_append ..
  ultimately show ?thesis
    unfolding sample_register_def registry_step.simps registry_register_def by simp
qed

theorem listed_until_silent_witness:
  "''f1'' \<in> de_fingerprint ` set (listed 60 (run_registry sample_crypto sample_parse ''k'' [sample_register 50 ''2.2.2.2'' ''f2'']
     (fst (registry_step sample_crypto sample_parse ''k'' (sample_register 0 ''1.1.1.1'' ''f1'') []))))"
proof -
  let ?r = "sample_register 0 ''1.1.1.1'' ''f1''"
  obtain m' res where step: "registry_step sample_crypto sample_parse ''k'' ?r [] = (m', 200, res)" by (simp add: Let_def)
  have start: "[] = run_registry sample_crypto sample_parse ''k'' [] []" by (simp add: run_registry_def)
  have others: "list_all (unrelated sample_parse (dr_fingerprint (sample_registration ''f1'')) ''1.1.1.1'' 60)
      [sample_register 50 ''2.2.2.2'' ''f2'']"
    unfolding sample_register_def by (simp add: sample_registration_def)
  have fp: "dr_fingerprint (sample_registration ''f1'') = ''f1''" by (simp add: sample_registration_def)
  have live: "60 - 0 < TTL" by (simp add: TTL_def)
  show ?thesis
    using listed_until_silent [OF start step [unfolded sample_register_def] sample_parse_text others] live
    unfolding fp step fst_conv by blast
qed

theorem listed_entries_authentic_witness:
  "(\<exists>unix at body auth ip reg pw. RegisterReq unix at body auth ip \<in> set [sample_register 0 ''1.1.1.1'' ''f1''] \<and>
      sample_parse body = Some reg \<and> auth = Some (''Bearer '' @ pw) \<and>
      pw = rest_password sample_crypto ''k'' (dr_username reg))"
proof -
  let ?e = "registration_entry (sample_registration ''f1'') ''1.1.1.1''"
  have "?e \<in> set (listed 0 (run_registry sample_crypto sample_parse ''k'' [sample_register 0 ''1.1.1.1'' ''f1''] []))"
    by (simp add: run_registry_def Let_def listed_def registry_list_def prune_def hretain_def insert_entry_def
        stale_keys_def TTL_def)
  from listed_entries_authentic [OF this this] show ?thesis by blast
qed

theorem http_registration_witness:
  "handle_http sample_crypto sample_parse (\<lambda>es. ''x'') ''k'' 5 0 ''1.1.1.1''
     (Inr (as_bytes (http_head [''POST /api/discovery/register HTTP/1.1'', ''authorization: Bearer pw'', ''host: relay'']))) [] =
   ([], Inr (Some (http_response 400 ''{\"error\":\"bad json\"}'')))"
proof -
  have "list_all head_line [''host: relay'']" "token ''pw''"
    by (auto simp: visible_def token_def intro!: head_line_visible)
  moreover have "str_trim ''host'' = ''host''" by (intro str_trim_visible) (simp_all add: visible_def)
  then have "\<forall>a. header_fold auth_header [''host: relay''] a = a"
    by (simp add: auth_header_def eq_ignore_ascii_case_def ascii_lower_def)
  moreover have "sample_parse [] = None" by (simp add: sample_parse_def)
  moreover have "valid_utf8 (as_bytes ''x'')" using visible_facts [of "''x''"] by (simp add: visible_def)
  ultimately show ?thesis
    using http_registration [of "[''host: relay'']" "''pw''" "''x''" sample_parse sample_crypto "\<lambda>es. ''x''" "''k''" 5 0 "''1.1.1.1''" "[]"]
    by simp
qed

end
