(* ===== verification/Rendezvous.thy ===== *)
theory Rendezvous
  imports Registry_Props Handle_Props
begin

text \<open>
  The heartbeat of a device against the rendezvous registry: \<open>relay_discovery\<close> and
  \<open>lookup_fingerprint_on_relay\<close> of \<open>src/rust/core/src/handle.rs\<close>, composed with the registry of the
  relay.

  \<open>post w reg password\<close> is the HTTP request of a client (a POST of the registration with the bearer
  token) on the state \<open>w\<close> of the other side: \<open>Inl\<close> the text of the error of sending it or of
  decoding the answer, \<open>Inr None\<close> an answer that is not a JSON array.  \<open>probed\<close> is the port and the text of the address a STUN probe found.
\<close>

section \<open>The client side\<close>

definition discovery_registration :: "NodeDevice \<Rightarrow> (u16 \<times> string) option \<Rightarrow> string \<Rightarrow> DeviceRegistration" where
  "discovery_registration current probed username =
     \<lparr>dr_fingerprint = nd_fingerprint current, dr_alias = nd_alias current,
      dr_device_model = nd_device_model current, dr_device_type = nd_device_type current,
      dr_protocol = nd_protocol current,
      dr_port = (case probed of None \<Rightarrow> nd_port current | Some (port, _) \<Rightarrow> port),
      dr_username = username,
      dr_candidates = (case probed of None \<Rightarrow> [] | Some (_, mapped) \<Rightarrow> [mapped])\<rparr>"

definition relay_discovery ::
  "Crypto \<Rightarrow> ('w \<Rightarrow> DeviceRegistration \<Rightarrow> string \<Rightarrow> 'w \<times> (string + RelayDev list option)) \<Rightarrow> CoreConfig \<Rightarrow> bool \<Rightarrow> u64 \<Rightarrow>
   (u16 \<times> string) option \<Rightarrow> DeviceActor \<Rightarrow> 'w \<Rightarrow> DeviceActor \<times> 'w" where
  "relay_discovery cp post config tls_ready unix probed a w =
     (case relay_settings config of
        None \<Rightarrow> (a, w)
      | Some relay \<Rightarrow>
          if \<not> tls_ready then (a, w)
          else
            let (username, password) =
                  generate_credentials (cr_hmac cp) (cr_b64 cp) (rl_secret relay) (unix + 120) ''discovery'';
                current = get_current_device a
            in case post w (discovery_registration current probed username) password of
                 (w', Inr (Some devs)) \<Rightarrow> (relay_merge current devs a, w')
               | (w', _) \<Rightarrow> (a, w'))"

definition lookup_registration :: "string \<Rightarrow> DeviceRegistration" where
  "lookup_registration username =
     \<lparr>dr_fingerprint = ''lookup-probe'', dr_alias = ''lookup-probe'', dr_device_model = ''cli'',
      dr_device_type = ''headless'', dr_protocol = ''https'', dr_port = 0, dr_username = username,
      dr_candidates = []\<rparr>"

definition lookup_fingerprint_on_relay ::
  "Crypto \<Rightarrow> ('w \<Rightarrow> DeviceRegistration \<Rightarrow> string \<Rightarrow> 'w \<times> (string + RelayDev list option)) \<Rightarrow> string \<Rightarrow> u64 \<Rightarrow> string \<Rightarrow> 'w \<Rightarrow>
   'w \<times> (string + string)" where
  "lookup_fingerprint_on_relay cp post secret unix address w =
     (let (username, password) = generate_credentials (cr_hmac cp) (cr_b64 cp) secret (unix + 60) ''bridge-lookup''
      in case post w (lookup_registration username) password of
           (w', Inl e) \<Rightarrow> (w', Inl e)
         | (w', Inr devs) \<Rightarrow> (w', lookup_fingerprint address (case devs of None \<Rightarrow> [] | Some ds \<Rightarrow> ds)))"

section \<open>The relay as the other side\<close>

text \<open>An entry as the client reads it back from the JSON array.\<close>

definition entry_json :: "DeviceEntry \<Rightarrow> RelayDev" where
  "entry_json e =
     \<lparr>rd_fingerprint = Some (de_fingerprint e), rd_alias = Some (de_alias e),
      rd_device_model = Some (de_device_model e), rd_device_type = Some (de_device_type e),
      rd_address = Some (de_address e), rd_port = Some (ucast (de_port e)), rd_protocol = Some (de_protocol e)\<rparr>"

text \<open>\<open>text_of\<close> is the JSON a client sends; \<open>parse\<close> reads it back.\<close>

definition relay_post ::
  "Crypto \<Rightarrow> (DeviceRegistration \<Rightarrow> string) \<Rightarrow> (string \<Rightarrow> DeviceRegistration option) \<Rightarrow> string \<Rightarrow> u64 \<Rightarrow> nat \<Rightarrow> string \<Rightarrow>
   registry \<Rightarrow> DeviceRegistration \<Rightarrow> string \<Rightarrow> registry \<times> (string + RelayDev list option)" where
  "relay_post cp text_of parse secret unix at ip m reg password =
     (case registry_step cp parse secret (RegisterReq unix at (text_of reg) (Some (''Bearer '' @ password)) ip) m of
        (m', status, Inr es) \<Rightarrow> (m', Inr (Some (map entry_json es)))
      | (m', status, Inl e) \<Rightarrow> (m', Inr None))"

section \<open>Lemmas\<close>

lemma registered:
  assumes "generate_credentials (cr_hmac cp) (cr_b64 cp) secret expiry suffix = (u, p)" "unix < expiry"
    and "dr_username reg = u" "parse (text_of reg) = Some reg"
  shows "registry_step cp parse secret (RegisterReq unix at (text_of reg) (Some (''Bearer '' @ p)) ip) m =
    (let m' = insert_entry (registration_entry reg ip) at (prune at m) in (m', 200, Inr (map fst (hvals m'))))"
  using minted_verified [OF assms(1,2)] assms(3,4)
  by (simp add: registry_register_def bearer_of_def strip_prefix_def starts_with_def)

lemma merge_one_other: "rd_fingerprint dev = Some fp' \<Longrightarrow> fp' \<noteq> fp \<Longrightarrow>
    hget (da_map (merge_one current dev a)) fp = hget (da_map a) fp"
  by (auto simp: merge_one_def Let_def or_else_def add_node_device_def step_defs relay_peer_def)

lemma relay_merge_other:
  "fp \<notin> de_fingerprint ` set es \<Longrightarrow>
    hget (da_map (relay_merge current (map entry_json es) a)) fp = hget (da_map a) fp"
proof (induction es arbitrary: a)
  case (Cons e es)
  then show ?case
    using merge_one_other [of "entry_json e" "de_fingerprint e" fp current a] by (auto simp: relay_merge_def entry_json_def)
qed (simp add: relay_merge_def)

lemma relay_merge_adds:
  assumes "distinct (map de_fingerprint es)" "e \<in> set es" "de_fingerprint e \<noteq> []"
    and "da_current a = current" "de_fingerprint e \<noteq> nd_fingerprint current" "de_alias e \<noteq> nd_alias current"
    and "\<forall>d. hget (da_map a) (de_fingerprint e) = Some d \<longrightarrow> \<not> lan_peer d"
  shows "hget (da_map (relay_merge current (map entry_json es) a)) (de_fingerprint e) = Some (relay_peer (entry_json e))"
proof -
  obtain xs ys where es: "es = xs @ e # ys" using split_list [OF assms(2)] by blast
  let ?fp = "de_fingerprint e"
  have fresh: "?fp \<notin> de_fingerprint ` set xs" "?fp \<notin> de_fingerprint ` set ys" using assms(1) es by auto
  define b where "b = relay_merge current (map entry_json xs) a"
  have b: "da_current b = current" "hget (da_map b) ?fp = hget (da_map a) ?fp"
    using relay_merge_ok [OF assms(4), of "map entry_json xs"] relay_merge_other [OF fresh(1)] assms(4)
    by (simp_all add: b_def merge_ok_def)
  have peer: "nd_fingerprint (relay_peer (entry_json e)) = ?fp" by (simp add: relay_peer_def entry_json_def or_else_def)
  have "merge_one current (entry_json e) b = add_node_device (relay_peer (entry_json e)) b"
    using assms(3,5-7) b
    by (auto simp: merge_one_def peer get_device_def on_get_def lan_peer_def Let_def entry_json_def or_else_def relay_peer_def split: option.split)
  then have "hget (da_map (merge_one current (entry_json e) b)) ?fp = Some (relay_peer (entry_json e))"
    by (simp add: add_node_device_def peer)
  moreover have "relay_merge current (map entry_json es) a =
      relay_merge current (map entry_json ys) (merge_one current (entry_json e) b)"
    by (simp add: relay_merge_def es b_def)
  ultimately show ?thesis using relay_merge_other [OF fresh(2)] by simp
qed

lemma registry_fingerprints: "registry_ok m \<Longrightarrow> map de_fingerprint (map fst (hvals m)) = hkeys m"
proof -
  assume ok: "registry_ok m"
  have "de_fingerprint (fst (snd x)) = fst x" if "x \<in> set m" for x
  proof -
    obtain k e t where x: "x = (k, e, t)" by (metis surj_pair)
    then have "hget m k = Some (e, t)" using that ok by (simp add: registry_ok_def hget_eq_Some_iff)
    then show ?thesis using ok x by (simp add: registry_ok_def)
  qed
  then show ?thesis by simp
qed

lemma registry_ok_step: "registry_ok m \<Longrightarrow> registry_ok (run_registry cp parse secret rs m)"
proof (induction rs arbitrary: m)
  case (Cons r rs)
  then show ?case by (simp add: run_registry_def step_op registry_ok_apply split: option.split)
qed (simp add: run_registry_def)

text \<open>What a heartbeat does to the registry and to the table.\<close>

lemma heartbeat:
  assumes "relay_settings config = Some relay" "rl_secret relay = secret"
    and "unix < local + 120" "\<forall>reg. parse (text_of reg) = Some reg"
  shows "\<exists>u. let e = registration_entry (discovery_registration (get_current_device a) probed u) ip;
             m' = insert_entry e at (prune at m)
         in relay_discovery cp (relay_post cp text_of parse secret unix at ip) config True local probed a m =
              (relay_merge (get_current_device a) (map entry_json (map fst (hvals m'))) a, m')"
proof -
  obtain u p where mint: "generate_credentials (cr_hmac cp) (cr_b64 cp) secret (local + 120) ''discovery'' = (u, p)"
    by fastforce
  let ?reg = "discovery_registration (get_current_device a) probed u"
  have "dr_username ?reg = u" by (simp add: discovery_registration_def)
  from registered [of cp secret _ _ _ _ _ ?reg, OF mint assms(3) this] assms(4)
  show ?thesis
    using assms(1,2) mint
    by (intro exI [of _ u]) (simp add: relay_discovery_def relay_post_def Let_def)
qed

lemma ucast_ucast_port: "(ucast (ucast (p :: u16) :: u64) :: u16) = p"
  by (auto simp: bit_eq_iff bit_simps dest: bit_imp_le_length)

section \<open>Properties\<close>


text \<open>The registry keeps one device per address: a heartbeat from behind the same address under another
  fingerprint removes the device that registered before, and so does looking up a fingerprint from
  the address of a registered device, which enters the pseudo device \<open>lookup-probe\<close> instead.\<close>

theorem same_address_evicted:
  assumes config: "relay_settings config = Some relay" "rl_secret relay = secret"
    and json: "\<forall>reg. parse (text_of reg) = Some reg"
    and clocks: "unix < local + 120" "unix < local + 60"
    and old: "hget (run_registry cp parse secret rs []) fp = Some (e, t)" "de_address e = ip"
    and other: "fp \<noteq> nd_fingerprint (get_current_device a)" "fp \<noteq> ''lookup-probe''"
  shows "fp \<notin> de_fingerprint ` set (listed now (snd (relay_discovery cp (relay_post cp text_of parse secret unix at ip)
        config True local probed a (run_registry cp parse secret rs [])))) \<and>
    fp \<notin> de_fingerprint ` set (listed now (fst (lookup_fingerprint_on_relay cp (relay_post cp text_of parse secret unix at ip)
        secret local address (run_registry cp parse secret rs []))))"
proof -
  let ?m = "run_registry cp parse secret rs []"
  have ok: "registry_ok (prune at ?m)" by (intro registry_ok_prune registry_ok_run)
  then have wf: "hwf (prune at ?m)" "hwf ?m" using registry_ok_run [of cp parse secret rs] by (simp_all add: registry_ok_def)
  have gone: "fp \<notin> de_fingerprint ` set (listed now (insert_entry e' at (prune at ?m)))"
    if "de_fingerprint e' \<noteq> fp" "de_address e' = ip" for e'
  proof -
    have ok': "registry_ok (insert_entry e' at (prune at ?m))" using ok by (rule registry_ok_insert)
    then have wf': "hwf (insert_entry e' at (prune at ?m))" by (simp add: registry_ok_def)
    have "hget (insert_entry e' at (prune at ?m)) fp = None"
      using that old by (auto simp: hget_insert_entry [OF wf(1)] hget_prune [OF wf(2)])
    then show ?thesis by (simp add: listed_fingerprint_iff [OF ok'] hget_prune [OF wf'])
  qed
  obtain u where hb: "snd (relay_discovery cp (relay_post cp text_of parse secret unix at ip) config True local probed a ?m) =
      insert_entry (registration_entry (discovery_registration (get_current_device a) probed u) ip) at (prune at ?m)"
    using heartbeat [OF config clocks(1) json, of a probed ip at ?m cp] by (auto simp: Let_def)
  obtain v p where mint: "generate_credentials (cr_hmac cp) (cr_b64 cp) secret (local + 60) ''bridge-lookup'' = (v, p)"
    by fastforce
  have "fst (lookup_fingerprint_on_relay cp (relay_post cp text_of parse secret unix at ip) secret local address ?m) =
      insert_entry (registration_entry (lookup_registration v) ip) at (prune at ?m)"
    using registered [OF mint clocks(2), of "lookup_registration v" parse text_of at ip ?m] json
    by (simp add: lookup_fingerprint_on_relay_def mint relay_post_def lookup_registration_def Let_def)
  then show ?thesis
    using hb gone other by (simp add: registration_entry_def discovery_registration_def lookup_registration_def)
qed

section \<open>Witnesses\<close>

lemma sample_relay_settings:
  "relay_settings sample_relay_config = Some \<lparr>rl_addr = ''9.9.9.9:3478'', rl_secret = ''k'', rl_realm = ''localsend''\<rparr>"
  by code_simp


theorem same_address_evicted_witness:
  "''f1'' \<notin> de_fingerprint ` set (listed 9 (fst (lookup_fingerprint_on_relay sample_crypto
     (relay_post sample_crypto sample_text sample_parse ''k'' 5 7 ''1.1.1.1'') ''k'' 5 ''9.9.9.9''
     (run_registry sample_crypto sample_parse ''k'' [sample_register 0 ''1.1.1.1'' ''f1''] []))))"
proof -
  let ?e = "registration_entry (sample_registration ''f1'') ''1.1.1.1''"
  obtain r where r: "relay_settings sample_relay_config = Some r" "rl_secret r = ''k''"
    using sample_relay_settings by simp
  have get: "hget (run_registry sample_crypto sample_parse ''k'' [sample_register 0 ''1.1.1.1'' ''f1''] []) ''f1'' = Some (?e, 0)"
    by (simp add: run_registry_def Let_def prune_def hretain_def insert_entry_def stale_keys_def
        registration_entry_def sample_registration_def)
  have json: "\<forall>reg. sample_parse (sample_text reg) = Some reg" by simp
  show ?thesis
    using same_address_evicted [OF r json _ _ get, where unix = 5 and local = 5 and ip = "''1.1.1.1''"
        and a = "new_device_actor sample_peer" and now = 9 and at = 7 and probed = None and address = "''9.9.9.9''"]
    by (simp add: get_current_device_def new_device_actor_def sample_peer_def sample_device_def registration_entry_def)
qed

end
