(* ===== verification/Tofu.thy ===== *)
theory Tofu
  imports Server Sample_Text
begin

text \<open>
  Device identities and trust on first use: \<open>src/rust/core/src/relay/identity.rs\<close> and the pin store and
  certificate verifier of \<open>src/rust/core/src/relay/tls.rs\<close>.

  SHA-256 (\<open>sha\<close>), JSON (\<open>enc\<close>, \<open>dec\<close>), PEM and the certificate generator are library code and
  parameters.  The file system is a map from paths to contents; \<open>wr raw old\<close> is what a write of
  \<open>raw\<close> leaves of a file whose contents were \<open>old\<close>, and \<open>flt\<close> gives the I/O error of touching a path,
  if there is one.
\<close>

section \<open>Fingerprints\<close>

definition hex_digit :: "nat \<Rightarrow> char" where
  "hex_digit n = (if n < 10 then char_of (48 + n) else char_of (55 + n))"

text \<open>\<open>format!("{b:02X}")\<close>\<close>

definition hex2 :: "u8 \<Rightarrow> string" where
  "hex2 b = [hex_digit (unat b div 16), hex_digit (unat b mod 16)]"

definition fingerprint_of :: "(bytes \<Rightarrow> bytes) \<Rightarrow> bytes \<Rightarrow> string" where
  "fingerprint_of sha cert = concat (map hex2 (sha cert))"

section \<open>The device identity\<close>

record DeviceIdentity =
  id_cert_der :: bytes
  id_key_der :: bytes
  id_fingerprint :: string

definition from_der :: "(bytes \<Rightarrow> bytes) \<Rightarrow> bytes \<Rightarrow> bytes \<Rightarrow> DeviceIdentity" where
  "from_der sha cert_der key_der =
     \<lparr>id_cert_der = cert_der, id_key_der = key_der, id_fingerprint = fingerprint_of sha cert_der\<rparr>"

definition CERT_FILE :: string where
  "CERT_FILE = ''tls-cert.pem''"

definition KEY_FILE :: string where
  "KEY_FILE = ''tls-key.pem''"

text \<open>
  \<open>gen\<close> is the fresh key pair with its self-signed certificate: the error, or the certificate in DER
  and in PEM form and the key.  \<open>key_pem\<close> writes a private key as PEM and \<open>pem_parse\<close> reads a PEM file.
\<close>

record PemLib =
  pl_parse :: "string \<Rightarrow> string + bytes"
  pl_key_pem :: "bytes \<Rightarrow> string"
  pl_gen :: "string + bytes \<times> string \<times> bytes"

definition load_identity ::
  "(bytes \<Rightarrow> bytes) \<Rightarrow> PemLib \<Rightarrow> (string \<Rightarrow> string option) \<Rightarrow> string \<Rightarrow> string \<Rightarrow> (string \<rightharpoonup> string) \<Rightarrow> string + DeviceIdentity" where
  "load_identity sha pl flt cert_path key_path fs =
     (case (flt cert_path, flt key_path) of
        (Some e, _) \<Rightarrow> Inl e
      | (None, Some e) \<Rightarrow> Inl e
      | (None, None) \<Rightarrow>
          (case pl_parse pl (the (fs cert_path)) of
             Inl e \<Rightarrow> Inl (''bad cert pem: '' @ e)
           | Inr cert \<Rightarrow>
               (case pl_parse pl (the (fs key_path)) of
                  Inl e \<Rightarrow> Inl (''bad key pem: '' @ e)
                | Inr key \<Rightarrow> Inr (from_der sha cert key))))"

definition load_or_create ::
  "(bytes \<Rightarrow> bytes) \<Rightarrow> PemLib \<Rightarrow> (string \<Rightarrow> string option) \<Rightarrow> string \<Rightarrow> (string \<rightharpoonup> string) \<Rightarrow>
   (string \<rightharpoonup> string) \<times> (string + DeviceIdentity)" where
  "load_or_create sha pl flt dir fs =
     (let cert_path = path_join dir CERT_FILE; key_path = path_join dir KEY_FILE in
      case flt dir of
        Some e \<Rightarrow> (fs, Inl e)
      | None \<Rightarrow>
          if fs cert_path \<noteq> None \<and> fs key_path \<noteq> None
          then (fs, load_identity sha pl flt cert_path key_path fs)
          else
            (case pl_gen pl of
               Inl e \<Rightarrow> (fs, Inl e)
             | Inr (cert_der, cert_pem, key_der) \<Rightarrow>
                 (case flt cert_path of
                    Some e \<Rightarrow> (fs, Inl e)
                  | None \<Rightarrow>
                      let fs1 = fs(cert_path \<mapsto> cert_pem) in
                      (case flt key_path of
                         Some e \<Rightarrow> (fs1, Inl e)
                       | None \<Rightarrow>
                           (fs1(key_path \<mapsto> pl_key_pem pl key_der), Inr (from_der sha cert_der key_der))))))"

section \<open>Pins\<close>

type_synonym pins = "(string, string) hashmap"

record TofuStore =
  tf_path :: string
  tf_pinned :: pins

definition tofu_load :: "(bytes \<Rightarrow> pins option) \<Rightarrow> string \<Rightarrow> (string \<rightharpoonup> bytes) \<Rightarrow> TofuStore" where
  "tofu_load dec path disk =
     \<lparr>tf_path = path,
      tf_pinned = (case disk path of
                     None \<Rightarrow> []
                   | Some raw \<Rightarrow> (case dec raw of None \<Rightarrow> [] | Some m \<Rightarrow> m))\<rparr>"

definition pinned_fingerprint :: "TofuStore \<Rightarrow> string \<Rightarrow> string option" where
  "pinned_fingerprint st peer = hget (tf_pinned st) peer"

definition pin ::
  "(pins \<Rightarrow> bytes option) \<Rightarrow> (bytes \<Rightarrow> bytes option \<Rightarrow> bytes option) \<Rightarrow> string \<Rightarrow> string \<Rightarrow>
   TofuStore \<times> (string \<rightharpoonup> bytes) \<Rightarrow> TofuStore \<times> (string \<rightharpoonup> bytes)" where
  "pin enc wr peer fingerprint = (\<lambda>(st, disk).
     let m = hput peer fingerprint (tf_pinned st) in
     (st\<lparr>tf_pinned := m\<rparr>,
      case enc m of
        None \<Rightarrow> disk
      | Some raw \<Rightarrow> disk(tf_path st := wr raw (disk (tf_path st)))))"

section \<open>The verifier\<close>

record TofuVerifier =
  tv_peer_id :: string
  tv_expected :: "string option"

text \<open>
  \<open>verify_server_cert\<close> reads the store (\<open>tofu_check\<close>) and, on first contact, pins in a second step
  under a lock of its own; the two are apart here because other handshakes may come between.
\<close>

datatype Verdict = Trusted | Refused string | FirstContact

definition tofu_check :: "TofuVerifier \<Rightarrow> string \<Rightarrow> TofuStore \<Rightarrow> Verdict" where
  "tofu_check v fingerprint st =
     (case pinned_fingerprint st (tv_peer_id v) of
        Some p \<Rightarrow>
          if p = fingerprint then Trusted
          else Refused (''peer certificate changed: pinned '' @ p @ '', presented '' @ fingerprint)
      | None \<Rightarrow>
          (case tv_expected v of
             Some expected \<Rightarrow>
               if expected \<noteq> fingerprint
               then Refused (''peer certificate mismatch: expected '' @ expected @ '', presented '' @ fingerprint)
               else FirstContact
           | None \<Rightarrow> FirstContact))"

definition verify_server_cert ::
  "(bytes \<Rightarrow> bytes) \<Rightarrow> (pins \<Rightarrow> bytes option) \<Rightarrow> (bytes \<Rightarrow> bytes option \<Rightarrow> bytes option) \<Rightarrow> TofuVerifier \<Rightarrow> bytes \<Rightarrow>
   TofuStore \<times> (string \<rightharpoonup> bytes) \<Rightarrow> (TofuStore \<times> (string \<rightharpoonup> bytes)) \<times> (string + unit)" where
  "verify_server_cert sha enc wr v cert s =
     (let fingerprint = fingerprint_of sha cert in
      case tofu_check v fingerprint (fst s) of
        Trusted \<Rightarrow> (s, Inr ())
      | Refused e \<Rightarrow> (s, Inl e)
      | FirstContact \<Rightarrow> (pin enc wr (tv_peer_id v) fingerprint s, Inr ()))"

text \<open>The verifier of the process-wide QUIC endpoint, \<open>ensure_quic\<close> of \<open>src/rust/core/src/handle.rs\<close>.\<close>

definition quic_verifier :: TofuVerifier where
  "quic_verifier = \<lparr>tv_peer_id = ''any'', tv_expected = None\<rparr>"

section \<open>Runs\<close>

text \<open>Handshakes, and restarts of the process, which load the store from the disk again.\<close>

datatype TofuEvent = Handshake TofuVerifier bytes | Restart

fun tofu_step ::
  "(bytes \<Rightarrow> bytes) \<Rightarrow> (pins \<Rightarrow> bytes option) \<Rightarrow> (bytes \<Rightarrow> pins option) \<Rightarrow> (bytes \<Rightarrow> bytes option \<Rightarrow> bytes option) \<Rightarrow>
   TofuStore \<times> (string \<rightharpoonup> bytes) \<Rightarrow> TofuEvent \<Rightarrow> (TofuStore \<times> (string \<rightharpoonup> bytes)) \<times> (TofuVerifier \<times> bytes) option" where
  "tofu_step sha enc dec wr s (Handshake v cert) =
     (case verify_server_cert sha enc wr v cert s of
        (s', Inr _) \<Rightarrow> (s', Some (v, cert))
      | (s', Inl _) \<Rightarrow> (s', None))"
| "tofu_step sha enc dec wr s Restart = ((tofu_load dec (tf_path (fst s)) (snd s), snd s), None)"

section \<open>Lemmas\<close>

lemma hex_digit_inject: "m < 16 \<Longrightarrow> n < 16 \<Longrightarrow> hex_digit m = hex_digit n \<longleftrightarrow> m = n"
proof -
  assume "m < 16" "n < 16"
  moreover have "of_char (hex_digit k) = (if k < 10 then 48 + k else 55 + k)" if "k < 16" for k :: nat
    using that by (simp add: hex_digit_def)
  ultimately show ?thesis by (auto split: if_splits dest!: arg_cong [of _ _ "of_char :: char \<Rightarrow> nat"])
qed

lemma hex2_inject: "hex2 a = hex2 b \<longleftrightarrow> a = b"
proof
  assume "hex2 a = hex2 b"
  moreover have "unat x div 16 < 16" "unat x mod 16 < 16" for x :: u8
    using unsigned_less [of x, where ?'a = nat] by simp_all
  ultimately have "unat a div 16 = unat b div 16" "unat a mod 16 = unat b mod 16"
    by (simp_all add: hex2_def hex_digit_inject)
  then have "unat a = unat b" by (metis div_mult_mod_eq)
  then show "a = b" by (rule unsigned_word_eqI)
qed simp

lemma hex_inject: "concat (map hex2 a) = concat (map hex2 b) \<longleftrightarrow> a = b"
proof (induction a arbitrary: b)
  case Nil
  then show ?case by (cases b) (simp_all add: hex2_def)
next
  case (Cons x a)
  then show ?case
  proof (cases b)
    case (Cons y b')
    have "concat (map hex2 (x # a)) = concat (map hex2 (y # b')) \<longleftrightarrow> hex2 x = hex2 y \<and> concat (map hex2 a) = concat (map hex2 b')"
      by (auto simp: hex2_def)
    then show ?thesis using Cons Cons.IH by (simp add: hex2_inject)
  qed (simp add: hex2_def)
qed

lemma fingerprint_inject: "fingerprint_of sha c = fingerprint_of sha d \<longleftrightarrow> sha c = sha d"
  by (simp add: fingerprint_of_def hex_inject)

text \<open>The store in memory is what a restart would load.\<close>

definition synced :: "(bytes \<Rightarrow> pins option) \<Rightarrow> TofuStore \<times> (string \<rightharpoonup> bytes) \<Rightarrow> bool" where
  "synced dec s \<longleftrightarrow> tofu_load dec (tf_path (fst s)) (snd s) = fst s \<and> hwf (tf_pinned (fst s))"

definition disk_ok :: "(pins \<Rightarrow> bytes option) \<Rightarrow> (bytes \<Rightarrow> pins option) \<Rightarrow> (bytes \<Rightarrow> bytes option \<Rightarrow> bytes option) \<Rightarrow> bool" where
  "disk_ok enc dec wr \<longleftrightarrow>
     (\<forall>m. hwf m \<longrightarrow> (\<exists>raw. enc m = Some raw \<and> dec raw = Some m)) \<and> (\<forall>raw old. wr raw old = Some raw)"

lemma synced_pin:
  assumes "disk_ok enc dec wr" "synced dec s"
  shows "synced dec (pin enc wr peer fp s)"
proof -
  obtain st disk where s: "s = (st, disk)" by fastforce
  let ?m = "hput peer fp (tf_pinned st)"
  have "hwf ?m" using assms(2) s by (simp add: synced_def)
  then obtain raw where "enc ?m = Some raw" "dec raw = Some ?m" using assms(1) unfolding disk_ok_def by blast
  moreover have "wr raw old = Some raw" for old using assms(1) by (simp add: disk_ok_def)
  ultimately show ?thesis using \<open>hwf ?m\<close> s by (simp add: pin_def synced_def tofu_load_def)
qed

lemma pinned_pin: "pinned_fingerprint (fst (pin enc wr peer fp s)) q =
    (if q = peer then Some fp else pinned_fingerprint (fst s) q)"
  by (cases s) (simp add: pin_def pinned_fingerprint_def Let_def)

lemma verify_cases:
  obtains e where "verify_server_cert sha enc wr v c s = (s, Inl e)"
  | "verify_server_cert sha enc wr v c s = (s, Inr ())" "pinned_fingerprint (fst s) (tv_peer_id v) = Some (fingerprint_of sha c)"
  | "verify_server_cert sha enc wr v c s = (pin enc wr (tv_peer_id v) (fingerprint_of sha c) s, Inr ())"
    "pinned_fingerprint (fst s) (tv_peer_id v) = None" "tv_expected v \<in> {None, Some (fingerprint_of sha c)}"
proof (cases "pinned_fingerprint (fst s) (tv_peer_id v)")
  case None
  then show ?thesis
  proof (cases "tv_expected v \<in> {None, Some (fingerprint_of sha c)}")
    case True
    then show ?thesis
      using None by (intro that(3)) (auto simp: verify_server_cert_def tofu_check_def)
  next
    case False
    then obtain x where "tv_expected v = Some x" "x \<noteq> fingerprint_of sha c" by (cases "tv_expected v") auto
    then show ?thesis using None that(1) by (simp add: verify_server_cert_def tofu_check_def)
  qed
next
  case (Some p)
  show ?thesis
  proof (cases "p = fingerprint_of sha c")
    case True
    then show ?thesis using Some by (intro that(2)) (simp_all add: verify_server_cert_def tofu_check_def)
  next
    case False
    then show ?thesis using Some that(1) by (simp add: verify_server_cert_def tofu_check_def)
  qed
qed

lemma synced_step:
  assumes "disk_ok enc dec wr" "synced dec s"
  shows "synced dec (fst (tofu_step sha enc dec wr s ev))"
proof (cases ev)
  case (Handshake v c)
  then show ?thesis
    using assms by (cases rule: verify_cases [of sha enc wr v c s]) (simp_all add: synced_pin)
next
  case Restart
  then show ?thesis using assms(2) by (simp add: synced_def)
qed

lemma pinned_step:
  assumes "synced dec s" "pinned_fingerprint (fst s) p = Some fp"
  shows "pinned_fingerprint (fst (fst (tofu_step sha enc dec wr s ev))) p = Some fp"
proof (cases ev)
  case (Handshake v c)
  then show ?thesis
    using assms by (cases rule: verify_cases [of sha enc wr v c s]) (auto simp: pinned_pin)
next
  case Restart
  then show ?thesis using assms by (simp add: synced_def)
qed

lemma accepted_step:
  assumes "snd (tofu_step sha enc dec wr s ev) = Some (v, c)"
  shows "pinned_fingerprint (fst (fst (tofu_step sha enc dec wr s ev))) (tv_peer_id v) = Some (fingerprint_of sha c) \<and>
    (pinned_fingerprint (fst s) (tv_peer_id v) = Some fp \<longrightarrow> fingerprint_of sha c = fp)"
proof (cases ev)
  case (Handshake w d)
  then show ?thesis
    using assms by (cases rule: verify_cases [of sha enc wr w d s]) (auto simp: pinned_pin)
qed (use assms in simp)

lemma accepted_run:
  assumes "disk_ok enc dec wr" "synced dec s" "pinned_fingerprint (fst s) p = Some fp"
    "Some (v, c) \<in> set (snd (run_actor (tofu_step sha enc dec wr) s es))" "tv_peer_id v = p"
  shows "fingerprint_of sha c = fp"
  using assms
proof (induction es arbitrary: s)
  case (Cons ev es)
  let ?t = "tofu_step sha enc dec wr s ev"
  have "synced dec (fst ?t)" "pinned_fingerprint (fst (fst ?t)) p = Some fp"
    using Cons.prems by (simp_all add: synced_step pinned_step)
  note sub = this
  from Cons.prems(4) consider "snd ?t = Some (v, c)"
    | "Some (v, c) \<in> set (snd (run_actor (tofu_step sha enc dec wr) (fst ?t) es))"
    by (auto simp: snd_run_actor_Cons)
  then show ?case
  proof cases
    case 1
    then show ?thesis using accepted_step [OF 1, of fp] Cons.prems(3,5) by blast
  next
    case 2
    then show ?thesis using Cons.IH [OF Cons.prems(1) sub 2 Cons.prems(5)] by blast
  qed
qed simp

lemma accepted_agree:
  assumes "disk_ok enc dec wr" "synced dec s" "Some (v, c) \<in> set (snd (run_actor (tofu_step sha enc dec wr) s es))"
    "Some (w, d) \<in> set (snd (run_actor (tofu_step sha enc dec wr) s es))" "tv_peer_id v = tv_peer_id w"
  shows "fingerprint_of sha c = fingerprint_of sha d"
  using assms(2-4)
proof (induction es arbitrary: s)
  case (Cons ev es)
  let ?t = "tofu_step sha enc dec wr s ev"
  let ?rest = "snd (run_actor (tofu_step sha enc dec wr) (fst ?t) es)"
  have sy: "synced dec (fst ?t)" using Cons.prems(1) assms(1) by (simp add: synced_step)
  have rs: "snd (run_actor (tofu_step sha enc dec wr) s (ev # es)) = snd ?t # ?rest" by (rule snd_run_actor_Cons)
  have head: "fingerprint_of sha y = fingerprint_of sha x"
    if "snd ?t = Some (u, x)" "Some (u', y) \<in> set ?rest" "tv_peer_id u' = tv_peer_id u" for u u' x y
    using accepted_step [OF that(1)] accepted_run [OF assms(1) sy _ that(2,3)] by blast
  from Cons.prems(2,3) consider "snd ?t = Some (v, c)" "snd ?t = Some (w, d)"
    | "snd ?t = Some (v, c)" "Some (w, d) \<in> set ?rest" | "Some (v, c) \<in> set ?rest" "snd ?t = Some (w, d)"
    | "Some (v, c) \<in> set ?rest" "Some (w, d) \<in> set ?rest"
    unfolding rs set_simps insert_iff by metis
  then show ?case
  proof cases
    case 1
    then show ?thesis by simp
  next
    case 2
    then show ?thesis using head [OF 2] assms(5) by simp
  next
    case 3
    then show ?thesis using head [OF 3(2,1)] assms(5) by simp
  next
    case 4
    then show ?thesis using Cons.IH [OF sy] by blast
  qed
qed simp

lemma synced_load: "hwf (tf_pinned (tofu_load dec path disk)) \<Longrightarrow> synced dec (tofu_load dec path disk, disk)"
  by (simp add: synced_def tofu_load_def)

section \<open>Properties\<close>


text \<open>One handshake: a certificate is accepted when it is the pinned one or, with no pin, when no other
  one was expected; it is pinned from then on, and neither a refusal nor an acceptance touches the
  pin of another peer.\<close>

theorem verify_server_cert_spec:
  "let fp = fingerprint_of sha c; (s', res) = verify_server_cert sha enc wr v c s in
   (res = Inr ()) = (case pinned_fingerprint (fst s) (tv_peer_id v) of
                       Some p \<Rightarrow> p = fp | None \<Rightarrow> tv_expected v \<in> {None, Some fp}) \<and>
   pinned_fingerprint (fst s') q =
     (if q = tv_peer_id v \<and> res = Inr () then Some fp else pinned_fingerprint (fst s) q)"
proof (cases "pinned_fingerprint (fst s) (tv_peer_id v)")
  case None
  then show ?thesis
    by (auto simp: verify_server_cert_def tofu_check_def pinned_pin Let_def split: option.splits if_splits)
next
  case (Some p)
  then show ?thesis
    by (auto simp: verify_server_cert_def tofu_check_def Let_def split: if_splits)
qed

text \<open>The QUIC endpoint verifies every peer under the one peer id \<open>any\<close>: once it has accepted a
  certificate, it refuses every peer with another certificate, also after restarts.\<close>

theorem quic_accepts_one_peer:
  assumes "disk_ok enc dec wr" "hwf (tf_pinned (tofu_load dec path disk))"
    and "run_actor (tofu_step sha enc dec wr) (tofu_load dec path disk, disk) es = (s, rs)"
    and "Some (quic_verifier, c) \<in> set rs" "sha d \<noteq> sha c"
  shows "\<exists>e. verify_server_cert sha enc wr quic_verifier d s = (s, Inl e)"
proof (rule ccontr)
  assume no: "\<nexists>e. verify_server_cert sha enc wr quic_verifier d s = (s, Inl e)"
  let ?step = "tofu_step sha enc dec wr" and ?s = "(tofu_load dec path disk, disk)"
  have "snd (?step s (Handshake quic_verifier d)) = Some (quic_verifier, d)"
    using no by (cases rule: verify_cases [of sha enc wr quic_verifier d s]) auto
  moreover have "snd (run_actor ?step t (es @ [ev])) = snd (run_actor ?step t es) @ [snd (?step (fst (run_actor ?step t es)) ev)]" for t ev
    by (induction es arbitrary: t) (simp_all add: snd_run_actor_Cons)
  ultimately have "Some (quic_verifier, c) \<in> set (snd (run_actor ?step ?s (es @ [Handshake quic_verifier d])))"
    "Some (quic_verifier, d) \<in> set (snd (run_actor ?step ?s (es @ [Handshake quic_verifier d])))"
    using assms(3,4) by simp_all
  from accepted_agree [OF assms(1) synced_load [OF assms(2)] this refl] show False
    using assms(5) by (simp add: fingerprint_inject)
qed

text \<open>The identity of a device is stable: what \<open>load_or_create\<close> generates it reads back on every later
  call, whatever key pair the generator would give then, and nothing is written again.\<close>

theorem identity_stable:
  assumes "load_or_create sha pl flt dir fs = (fs', Inr i)"
    and "\<forall>c p k. pl_gen pl = Inr (c, p, k) \<longrightarrow> pl_parse pl p = Inr c" "\<forall>k. pl_parse pl (pl_key_pem pl k) = Inr k"
  shows "load_or_create sha (pl\<lparr>pl_gen := g\<rparr>) flt dir fs' = (fs', Inr i) \<and>
    id_fingerprint i = fingerprint_of sha (id_cert_der i)"
proof -
  have neq: "path_join dir CERT_FILE \<noteq> path_join dir KEY_FILE"
    by (simp add: path_join_def CERT_FILE_def KEY_FILE_def starts_with_def)
  show ?thesis
    using assms neq
    by (auto simp: load_or_create_def load_identity_def from_der_def Let_def split: option.splits if_splits sum.splits prod.splits)
qed

section \<open>Witnesses\<close>

fun pair_up :: "string list \<Rightarrow> pins" where
  "pair_up (k # v # r) = (k, v) # pair_up r"
| "pair_up _ = []"

definition sample_enc :: "pins \<Rightarrow> bytes option" where
  "sample_enc m = Some (as_bytes (concat (map enc_str (concat (map (\<lambda>(k, v). [k, v]) m)))))"

definition sample_dec :: "bytes \<Rightarrow> pins option" where
  "sample_dec raw = map_option pair_up (dec_strs (length raw) (str_of_bytes raw))"

lemma sample_disk_ok: "disk_ok sample_enc sample_dec (\<lambda>raw _. Some raw)"
proof -
  have pairs: "pair_up (concat (map (\<lambda>(k, v). [k, v]) m)) = m" for m by (induction m) auto
  have "sample_dec (as_bytes (concat (map enc_str ss))) = Some (pair_up ss)" for ss
    using dec_strs_enc [OF length_enc, of ss] by (simp add: sample_dec_def)
  then show ?thesis by (simp add: disk_ok_def sample_enc_def pairs)
qed

definition sample_verifier :: TofuVerifier where
  "sample_verifier = \<lparr>tv_peer_id = ''peer'', tv_expected = None\<rparr>"

lemma first_handshake: "snd (run_actor (tofu_step id sample_enc sample_dec (\<lambda>raw _. Some raw))
    (tofu_load sample_dec ''tofu.json'' Map.empty, Map.empty) [Handshake \<lparr>tv_peer_id = p, tv_expected = None\<rparr> c]) =
    [Some (\<lparr>tv_peer_id = p, tv_expected = None\<rparr>, c)]"
  by (simp add: snd_run_actor_Cons verify_server_cert_def tofu_check_def pinned_fingerprint_def tofu_load_def Let_def)


theorem quic_accepts_one_peer_witness:
  "\<exists>e. verify_server_cert id sample_enc (\<lambda>raw _. Some raw) quic_verifier [8]
     (fst (run_actor (tofu_step id sample_enc sample_dec (\<lambda>raw _. Some raw))
        (tofu_load sample_dec ''tofu.json'' Map.empty, Map.empty) [Handshake quic_verifier [7]])) =
     (fst (run_actor (tofu_step id sample_enc sample_dec (\<lambda>raw _. Some raw))
        (tofu_load sample_dec ''tofu.json'' Map.empty, Map.empty) [Handshake quic_verifier [7]]), Inl e)"
proof -
  have wf: "hwf (tf_pinned (tofu_load sample_dec ''tofu.json'' Map.empty))" by (simp add: tofu_load_def)
  have rs: "Some (quic_verifier, [7]) \<in> set (snd (run_actor (tofu_step id sample_enc sample_dec (\<lambda>raw _. Some raw))
      (tofu_load sample_dec ''tofu.json'' Map.empty, Map.empty) [Handshake quic_verifier [7]]))"
    using first_handshake [of "''any''" "[7]"] unfolding quic_verifier_def [symmetric] by simp
  show ?thesis
    by (rule quic_accepts_one_peer [OF sample_disk_ok wf prod.collapse [symmetric] rs]) simp
qed

theorem identity_stable_witness:
  "let pl = \<lparr>pl_parse = (\<lambda>s. Inr (as_bytes s)), pl_key_pem = str_of_bytes, pl_gen = Inr ([1], str_of_bytes [1], [2])\<rparr>;
       fs' = fst (load_or_create id pl (\<lambda>_. None) ''d'' Map.empty)
   in load_or_create id (pl\<lparr>pl_gen := Inr ([3], [], [4])\<rparr>) (\<lambda>_. None) ''d'' fs' = (fs', Inr (from_der id [1] [2]))"
proof -
  let ?pl = "\<lparr>pl_parse = (\<lambda>s. Inr (as_bytes s)), pl_key_pem = str_of_bytes, pl_gen = Inr ([1], str_of_bytes [1], [2])\<rparr>"
  have "load_or_create id ?pl (\<lambda>_. None) ''d'' Map.empty =
      (fst (load_or_create id ?pl (\<lambda>_. None) ''d'' Map.empty), Inr (from_der id [1] [2]))"
    by (simp add: load_or_create_def Let_def)
  from identity_stable [OF this] show ?thesis by (simp add: Let_def)
qed

end
