(* ===== verification/Cli_State.thy ===== *)
theory Cli_State
  imports Session_Props
begin

text \<open>
  The state of the terminal interface and its reducers, \<open>src/rust/cli/src/state.rs\<close>, and how it mirrors
  the sessions of the core.  \<open>App\<close> of this file is \<open>UiApp\<close> here.  The progress ratio, a floating point
  number for the display, is left out.
\<close>

section \<open>Views\<close>

record FileView =
  fv_id :: string
  fv_name :: string
  fv_size :: i64
  fv_transferred :: nat
  fv_state :: FileState

record SessionView =
  sv_id :: string
  sv_direction :: SessionDirection
  sv_peer_alias :: string
  sv_peer_addr :: string
  sv_state :: MissionState
  sv_files :: "FileView list"
  sv_fail_reason :: "string option"

definition is_pending_receive :: "SessionView \<Rightarrow> bool" where
  "is_pending_receive v \<longleftrightarrow> sv_direction v = Receive \<and> sv_state v = Pending"

definition view_terminal :: "SessionView \<Rightarrow> bool" where
  "view_terminal v \<longleftrightarrow> sv_state v \<in> {Finished, Failed, Canceled}"

definition file_view :: "MissionFileInfo \<Rightarrow> FileView" where
  "file_view f =
     \<lparr>fv_id = fi_id (mf_info f), fv_name = fi_file_name (mf_info f), fv_size = fi_size (mf_info f),
      fv_transferred = 0, fv_state = mf_state f\<rparr>"

definition from_summary :: "SessionSummary \<Rightarrow> SessionView" where
  "from_summary s =
     \<lparr>sv_id = sm_id s, sv_direction = sm_direction s, sv_peer_alias = nd_alias (sm_peer s),
      sv_peer_addr = nd_address (sm_peer s) @ '':'' @ show_nat (unat (nd_port (sm_peer s))),
      sv_state = sm_state s, sv_files = map file_view (sm_files s), sv_fail_reason = None\<rparr>"

text \<open>\<open>if let Some(v) = xs.iter_mut().find(p) { f(v) }\<close>\<close>

primrec update_first :: "('a \<Rightarrow> bool) \<Rightarrow> ('a \<Rightarrow> 'a) \<Rightarrow> 'a list \<Rightarrow> 'a list" where
  "update_first p f [] = []"
| "update_first p f (x # xs) = (if p x then f x # xs else x # update_first p f xs)"

definition update_file :: "MissionFileInfo \<Rightarrow> FileView list \<Rightarrow> FileView list" where
  "update_file f vs =
     (if list_ex (\<lambda>v. fv_id v = fi_id (mf_info f)) vs
      then update_first (\<lambda>v. fv_id v = fi_id (mf_info f)) (\<lambda>v. v\<lparr>fv_state := mf_state f\<rparr>) vs
      else vs @ [file_view f])"

definition update_from_summary :: "SessionSummary \<Rightarrow> SessionView \<Rightarrow> SessionView" where
  "update_from_summary s v =
     v\<lparr>sv_state := sm_state s, sv_files := fold update_file (sm_files s) (sv_files v)\<rparr>"

fun view_event :: "SessionEvent \<Rightarrow> SessionView \<Rightarrow> SessionView" where
  "view_event (StateChanged st) v = v\<lparr>sv_state := st\<rparr>"
| "view_event (FileStateChanged fid st) v =
     (let v1 = v\<lparr>sv_files := update_first (\<lambda>w. fv_id w = fid) (\<lambda>w. w\<lparr>fv_state := st\<rparr>) (sv_files v)\<rparr>
      in case st of FFail msg \<Rightarrow> v1\<lparr>sv_fail_reason := Some msg\<rparr> | _ \<Rightarrow> v1)"
| "view_event (Progress fid bytes) v =
     v\<lparr>sv_files := update_first (\<lambda>w. fv_id w = fid) (\<lambda>w. w\<lparr>fv_transferred := bytes\<rparr>) (sv_files v)\<rparr>"
| "view_event (EvFailed reason) v = v\<lparr>sv_state := Failed, sv_fail_reason := Some reason\<rparr>"

section \<open>The application\<close>

datatype InputMode = NormalInput | AddingFile string

record UiApp =
  ui_devices :: "NodeDevice list"
  ui_sessions :: "SessionView list"
  ui_focus :: nat
  ui_pending_files :: "string list"
  ui_input :: InputMode
  ui_hidden :: "string set"
  ui_notice :: "string option"

definition new_ui :: "string list \<Rightarrow> UiApp" where
  "new_ui files =
     \<lparr>ui_devices = [], ui_sessions = [], ui_focus = 0, ui_pending_files = files, ui_input = NormalInput,
      ui_hidden = {}, ui_notice = None\<rparr>"

definition apply_devices :: "NodeDevice list \<Rightarrow> UiApp \<Rightarrow> UiApp" where
  "apply_devices devices a = a\<lparr>ui_devices := devices\<rparr>"

definition clamp_focus :: "UiApp \<Rightarrow> UiApp" where
  "clamp_focus a =
     (if ui_sessions a = [] then a\<lparr>ui_focus := 0\<rparr>
      else if ui_focus a \<ge> length (ui_sessions a) then a\<lparr>ui_focus := length (ui_sessions a) - 1\<rparr>
      else a)"

definition merge_summary :: "string set \<Rightarrow> SessionSummary \<Rightarrow> SessionView list \<Rightarrow> SessionView list" where
  "merge_summary hidden s vs =
     (if sm_id s \<in> hidden then vs
      else if list_ex (\<lambda>v. sv_id v = sm_id s) vs
      then update_first (\<lambda>v. sv_id v = sm_id s) (update_from_summary s) vs
      else vs @ [from_summary s])"

definition apply_index :: "SessionSummary list \<Rightarrow> UiApp \<Rightarrow> UiApp" where
  "apply_index index a =
     (let vs = fold (merge_summary (ui_hidden a)) index (ui_sessions a);
          kept = filter (\<lambda>v. sv_id v \<notin> ui_hidden a \<and> list_ex (\<lambda>s. sm_id s = sv_id v) index) vs
      in clamp_focus (a\<lparr>ui_sessions := kept\<rparr>))"

definition apply_event :: "string \<Rightarrow> SessionEvent \<Rightarrow> UiApp \<Rightarrow> UiApp" where
  "apply_event session_id event a =
     a\<lparr>ui_sessions := update_first (\<lambda>v. sv_id v = session_id) (view_event event) (ui_sessions a)\<rparr>"

definition focused :: "UiApp \<Rightarrow> SessionView option" where
  "focused a = (if ui_focus a < length (ui_sessions a) then Some (ui_sessions a ! ui_focus a) else None)"

text \<open>\<open>rem_euclid\<close> by a positive number is \<open>mod\<close>; the sum does not overflow for the steps of one the keys make.\<close>

definition cycle_focus :: "int \<Rightarrow> UiApp \<Rightarrow> UiApp" where
  "cycle_focus delta a =
     (if ui_sessions a = [] then a\<lparr>ui_focus := 0\<rparr>
      else a\<lparr>ui_focus := nat ((int (ui_focus a) + delta) mod int (length (ui_sessions a)))\<rparr>)"

definition clear_terminal :: "UiApp \<Rightarrow> UiApp \<times> nat" where
  "clear_terminal a =
     (let terminal = map sv_id (filter view_terminal (ui_sessions a));
          hidden = ui_hidden a \<union> set terminal
      in (clamp_focus (a\<lparr>ui_hidden := hidden, ui_sessions := filter (\<lambda>v. sv_id v \<notin> hidden) (ui_sessions a)\<rparr>),
          length terminal))"

definition stage_files :: "(string \<Rightarrow> bool) \<Rightarrow> string list \<Rightarrow> UiApp \<Rightarrow> UiApp \<times> string list" where
  "stage_files exists paths a =
     (a\<lparr>ui_pending_files := ui_pending_files a @ filter exists paths\<rparr>, filter (\<lambda>p. \<not> exists p) paths)"

definition pending_receive_count :: "UiApp \<Rightarrow> nat" where
  "pending_receive_count a = length (filter is_pending_receive (ui_sessions a))"

section \<open>Actions\<close>

datatype UiAction =
    UiDevices "NodeDevice list"
  | UiIndex "SessionSummary list"
  | UiEvent string SessionEvent
  | UiCycle int
  | UiClear
  | UiStage "string list" "string list"

fun ui_step :: "UiApp \<Rightarrow> UiAction \<Rightarrow> UiApp \<times> unit" where
  "ui_step a (UiDevices ds) = (apply_devices ds a, ())"
| "ui_step a (UiIndex index) = (apply_index index a, ())"
| "ui_step a (UiEvent i ev) = (apply_event i ev a, ())"
| "ui_step a (UiCycle d) = (cycle_focus d a, ())"
| "ui_step a UiClear = (fst (clear_terminal a), ())"
| "ui_step a (UiStage there paths) = (fst (stage_files (\<lambda>p. p \<in> set there) paths a), ())"

section \<open>Lemmas\<close>

lemma map_update_first: "(\<And>x. g (f x) = g x) \<Longrightarrow> map g (update_first p f xs) = map g xs"
  by (induction xs) auto

lemma find_update_first:
  assumes "\<And>x. key (f x) = key x"
  shows "find (\<lambda>v. key v = k) (update_first (\<lambda>v. key v = j) f xs) =
    (if j = k then map_option f (find (\<lambda>v. key v = k) xs) else find (\<lambda>v. key v = k) xs)"
  by (induction xs) (auto simp: assms)

lemma find_append: "find p (xs @ ys) = (case find p xs of None \<Rightarrow> find p ys | Some x \<Rightarrow> Some x)"
  by (induction xs) auto

lemma find_filter_key: "find (\<lambda>v. key v = k) (filter (\<lambda>v. q (key v)) xs) = (if q k then find (\<lambda>v. key v = k) xs else None)"
  by (induction xs) auto

lemma find_None_key: "find (\<lambda>v. key v = k) xs = None \<longleftrightarrow> k \<notin> key ` set xs"
  by (auto simp: find_None_iff)

lemma list_ex_find: "list_ex p xs \<longleftrightarrow> find p xs \<noteq> None"
  by (induction xs) auto

lemma list_ex_key: "list_ex (\<lambda>v. key v = k) xs \<longleftrightarrow> k \<in> key ` set xs"
  by (auto simp: list_ex_iff)

lemma sv_id_update [simp]: "sv_id (update_from_summary s v) = sv_id v" "sv_id (from_summary s) = sm_id s"
  by (simp_all add: update_from_summary_def from_summary_def)

lemma sv_id_event [simp]: "sv_id (view_event ev v) = sv_id v"
  by (cases ev) (auto simp: Let_def split: FileState.split)

text \<open>The card of a session.\<close>

definition view_of :: "SessionView list \<Rightarrow> string \<Rightarrow> SessionView option" where
  "view_of vs i = find (\<lambda>v. sv_id v = i) vs"

definition refreshed :: "SessionSummary \<Rightarrow> SessionView option \<Rightarrow> SessionView" where
  "refreshed s old = (case old of None \<Rightarrow> from_summary s | Some v \<Rightarrow> update_from_summary s v)"

lemma view_of_merge: "view_of (merge_summary h s vs) i =
    (if sm_id s = i \<and> i \<notin> h then Some (refreshed s (view_of vs i)) else view_of vs i)"
  by (cases "find (\<lambda>v. sv_id v = sm_id s) vs"; cases "find (\<lambda>v. sv_id v = i) vs")
    (auto simp: view_of_def merge_summary_def find_update_first list_ex_find find_append refreshed_def)

lemma ids_merge: "map sv_id (merge_summary h s vs) =
    map sv_id vs @ (if sm_id s \<in> h \<or> sm_id s \<in> sv_id ` set vs then [] else [sm_id s])"
  by (auto simp: merge_summary_def map_update_first list_ex_key)

lemma distinct_fold_merge: "distinct (map sv_id vs) \<Longrightarrow> distinct (map sv_id (fold (merge_summary h) index vs))"
  by (induction index arbitrary: vs) (simp_all add: ids_merge)

lemma view_of_fold: "distinct (map sm_id index) \<Longrightarrow> view_of (fold (merge_summary h) index vs) i =
    (case find (\<lambda>s. sm_id s = i) index of
       Some s \<Rightarrow> if i \<in> h then view_of vs i else Some (refreshed s (view_of vs i))
     | None \<Rightarrow> view_of vs i)"
proof (induction index arbitrary: vs)
  case (Cons s index)
  then have "find (\<lambda>t. sm_id t = sm_id s) index = None" by (simp add: find_None_key)
  then show ?case using Cons by (auto simp: view_of_merge split: option.split)
qed simp

lemma sessions_apply_index: "ui_sessions (apply_index index a) =
    filter (\<lambda>v. sv_id v \<notin> ui_hidden a \<and> sv_id v \<in> sm_id ` set index) (fold (merge_summary (ui_hidden a)) index (ui_sessions a))"
  by (simp add: apply_index_def Let_def clamp_focus_def list_ex_key)

lemma hidden_apply_index [simp]: "ui_hidden (apply_index index a) = ui_hidden a"
  by (simp add: apply_index_def Let_def clamp_focus_def)

text \<open>After a snapshot a session has a card exactly when it is in the snapshot and not hidden.\<close>

lemma view_of_apply_index:
  assumes "distinct (map sm_id index)"
  shows "view_of (ui_sessions (apply_index index a)) i =
    (case find (\<lambda>s. sm_id s = i) index of
       None \<Rightarrow> None
     | Some s \<Rightarrow> if i \<in> ui_hidden a then None else Some (refreshed s (view_of (ui_sessions a) i)))"
proof -
  have "view_of (filter (\<lambda>v. q (sv_id v)) vs) i = (if q i then view_of vs i else None)" for q vs
    unfolding view_of_def by (rule find_filter_key)
  from this [of "\<lambda>k. k \<notin> ui_hidden a \<and> k \<in> sm_id ` set index"]
  show ?thesis
    using view_of_fold [OF assms] by (auto simp: sessions_apply_index find_None_key split: option.split)
      (auto simp: find_Some_iff)
qed

section \<open>The invariant\<close>

definition ui_ok :: "UiApp \<Rightarrow> bool" where
  "ui_ok a \<longleftrightarrow> distinct (map sv_id (ui_sessions a)) \<and> sv_id ` set (ui_sessions a) \<inter> ui_hidden a = {} \<and>
     (if ui_sessions a = [] then ui_focus a = 0 else ui_focus a < length (ui_sessions a))"

lemma ui_ok_ids: "ui_ok a \<longleftrightarrow> (let ids = map sv_id (ui_sessions a) in
    distinct ids \<and> set ids \<inter> ui_hidden a = {} \<and> (if ids = [] then ui_focus a = 0 else ui_focus a < length ids))"
  by (simp add: ui_ok_def Let_def)

lemma focus_clamp [simp]:
  "ui_sessions (clamp_focus a) = ui_sessions a" "ui_hidden (clamp_focus a) = ui_hidden a"
  "if ui_sessions a = [] then ui_focus (clamp_focus a) = 0 else ui_focus (clamp_focus a) < length (ui_sessions a)"
  by (auto simp: clamp_focus_def)

lemma ui_ok_clamp: "ui_ok (clamp_focus a) \<longleftrightarrow>
    distinct (map sv_id (ui_sessions a)) \<and> sv_id ` set (ui_sessions a) \<inter> ui_hidden a = {}"
  using focus_clamp(3) [of a] by (auto simp: ui_ok_def)

lemma ui_ok_step:
  assumes "ui_ok a"
  shows "ui_ok (fst (ui_step a act))"
proof (cases act)
  case (UiIndex index)
  have "distinct (map sv_id (fold (merge_summary (ui_hidden a)) index (ui_sessions a)))"
    using assms by (intro distinct_fold_merge) (simp add: ui_ok_def)
  then show ?thesis
    using UiIndex by (auto simp: apply_index_def Let_def ui_ok_clamp distinct_map_filter)
next
  case (UiEvent i ev)
  have ids: "map sv_id (ui_sessions (apply_event i ev a)) = map sv_id (ui_sessions a)"
    by (simp add: apply_event_def map_update_first)
  have "ui_focus (apply_event i ev a) = ui_focus a" "ui_hidden (apply_event i ev a) = ui_hidden a"
    by (simp_all add: apply_event_def)
  then show ?thesis
    using UiEvent assms ids unfolding ui_ok_ids by (auto simp: Let_def split: if_splits)
next
  case (UiCycle d)
  then show ?thesis
    using assms by (auto simp: ui_ok_def cycle_focus_def nat_less_iff)
next
  case UiClear
  moreover have "distinct (map sv_id (ui_sessions a))" using assms by (simp add: ui_ok_def)
  ultimately show ?thesis
    by (auto simp: clear_terminal_def Let_def ui_ok_clamp distinct_map_filter)
qed (use assms in \<open>auto simp: ui_ok_def apply_devices_def stage_files_def\<close>)

interpretation ui: actor_invariant ui_step ui_ok
  by unfold_locales (rule ui_ok_step)

lemma hidden_step: "ui_hidden a \<subseteq> ui_hidden (fst (ui_step a act))"
  by (cases act) (auto simp: apply_devices_def apply_event_def cycle_focus_def clear_terminal_def stage_files_def Let_def)

interpretation ui_hiding: actor_order ui_step "\<lambda>a b. ui_hidden a \<subseteq> ui_hidden b"
  by unfold_locales (auto dest: subsetD [OF hidden_step])

lemma ui_ok_new [simp]: "ui_ok (new_ui files)"
  by (simp add: ui_ok_def new_ui_def)

lemma ui_reachable_ok: "reachable ui_step (\<lambda>_ _. True) (new_ui files) a \<Longrightarrow> ui_ok a"
  using ui.reachable_inv [of "new_ui files" a] by simp

text \<open>The published index of the core, searched by session id.\<close>

lemma find_index_list:
  assumes "session_inv gen c"
  shows "find (\<lambda>s. sm_id s = i) (index_list (a_sessions c)) = map_option summary (hget (a_sessions c) i)"
    and "distinct (map sm_id (index_list (a_sessions c)))"
proof -
  show dist: "distinct (map sm_id (index_list (a_sessions c)))" by (rule distinct_index_list [OF assms])
  have mem: "s \<in> set (index_list (a_sessions c)) \<longleftrightarrow> map_option summary (hget (a_sessions c) (sm_id s)) = Some s" for s
    using set_index_list [of "a_sessions c"] assms sess_wf_id [OF assms]
    by (auto simp: session_inv_def summary_def)
  have ids: "sm_id s = i" if "map_option summary (hget (a_sessions c) i) = Some s" for s
    using that sess_wf_id [OF assms] by (auto simp: summary_def)
  show "find (\<lambda>s. sm_id s = i) (index_list (a_sessions c)) = map_option summary (hget (a_sessions c) i)"
  proof (cases "map_option summary (hget (a_sessions c) i)")
    case None
    have "find (\<lambda>s. sm_id s = i) (index_list (a_sessions c)) = None"
      unfolding find_None_iff using None mem by force
    then show ?thesis using None by simp
  next
    case (Some s)
    have s: "s \<in> set (index_list (a_sessions c))" "sm_id s = i"
      using Some ids [OF Some] mem [of s] by (simp_all del: map_option_eq_Some)
    then obtain t where t: "find (\<lambda>s. sm_id s = i) (index_list (a_sessions c)) = Some t"
      by (cases "find (\<lambda>s. sm_id s = i) (index_list (a_sessions c))") (auto simp: find_None_iff)
    then have "t \<in> set (index_list (a_sessions c))" "sm_id t = i" by (auto simp: find_Some_iff)
    then have "t = s" using s dist by (metis distinct_map inj_onD)
    then show ?thesis using t Some by (simp del: map_option_eq_Some)
  qed
qed

lemma find_index:
  assumes "inj gen" "session_reachable gen mx c"
  shows "find (\<lambda>s. sm_id s = i) (watch_borrow (session_index gen c)) = get_session gen i c"
    and "distinct (map sm_id (watch_borrow (session_index gen c)))"
  using reachable_index [OF assms(2)] find_index_list [OF reachable_session_inv [OF assms]]
  by (simp_all add: session_index_def index_current_def get_session_def)

text \<open>Refreshing a card keeps the byte counters of its files.\<close>

lemma update_file_keeps:
  assumes "find (\<lambda>w. fv_id w = fid) vs = Some w"
  shows "\<exists>w'. find (\<lambda>w. fv_id w = fid) (update_file f vs) = Some w' \<and> fv_transferred w' = fv_transferred w"
  using assms find_update_first [of fv_id "\<lambda>v. v\<lparr>fv_state := mf_state f\<rparr>" fid "fi_id (mf_info f)" vs]
  by (auto simp: update_file_def find_append)

lemma fold_update_file_keeps:
  assumes "find (\<lambda>w. fv_id w = fid) vs = Some w"
  shows "\<exists>w'. find (\<lambda>w. fv_id w = fid) (fold update_file fs vs) = Some w' \<and> fv_transferred w' = fv_transferred w"
  using assms
proof (induction fs arbitrary: vs w)
  case (Cons f fs)
  then obtain w1 where "find (\<lambda>w. fv_id w = fid) (update_file f vs) = Some w1" "fv_transferred w1 = fv_transferred w"
    using update_file_keeps by blast
  then show ?case using Cons.IH by fastforce
qed simp

section \<open>Properties\<close>

text \<open>In every state the interface reaches, the cards have distinct ids, none of them is a session the
  user cleared, and the focus is on a card whenever there is one.\<close>

theorem ui_state_ok:
  "reachable ui_step (\<lambda>_ _. True) (new_ui files) a \<Longrightarrow>
     distinct (map sv_id (ui_sessions a)) \<and> sv_id ` set (ui_sessions a) \<inter> ui_hidden a = {} \<and>
     (focused a = None) = (ui_sessions a = [])"
  by (drule ui_reachable_ok) (auto simp: ui_ok_def focused_def split: if_splits)

text \<open>C38. The interface mirrors the core: after a snapshot of the published index it has a card for exactly
  the sessions of the core that the user has not cleared, each in the state the core has it in, and no
  card loses the byte counters it had.\<close>

theorem ui_mirrors_core:
  fixes a :: UiApp
  assumes "inj gen" "session_reachable gen mx c"
  defines "b \<equiv> apply_index (watch_borrow (session_index gen c)) a"
  shows "(view_of (ui_sessions b) i = None) = (get_session gen i c = None \<or> i \<in> ui_hidden a) \<and>
    (\<forall>v. view_of (ui_sessions b) i = Some v \<longrightarrow> map_option sm_state (get_session gen i c) = Some (sv_state v) \<and>
      (\<forall>old w. view_of (ui_sessions a) i = Some old \<and> find (\<lambda>w. fv_id w = fid) (sv_files old) = Some w \<longrightarrow>
        (\<exists>w'. find (\<lambda>w. fv_id w = fid) (sv_files v) = Some w' \<and> fv_transferred w' = fv_transferred w)))"
proof -
  note idx = find_index [OF assms(1,2)]
  have "view_of (ui_sessions b) i = (case get_session gen i c of None \<Rightarrow> None
      | Some s \<Rightarrow> if i \<in> ui_hidden a then None else Some (refreshed s (view_of (ui_sessions a) i)))"
    using view_of_apply_index [OF idx(2), of a i] by (simp add: b_def idx(1))
  moreover have "sv_state (refreshed s old) = sm_state s" for s old
    by (simp add: refreshed_def update_from_summary_def from_summary_def split: option.split)
  moreover have "\<exists>w'. find (\<lambda>w. fv_id w = fid) (sv_files (refreshed s (Some old))) = Some w' \<and> fv_transferred w' = fv_transferred w"
    if "find (\<lambda>w. fv_id w = fid) (sv_files old) = Some w" for s old w
    using fold_update_file_keeps [OF that] by (simp add: refreshed_def update_from_summary_def)
  ultimately show ?thesis by (auto split: option.splits if_splits)
qed

text \<open>Clearing removes exactly the cards of ended sessions, and none of them comes back, whatever
  snapshots and events follow.\<close>

theorem cleared_stay_cleared:
  assumes "reachable ui_step (\<lambda>_ _. True) (new_ui files) a" "clear_terminal a = (b, n)"
  shows "ui_sessions b = filter (\<lambda>v. \<not> view_terminal v) (ui_sessions a) \<and>
    n = length (ui_sessions a) - length (ui_sessions b) \<and>
    (\<forall>v \<in> set (ui_sessions a). view_terminal v \<longrightarrow> sv_id v \<notin> sv_id ` set (ui_sessions (fst (run_actor ui_step b acts))))"
proof -
  have ok: "ui_ok a" by (rule ui_reachable_ok [OF assms(1)])
  then have dist: "distinct (map sv_id (ui_sessions a))" and vis: "sv_id ` set (ui_sessions a) \<inter> ui_hidden a = {}"
    by (simp_all add: ui_ok_def)
  have b: "ui_sessions b = filter (\<lambda>v. sv_id v \<notin> ui_hidden b) (ui_sessions a)"
      "ui_hidden b = ui_hidden a \<union> sv_id ` {v \<in> set (ui_sessions a). view_terminal v}"
      "n = length (filter view_terminal (ui_sessions a))"
    using assms(2) by (auto simp: clear_terminal_def Let_def)
  have "sv_id v \<in> ui_hidden b \<longleftrightarrow> view_terminal v" if "v \<in> set (ui_sessions a)" for v
    using that vis dist b(2) by (auto simp: distinct_map dest: inj_onD)
  then have eq: "ui_sessions b = filter (\<lambda>v. \<not> view_terminal v) (ui_sessions a)"
    unfolding b(1) by (intro filter_cong) auto
  have "ui_ok b" using ui_ok_step [OF ok, of UiClear] assms(2) by simp
  then have "ui_ok (fst (run_actor ui_step b acts))" by (intro ui.run_inv) simp_all
  moreover have "ui_hidden b \<subseteq> ui_hidden (fst (run_actor ui_step b acts))" by (rule ui_hiding.le_run)
  ultimately have "sv_id v \<notin> sv_id ` set (ui_sessions (fst (run_actor ui_step b acts)))"
    if "v \<in> set (ui_sessions a)" "view_terminal v" for v
    using that b(2) unfolding ui_ok_def by blast
  moreover have "length (filter view_terminal (ui_sessions a)) = length (ui_sessions a) - length (ui_sessions b)"
    using sum_length_filter_compl [of view_terminal "ui_sessions a"] by (simp add: eq)
  ultimately show ?thesis using eq b(3) by simp
qed

section \<open>Witnesses\<close>

definition sample_ui :: UiApp where
  "sample_ui = apply_index (watch_borrow (session_index sample_gen sample_failed)) (new_ui [])"

lemma sample_ui_reachable: "reachable ui_step (\<lambda>_ _. True) (new_ui []) sample_ui"
proof -
  have "reachable ui_step (\<lambda>_ _. True) (new_ui [])
      (fst (ui_step (new_ui []) (UiIndex (watch_borrow (session_index sample_gen sample_failed)))))"
    by (intro reachable.intros) auto
  then show ?thesis by (simp add: sample_ui_def)
qed

theorem ui_state_ok_witness: "(focused sample_ui = None) = (ui_sessions sample_ui = [])"
  using ui_state_ok [OF sample_ui_reachable] by simp

theorem ui_mirrors_core_witness:
  "\<exists>v. view_of (ui_sessions (apply_index (watch_borrow (session_index sample_gen sample_state)) (new_ui []))) ''u'' = Some v \<and>
    sv_state v = Pending"
proof -
  have st: "map_option sm_state (get_session sample_gen ''u'' sample_state) = Some Pending" by code_simp
  have "ui_hidden (new_ui []) = {}" by (simp add: new_ui_def)
  then show ?thesis
    using ui_mirrors_core [OF inj_sample_gen sample_reachable, of "new_ui []" "''u''"] st
    by (cases "view_of (ui_sessions (apply_index (watch_borrow (session_index sample_gen sample_state)) (new_ui []))) ''u''") auto
qed

theorem cleared_stay_cleared_witness:
  "ui_sessions (fst (clear_terminal sample_ui)) = filter (\<lambda>v. \<not> view_terminal v) (ui_sessions sample_ui) \<and>
   snd (clear_terminal sample_ui) = length (ui_sessions sample_ui) - length (ui_sessions (fst (clear_terminal sample_ui)))"
  using cleared_stay_cleared [OF sample_ui_reachable prod.collapse [symmetric]] by blast

end
