(* ===== verification/Cli_Config.thy ===== *)
theory Cli_Config
  imports Config
begin

text \<open>
  The settings of the command line program: \<open>src/rust/cli/src/config.rs\<close>, and the device and core
  configuration \<open>src/rust/cli/src/main.rs\<close> derives from them.

  TOML is library code: \<open>te_parse\<close> and \<open>te_print\<close> are the parser and the printer.  The one file the
  functions work on is an optional text; \<open>te_read\<close> is the I/O error of reading it when it exists, if
  there is one, and \<open>te_write\<close> the error of creating its directory or writing it.
\<close>

definition DEFAULT_PORT :: u16 where
  "DEFAULT_PORT = 53317"

record RelayFileConfig =
  rf_addr :: string
  rf_secret :: string

record FileConfig =
  fc_alias :: "string option"
  fc_port :: "u16 option"
  fc_destination :: "string option"
  fc_fingerprint :: "string option"
  fc_relay :: "RelayFileConfig option"

definition empty_file_config :: FileConfig where
  "empty_file_config =
     \<lparr>fc_alias = None, fc_port = None, fc_destination = None, fc_fingerprint = None, fc_relay = None\<rparr>"

record EffectiveConfig =
  ec_alias :: string
  ec_port :: u16
  ec_destination :: string
  ec_fingerprint :: string
  ec_relay :: "RelayFileConfig option"

record CliOverrides =
  ov_alias :: "string option"
  ov_port :: "u16 option"
  ov_destination :: "string option"

record TomlEnv =
  te_parse :: "string \<Rightarrow> FileConfig option"
  te_print :: "FileConfig \<Rightarrow> string option"
  te_read :: "string option"
  te_write :: "string option"
  te_path :: string
  te_destination :: string

definition load_config :: "TomlEnv \<Rightarrow> string option \<Rightarrow> string + FileConfig" where
  "load_config env file =
     (case file of
        None \<Rightarrow> Inr empty_file_config
      | Some text \<Rightarrow>
          (case te_read env of
             Some e \<Rightarrow> Inl (''failed to read '' @ te_path env)
           | None \<Rightarrow>
               (case te_parse env text of
                  None \<Rightarrow> Inl (''failed to parse '' @ te_path env)
                | Some c \<Rightarrow> Inr c)))"

definition save_config :: "TomlEnv \<Rightarrow> FileConfig \<Rightarrow> string option \<Rightarrow> string option \<times> (string + unit)" where
  "save_config env config file =
     (case te_print env config of
        None \<Rightarrow> (file, Inl ''failed to serialize config'')
      | Some text \<Rightarrow>
          (case te_write env of
             Some e \<Rightarrow> (file, Inl (''failed to write '' @ te_path env))
           | None \<Rightarrow> (Some text, Inr ())))"

text \<open>\<open>s.chars().take(n)\<close>, on UTF-8 bytes.\<close>

fun take_chars :: "nat \<Rightarrow> string \<Rightarrow> string" where
  "take_chars 0 s = []"
| "take_chars (Suc n) [] = []"
| "take_chars (Suc n) (c # s) =
     (let k = max 1 (seq_len (byte_of_char c)) in take k (c # s) @ take_chars n (drop (k - 1) s))"

definition default_alias :: "string \<Rightarrow> string" where
  "default_alias fingerprint = ''localsend-cli-'' @ take_chars 4 fingerprint"

definition first_of :: "'a option \<Rightarrow> 'a option \<Rightarrow> 'a \<Rightarrow> 'a" where
  "first_of x y d = (case x of Some v \<Rightarrow> v | None \<Rightarrow> (case y of Some v \<Rightarrow> v | None \<Rightarrow> d))"

definition resolve :: "TomlEnv \<Rightarrow> string \<Rightarrow> CliOverrides \<Rightarrow> FileConfig \<Rightarrow> EffectiveConfig" where
  "resolve env uuid overrides file =
     (let fingerprint = (case fc_fingerprint file of Some f \<Rightarrow> f | None \<Rightarrow> uuid) in
      \<lparr>ec_alias = first_of (ov_alias overrides) (fc_alias file) (default_alias fingerprint),
       ec_port = first_of (ov_port overrides) (fc_port file) DEFAULT_PORT,
       ec_destination = first_of (ov_destination overrides) (fc_destination file) (te_destination env),
       ec_fingerprint = fingerprint,
       ec_relay = fc_relay file\<rparr>)"

definition load_effective ::
  "TomlEnv \<Rightarrow> string \<Rightarrow> CliOverrides \<Rightarrow> string option \<Rightarrow> string option \<times> (string + EffectiveConfig)" where
  "load_effective env uuid overrides disk =
     (case load_config env disk of
        Inl e \<Rightarrow> (disk, Inl e)
      | Inr file0 \<Rightarrow>
          let file = (if fc_fingerprint file0 = None then file0\<lparr>fc_fingerprint := Some uuid\<rparr> else file0);
              effective = resolve env uuid overrides file
          in if disk = None then
               (case save_config env file disk of
                  (disk', Inl e) \<Rightarrow> (disk', Inl e)
                | (disk', Inr _) \<Rightarrow> (disk', Inr effective))
             else
               (case load_config env disk of
                  Inl e \<Rightarrow> (disk, Inl e)
                | Inr on_disk \<Rightarrow>
                    if fc_fingerprint on_disk = None then
                      (case save_config env file disk of
                         (disk', Inl e) \<Rightarrow> (disk', Inl e)
                       | (disk', Inr _) \<Rightarrow> (disk', Inr effective))
                    else (disk, Inr effective)))"

section \<open>The device and the core configuration\<close>

definition build_device :: "EffectiveConfig \<Rightarrow> NodeDevice" where
  "build_device config =
     \<lparr>nd_alias = ec_alias config, nd_version = PROTOCOL_VERSION, nd_device_model = ''cli'',
      nd_device_type = ''headless'', nd_fingerprint = ec_fingerprint config, nd_address = ''0.0.0.0'',
      nd_port = ec_port config, nd_protocol = ''http'', nd_download = True, nd_announcement = True,
      nd_announce = True, nd_discovery_source = ''lan''\<rparr>"

definition cli_core_config :: "EffectiveConfig \<Rightarrow> string option \<Rightarrow> CoreConfig" where
  "cli_core_config effective identity_dir =
     default_config\<lparr>cc_port := ec_port effective, cc_store_path := ec_destination effective,
       cc_relay_addr := map_option rf_addr (ec_relay effective),
       cc_relay_secret := map_option rf_secret (ec_relay effective),
       cc_identity_dir := identity_dir\<rparr>"

section \<open>Properties\<close>

text \<open>What a save writes, a load reads back.\<close>

lemma load_saved:
  assumes "save_config env c disk = (disk', Inr u)" "\<forall>c t. te_print env c = Some t \<longrightarrow> te_parse env t = Some c" "te_read env = None"
  shows "load_config env disk' = Inr c \<and> disk' \<noteq> None"
proof -
  obtain t where "te_print env c = Some t" "disk' = Some t"
    using assms(1) by (cases "te_print env c"; cases "te_write env") (auto simp: save_config_def)
  then show ?thesis using assms(2,3) by (simp add: load_config_def)
qed

lemma load_effective_loads:
  assumes "load_effective env uuid ov disk = (disk', Inr eff)"
    and "\<forall>c t. te_print env c = Some t \<longrightarrow> te_parse env t = Some c" "te_read env = None"
  obtains c where "load_config env disk' = Inr c" "disk' \<noteq> None" "fc_fingerprint c \<noteq> None" "eff = resolve env uuid ov c"
proof -
  obtain file0 where f0: "load_config env disk = Inr file0"
    using assms(1) by (cases "load_config env disk") (auto simp: load_effective_def)
  define cfg where "cfg = (if fc_fingerprint file0 = None then file0\<lparr>fc_fingerprint := Some uuid\<rparr> else file0)"
  have fp: "fc_fingerprint cfg \<noteq> None" by (simp add: cfg_def)
  have eq: "load_effective env uuid ov disk =
      (if disk = None \<or> fc_fingerprint file0 = None then
         (case save_config env cfg disk of
            (d, Inl e) \<Rightarrow> (d, Inl e) | (d, Inr _) \<Rightarrow> (d, Inr (resolve env uuid ov cfg)))
       else (disk, Inr (resolve env uuid ov cfg)))"
    using f0 by (auto simp: load_effective_def cfg_def Let_def)
  show ?thesis
  proof (cases "disk = None \<or> fc_fingerprint file0 = None")
    case True
    then obtain u where "save_config env cfg disk = (disk', Inr u)" "eff = resolve env uuid ov cfg"
      using assms(1) unfolding eq by (auto split: sum.splits prod.splits)
    then show ?thesis using that load_saved [OF _ assms(2,3)] fp by blast
  next
    case False
    then have "disk' = disk" "eff = resolve env uuid ov cfg" "cfg = file0"
      using assms(1) unfolding eq by (auto simp: cfg_def)
    then show ?thesis using that f0 False fp by blast
  qed
qed

text \<open>The identity of a command line device survives restarts: once a run has succeeded, every later
  run on the same file, with any options and whatever identifier it would draw, has the same
  fingerprint and leaves the file as it is; and an option always wins over the file.\<close>

theorem cli_identity_stable:
  assumes "load_effective env uuid ov disk = (disk', Inr eff)"
    and "\<forall>c t. te_print env c = Some t \<longrightarrow> te_parse env t = Some c" "te_read env = None"
  shows "\<exists>eff'. load_effective env uuid' ov' disk' = (disk', Inr eff') \<and>
      ec_fingerprint eff' = ec_fingerprint eff \<and> ec_relay eff' = ec_relay eff \<and>
      (case ov_alias ov' of None \<Rightarrow> True | Some a \<Rightarrow> ec_alias eff' = a) \<and>
      (case ov_port ov' of None \<Rightarrow> True | Some p \<Rightarrow> nd_port (build_device eff') = p \<and> cc_port (cli_core_config eff' dir) = p)"
proof -
  obtain c where l: "load_config env disk' = Inr c" "disk' \<noteq> None" "fc_fingerprint c \<noteq> None" "eff = resolve env uuid ov c"
    using load_effective_loads [OF assms] .
  then have c: "fc_fingerprint c = Some (ec_fingerprint eff)" "fc_relay c = ec_relay eff"
    by (auto simp: resolve_def)
  from l have "load_effective env uuid' ov' disk' = (disk', Inr (resolve env uuid' ov' c))"
    by (auto simp: load_effective_def Let_def)
  then show ?thesis
    using c by (auto simp: resolve_def first_of_def build_device_def cli_core_config_def Let_def split: option.split)
qed

definition sample_toml :: TomlEnv where
  "sample_toml = \<lparr>te_parse = (\<lambda>t. Some (empty_file_config\<lparr>fc_fingerprint := Some t\<rparr>)),
     te_print = (\<lambda>c. case fc_fingerprint c of
                       None \<Rightarrow> None
                     | Some t \<Rightarrow> if c = empty_file_config\<lparr>fc_fingerprint := Some t\<rparr> then Some t else None),
     te_read = None, te_write = None, te_path = ''config.toml'', te_destination = ''/tmp''\<rparr>"

theorem cli_identity_stable_witness:
  "\<exists>eff'. load_effective sample_toml ''v'' \<lparr>ov_alias = Some ''desk'', ov_port = None, ov_destination = None\<rparr> (Some ''u'') =
       (Some ''u'', Inr eff') \<and> ec_fingerprint eff' = ''u'' \<and> ec_alias eff' = ''desk''"
proof -
  have run: "load_effective sample_toml ''u'' \<lparr>ov_alias = None, ov_port = None, ov_destination = None\<rparr> None =
      (Some ''u'', Inr \<lparr>ec_alias = default_alias ''u'', ec_port = DEFAULT_PORT, ec_destination = ''/tmp'',
        ec_fingerprint = ''u'', ec_relay = None\<rparr>)"
    by (simp add: load_effective_def load_config_def save_config_def resolve_def first_of_def sample_toml_def
        empty_file_config_def Let_def)
  have "\<forall>c t. te_print sample_toml c = Some t \<longrightarrow> te_parse sample_toml t = Some c" "te_read sample_toml = None"
    by (auto simp: sample_toml_def split: option.splits if_splits)
  from cli_identity_stable [OF run this, of "''v''" "\<lparr>ov_alias = Some ''desk'', ov_port = None, ov_destination = None\<rparr>"]
  show ?thesis by auto
qed

end
