(* ===== verification/Panel_Coturn.thy ===== *)
theory Panel_Coturn
  imports Http_Text
begin

text \<open>
  The panel's client of the coturn admin console, \<open>src/rust/relay-panel/src/cli.rs\<close>, and its reader of
  the Prometheus metrics, \<open>src/rust/relay-panel/src/collector.rs\<close>.

  The console is present as the lines a connection delivers: \<open>Inl\<close> the error of a read (a time-out
  included) or \<open>Inr\<close> the line, empty at the end of the stream.  \<open>lower\<close> is \<open>str::to_lowercase\<close>.
\<close>

record PanelConfig =
  pc_admin_password :: string
  pc_relay_secret :: string
  pc_relay_public_addr :: string
  pc_prom_url :: string
  pc_cli_addr :: string
  pc_cli_password :: string

section \<open>Commands\<close>

type_synonym console = "(string + string) list"

text \<open>The text up to the cursor (or the error), and what is left of the stream.\<close>

fun read_prompt :: "string \<Rightarrow> console \<Rightarrow> (string + string) \<times> console" where
  "read_prompt out [] = (Inr out, [])"
| "read_prompt out (Inl e # rs) = (Inl e, rs)"
| "read_prompt out (Inr line # rs) =
     (if line = [] then (Inr out, rs)
      else
        let trimmed = str_trim_end line in
        if ends_with trimmed ''>'' then (Inr (out @ rev (dropWhile (\<lambda>c. c = CHR ''>'') (rev trimmed))), rs)
        else read_prompt (out @ trimmed @ [lf]) rs)"

text \<open>\<open>conn\<close> is the error of connecting or writing, or the lines that follow the bytes written.\<close>

definition run_command :: "(string list \<Rightarrow> string + console) \<Rightarrow> PanelConfig \<Rightarrow> string \<Rightarrow> string + string" where
  "run_command conn cfg cmd =
     (let login = pc_cli_password cfg \<noteq> [] in
      case conn ((if login then [pc_cli_password cfg @ [lf]] else []) @ [cmd @ [lf]]) of
        Inl e \<Rightarrow> Inl e
      | Inr rs \<Rightarrow> fst (read_prompt [] (if login then snd (read_prompt [] rs) else rs)))"

section \<open>Sessions\<close>

record CoturnSession =
  cs_id :: string
  cs_user :: string
  cs_transport :: string
  cs_received_bytes :: u64
  cs_sent_bytes :: u64
  cs_rate :: string
  cs_peers :: string

definition is_hexdigit :: "char \<Rightarrow> bool" where
  "is_hexdigit c \<longleftrightarrow>
     (let n = (of_char c :: nat) in (48 \<le> n \<and> n \<le> 57) \<or> (65 \<le> n \<and> n \<le> 70) \<or> (97 \<le> n \<and> n \<le> 102))"

text \<open>The header of a session: the line without its final colon, which starts with a hexadecimal digit.\<close>

definition ps_header :: "string \<Rightarrow> string option" where
  "ps_header line =
     (case strip_suffix line '':'' of
        None \<Rightarrow> None
      | Some h \<Rightarrow> (case h of [] \<Rightarrow> None | c # _ \<Rightarrow> if is_hexdigit c then Some h else None))"

definition header_part :: "string \<Rightarrow> CoturnSession \<Rightarrow> CoturnSession" where
  "header_part part s =
     (case strip_prefix part ''user='' of
        Some v \<Rightarrow> s\<lparr>cs_user := v\<rparr>
      | None \<Rightarrow>
          (case strip_prefix part ''transport='' of
             Some v \<Rightarrow> s\<lparr>cs_transport := v\<rparr>
           | None \<Rightarrow> if CHR ''='' \<notin> set part \<and> list_all is_hexdigit part then s\<lparr>cs_id := part\<rparr> else s))"

definition header_session :: "string \<Rightarrow> CoturnSession" where
  "header_session rest =
     fold header_part (split_whitespace rest)
       \<lparr>cs_id = [], cs_user = [], cs_transport = [], cs_received_bytes = 0, cs_sent_bytes = 0,
        cs_rate = [], cs_peers = []\<rparr>"

definition or_zero :: "u64 option \<Rightarrow> u64" where
  "or_zero x = (case x of None \<Rightarrow> 0 | Some v \<Rightarrow> v)"

definition usage_part :: "string \<Rightarrow> CoturnSession \<Rightarrow> CoturnSession" where
  "usage_part kv s =
     (let kv = str_trim kv in
      case strip_prefix kv ''rb='' of
        Some v \<Rightarrow> s\<lparr>cs_received_bytes := or_zero (parse_u64 v)\<rparr>
      | None \<Rightarrow>
          (case strip_prefix kv ''sb='' of
             Some v \<Rightarrow> s\<lparr>cs_sent_bytes := or_zero (parse_u64 v)\<rparr>
           | None \<Rightarrow> s))"

definition add_peer :: "string \<Rightarrow> CoturnSession \<Rightarrow> CoturnSession" where
  "add_peer p s = s\<lparr>cs_peers := (if cs_peers s = [] then p else cs_peers s @ '', '' @ p)\<rparr>"

type_synonym ps_state = "CoturnSession list \<times> CoturnSession option"

definition ps_line :: "string \<Rightarrow> ps_state \<Rightarrow> ps_state" where
  "ps_line raw st =
     (let line = str_trim raw; (sessions, current) = st in
      case ps_header line of
        Some rest \<Rightarrow> (sessions @ (case current of None \<Rightarrow> [] | Some c \<Rightarrow> [c]), Some (header_session rest))
      | None \<Rightarrow>
          (case strip_prefix line ''usage:'' of
             Some rest \<Rightarrow> (sessions, map_option (fold usage_part (split_char (CHR '','') rest)) current)
           | None \<Rightarrow>
               (case strip_prefix line ''rate:'' of
                  Some rest \<Rightarrow> (sessions, map_option (\<lambda>c. c\<lparr>cs_rate := str_trim rest\<rparr>) current)
                | None \<Rightarrow>
                    (case strip_prefix line ''peer:'' of
                       Some rest \<Rightarrow> (sessions, map_option (add_peer (str_trim rest)) current)
                     | None \<Rightarrow> (sessions, current)))))"

definition parse_ps :: "string \<Rightarrow> CoturnSession list" where
  "parse_ps raw =
     (case fold ps_line (str_lines raw) ([], None) of
        (sessions, current) \<Rightarrow> sessions @ (case current of None \<Rightarrow> [] | Some c \<Rightarrow> [c]))"

definition list_sessions :: "(string list \<Rightarrow> string + console) \<Rightarrow> PanelConfig \<Rightarrow> string + CoturnSession list" where
  "list_sessions conn cfg = (case run_command conn cfg ''ps'' of Inl e \<Rightarrow> Inl e | Inr raw \<Rightarrow> Inr (parse_ps raw))"

definition kick :: "(string \<Rightarrow> string) \<Rightarrow> (string list \<Rightarrow> string + console) \<Rightarrow> PanelConfig \<Rightarrow> string \<Rightarrow> string + unit" where
  "kick lower conn cfg sid =
     (if \<not> list_all is_hexdigit sid then Inl ''bad session id''
      else
        case run_command conn cfg (''cs '' @ sid) of
          Inl e \<Rightarrow> Inl e
        | Inr out \<Rightarrow> if str_contains (lower out) ''error'' then Inl (str_trim out) else Inr ())"

section \<open>Metrics\<close>

record Live =
  lv_allocations_udp :: int
  lv_allocations_tcp :: int
  lv_traffic_rcvd :: int
  lv_traffic_sent :: int
  lv_prom_ok :: bool

definition live_default :: Live where
  "live_default =
     \<lparr>lv_allocations_udp = 0, lv_allocations_tcp = 0, lv_traffic_rcvd = 0, lv_traffic_sent = 0, lv_prom_ok = False\<rparr>"

text \<open>\<open>s.parse::<i64>()\<close>\<close>

definition parse_i64 :: "string \<Rightarrow> int option" where
  "parse_i64 s =
     (case s of
        c # r \<Rightarrow>
          if c = CHR ''-'' then
            (if r \<noteq> [] \<and> list_all is_digit r \<and> digits_val r \<le> 9223372036854775808 then Some (- int (digits_val r)) else None)
          else map_option int (parse_uint 9223372036854775807 s)
      | [] \<Rightarrow> None)"

definition prom_value :: "string \<Rightarrow> string \<Rightarrow> Live \<Rightarrow> Live" where
  "prom_value name value l =
     (let v = (case parse_i64 value of None \<Rightarrow> 0 | Some v \<Rightarrow> v) in
      if starts_with name ''turn_total_allocations'' then
        (if str_contains name ''type=\"udp\"'' then l\<lparr>lv_allocations_udp := v\<rparr>
         else if str_contains name ''type=\"tcp\"'' then l\<lparr>lv_allocations_tcp := v\<rparr>
         else l)
      else
        case strip_prefix name ''turn_total_traffic_rcvb'' of
          Some rest \<Rightarrow> if rest = [] \<or> starts_with rest ''{'' then l\<lparr>lv_traffic_rcvd := v\<rparr> else l
        | None \<Rightarrow>
            (case strip_prefix name ''turn_total_traffic_sentb'' of
               Some rest \<Rightarrow> if rest = [] \<or> starts_with rest ''{'' then l\<lparr>lv_traffic_sent := v\<rparr> else l
             | None \<Rightarrow> l))"

definition prom_line :: "string \<Rightarrow> Live \<Rightarrow> Live" where
  "prom_line line l =
     (if starts_with line ''#'' then l
      else case split_whitespace line of
        name # value # _ \<Rightarrow> prom_value name value l
      | _ \<Rightarrow> l)"

text \<open>\<open>None\<close> is any failure of the request, its status or its body.\<close>

definition fetch_live :: "string option \<Rightarrow> Live" where
  "fetch_live body =
     (case body of
        None \<Rightarrow> live_default
      | Some text \<Rightarrow> fold prom_line (str_lines text) (live_default\<lparr>lv_prom_ok := True\<rparr>))"

section \<open>Lemmas\<close>

lemma ps_line_count:
  "case (fold ps_line ls (ss, cur)) of (ss', cur') \<Rightarrow>
     length ss' + (case cur' of None \<Rightarrow> 0 | Some _ \<Rightarrow> 1) =
     length ss + (case cur of None \<Rightarrow> 0 | Some _ \<Rightarrow> 1) + length (filter (\<lambda>l. ps_header (str_trim l) \<noteq> None) ls)"
proof (induction ls arbitrary: ss cur)
  case (Cons l ls)
  obtain ss1 cur1 where st: "ps_line l (ss, cur) = (ss1, cur1)" by fastforce
  have "length ss1 + (case cur1 of None \<Rightarrow> 0 | Some _ \<Rightarrow> 1) =
      length ss + (case cur of None \<Rightarrow> 0 | Some _ \<Rightarrow> 1) + (if ps_header (str_trim l) \<noteq> None then 1 else 0)"
    using st by (auto simp: ps_line_def Let_def split: option.splits)
  then show ?case using Cons.IH [of ss1 cur1] st by (auto split: prod.splits)
qed simp

text \<open>The console output of the comment at \<open>list_sessions\<close>.\<close>

definition documented_ps :: string where
  "documented_ps =
     ''000000000000000001: user=alice realm=localsend origin=<unknown> transport=tcp'' @ [lf] @
     ''  usage: rp=3, rb=1024, sp=2, sb=512'' @ [lf] @ ''  rate: 0 r/s, 0 total bytes per s'' @ [lf] @
     ''  peer: 10.0.0.5:53317'' @ [lf]"

lemma documented_headers: "list_all (\<lambda>l. ps_header (str_trim l) = None) (str_lines documented_ps)"
  by code_simp

section \<open>Properties\<close>

text \<open>The session list has one entry for every line that ends with a colon and starts with a hexadecimal
  digit, and no other.  In the output format documented in the source no line does, so the list of a
  console that answers in that format is empty.\<close>

theorem ps_sessions_counted:
  "length (parse_ps raw) = length (filter (\<lambda>l. ps_header (str_trim l) \<noteq> None) (str_lines raw)) \<and>
   parse_ps documented_ps = []"
proof -
  have len: "length (parse_ps t) = length (filter (\<lambda>l. ps_header (str_trim l) \<noteq> None) (str_lines t))" for t
    using ps_line_count [of "[]" None "str_lines t"]
    by (auto simp: parse_ps_def split: prod.splits option.splits)
  have "filter (\<lambda>l. ps_header (str_trim l) \<noteq> None) (str_lines documented_ps) = []"
    using documented_headers by (auto simp: list_all_iff filter_empty_conv)
  then have "length (parse_ps documented_ps) = 0" by (simp only: len list.size)
  then show ?thesis using len by blast
qed

end
