(* ===== verification/Panel_Pages.thy ===== *)
theory Panel_Pages
  imports Panel_Coturn "HOL-Library.Signed_Division"
begin

text \<open>
  What the pages of the panel show, \<open>src/rust/relay-panel/src/pages.rs\<close> and \<open>store_time\<close> of
  \<open>src/rust/relay-panel/src/lib.rs\<close>: HTML escaping, the percent encoding of the configuration link, the
  columns of the traffic chart and the time labels.

  The surrounding markup is fixed text and is left out, as are the coordinates of the bars, which are
  floating point numbers.  \<open>i64\<close> values are integers; sums and differences wrap as \<open>i64\<close> does.
\<close>

section \<open>Escaping\<close>

text \<open>\<open>s.replace(c, r)\<close>\<close>

definition replace_char :: "char \<Rightarrow> string \<Rightarrow> string \<Rightarrow> string" where
  "replace_char c r s = concat (map (\<lambda>x. if x = c then r else [x]) s)"

definition esc :: "string \<Rightarrow> string" where
  "esc s =
     replace_char (CHR 0x22) ''&quot;''
       (replace_char (CHR ''>'') ''&gt;'' (replace_char (CHR ''<'') ''&lt;'' (replace_char (CHR ''&'') ''&amp;'' s)))"

section \<open>Percent encoding\<close>

definition unreserved :: "u8 \<Rightarrow> bool" where
  "unreserved b \<longleftrightarrow>
     (0x41 \<le> b \<and> b \<le> 0x5A) \<or> (0x61 \<le> b \<and> b \<le> 0x7A) \<or> (0x30 \<le> b \<and> b \<le> 0x39) \<or>
     b = 0x2D \<or> b = 0x5F \<or> b = 0x2E \<or> b = 0x7E"

text \<open>\<open>{b:02X}\<close>\<close>

definition hex_upper :: "nat \<Rightarrow> char" where
  "hex_upper n = char_of (if n < 10 then 48 + n else 55 + n)"

definition percent_hex :: "u8 \<Rightarrow> string" where
  "percent_hex b = [hex_upper (unat b div 16), hex_upper (unat b mod 16)]"

definition urlencode :: "string \<Rightarrow> string" where
  "urlencode s = concat (map (\<lambda>b. if unreserved b then [char_of_byte b] else CHR ''%'' # percent_hex b) (as_bytes s))"

definition issue_link :: "PanelConfig \<Rightarrow> string" where
  "issue_link cfg =
     ''localsend-relay://configure?addr='' @ urlencode (pc_relay_public_addr cfg) @
     ''&secret='' @ urlencode (pc_relay_secret cfg)"

section \<open>Times and durations\<close>

text \<open>\<open>{:0w}\<close> of a number that is not negative\<close>

definition pad_nat :: "nat \<Rightarrow> nat \<Rightarrow> string" where
  "pad_nat w n = replicate (w - length (show_nat n)) (CHR ''0'') @ show_nat n"

definition store_time :: "int \<Rightarrow> string" where
  "store_time t =
     (let secs = nat (max t 0); days = secs div 86400; time_of_day = secs mod 86400 in
      pad_nat 4 (1970 + days div 365) @ ''-'' @ pad_nat 2 (1 + days mod 365 div 30) @ ''-'' @
      pad_nat 2 (1 + days mod 30) @ '' '' @ pad_nat 2 (time_of_day div 3600) @ '':'' @
      pad_nat 2 (time_of_day mod 3600 div 60))"

datatype duration = Days u64 | Hours u64 | Minutes u64

definition human_duration :: "u64 \<Rightarrow> duration" where
  "human_duration secs =
     (if secs \<ge> 86400 then Days (secs div 86400)
      else if secs \<ge> 3600 then Hours (secs div 3600)
      else Minutes (secs div 60))"

section \<open>The traffic chart\<close>

text \<open>Arithmetic of \<open>i64\<close> without overflow checks, and \<open>u64::saturating_add\<close>.\<close>

definition wrap_i64 :: "int \<Rightarrow> int" where
  "wrap_i64 x = sint (word_of_int x :: 64 word)"

definition sat_add_u64 :: "nat \<Rightarrow> nat \<Rightarrow> nat" where
  "sat_add_u64 a b = min (a + b) (2 ^ 64 - 1)"

text \<open>The state of the loop: the finished columns, the last counters, the open column and its sum.\<close>

record Trend =
  tr_deltas :: "(int \<times> nat) list"
  tr_last :: "(int \<times> int) option"
  tr_acc :: nat
  tr_bucket :: int

definition trend_step :: "int \<times> int \<times> int \<Rightarrow> Trend \<Rightarrow> Trend" where
  "trend_step row st =
     (let (ts, rcvd, sent) = row;
          b = ts sdiv 60;
          st1 = (if b \<noteq> tr_bucket st
                 then st\<lparr>tr_deltas := tr_deltas st @ [(tr_bucket st, tr_acc st)], tr_acc := 0, tr_bucket := b\<rparr>
                 else st);
          total = wrap_i64 (rcvd + sent);
          st2 = (case tr_last st1 of
                   Some (p, q) \<Rightarrow>
                     st1\<lparr>tr_acc := sat_add_u64 (tr_acc st1) (nat (max (wrap_i64 (total - wrap_i64 (p + q))) 0))\<rparr>
                 | None \<Rightarrow> st1)
      in st2\<lparr>tr_last := Some (rcvd, sent)\<rparr>)"

definition trend_deltas :: "(int \<times> int \<times> int) list \<Rightarrow> (int \<times> nat) list" where
  "trend_deltas series =
     (let st = fold trend_step series
                 \<lparr>tr_deltas = [], tr_last = None, tr_acc = 0, tr_bucket = fst (hd series) sdiv 60\<rparr>
      in tr_deltas st @ [(tr_bucket st, tr_acc st)])"

text \<open>What the chart shows: for each bar its label and value, the labels of the axis and the peak.  Fewer
  than two rows give the placeholder.\<close>

record Chart =
  ch_bars :: "(string \<times> nat) list"
  ch_from :: string
  ch_to :: string
  ch_peak :: nat

definition trend_svg :: "(int \<times> int \<times> int) list \<Rightarrow> Chart option" where
  "trend_svg series =
     (if length series < 2 then None
      else
        let deltas = trend_deltas series in
        Some \<lparr>ch_bars = map (\<lambda>(ts, d). (store_time (ts * 60), d)) deltas,
              ch_from = store_time (fst (hd deltas) * 60), ch_to = store_time (fst (last deltas) * 60),
              ch_peak = max (Max (set (map snd deltas))) 1\<rparr>)"

section \<open>Lemmas on escaping\<close>

text \<open>The text a browser shows for escaped text.\<close>

definition entities :: "(string \<times> char) list" where
  "entities = [(''&amp;'', CHR ''&''), (''&lt;'', CHR ''<''), (''&gt;'', CHR ''>''), (''&quot;'', CHR 0x22)]"

function unesc :: "string \<Rightarrow> string" where
  "unesc [] = []"
| "unesc (c # s) =
     (case find (\<lambda>(e, _). starts_with (c # s) e) entities of
        Some (e, x) \<Rightarrow> x # unesc (drop (length e - 1) s)
      | None \<Rightarrow> c # unesc s)"
  by pat_completeness auto
termination
  by (relation "measure length") auto

definition esc1 :: "char \<Rightarrow> string" where
  "esc1 c = (case find (\<lambda>(_, x). x = c) entities of Some (e, _) \<Rightarrow> e | None \<Rightarrow> [c])"

lemma replace_char_append: "replace_char c r (a @ b) = replace_char c r a @ replace_char c r b"
  by (simp add: replace_char_def)

lemma esc_append: "esc (a @ b) = esc a @ esc b"
  by (simp add: esc_def replace_char_append)

lemma esc_single: "esc [c] = esc1 c"
  by (auto simp: esc_def esc1_def replace_char_def entities_def)

lemma esc_concat: "esc s = concat (map esc1 s)"
proof (induction s)
  case Nil
  then show ?case by (simp add: esc_def replace_char_def)
next
  case (Cons c s)
  then show ?case using esc_append [of "[c]" s] by (simp add: esc_single)
qed

lemma unesc_plain: "c \<noteq> CHR ''&'' \<Longrightarrow> unesc (c # s) = c # unesc s"
  by (simp add: entities_def starts_with_def)

lemma unesc_esc1: "unesc (esc1 c @ s) = c # unesc s"
proof -
  consider "c = CHR ''&''" | "c = CHR ''<''" | "c = CHR ''>''" | "c = CHR 0x22" |
    "c \<notin> snd ` set entities"
    by (auto simp: entities_def)
  then show ?thesis
  proof cases
    case 5
    then have "c \<noteq> CHR ''&''" "esc1 c = [c]" by (auto simp: esc1_def entities_def)
    then show ?thesis by (simp add: unesc_plain del: unesc.simps)
  qed (simp_all add: esc1_def entities_def starts_with_def)
qed

lemma unesc_esc: "unesc (esc s) = s"
  by (induction s) (simp_all add: esc_concat unesc_esc1)

lemma esc1_clean: "CHR ''<'' \<notin> set (esc1 c) \<and> CHR ''>'' \<notin> set (esc1 c) \<and> CHR 0x22 \<notin> set (esc1 c)"
  by (auto simp: esc1_def entities_def)

lemma esc_clean: "CHR ''<'' \<notin> set (esc s) \<and> CHR ''>'' \<notin> set (esc s) \<and> CHR 0x22 \<notin> set (esc s)"
  using esc1_clean by (auto simp: esc_concat)

section \<open>Lemmas on percent encoding\<close>

text \<open>The decoder of RFC 3986.\<close>

definition hex_value :: "char \<Rightarrow> nat" where
  "hex_value c = (let n = of_char c in if n < 58 then n - 48 else n - 55)"

fun urldecode :: "string \<Rightarrow> string" where
  "urldecode [] = []"
| "urldecode (c # s) =
     (if c = CHR ''%'' then
        (case s of x # y # r \<Rightarrow> char_of (16 * hex_value x + hex_value y) # urldecode r | _ \<Rightarrow> c # s)
      else c # urldecode s)"

lemma hex_value_upper: "n < 16 \<Longrightarrow> hex_value (hex_upper n) = n"
  by (simp add: hex_value_def hex_upper_def Let_def)

definition url1 :: "char \<Rightarrow> string" where
  "url1 c = (if unreserved (byte_of_char c) then [c] else CHR ''%'' # percent_hex (byte_of_char c))"

lemma urlencode_concat: "urlencode s = concat (map url1 s)"
proof (induction s)
  case (Cons c s)
  then show ?case by (simp add: urlencode_def url1_def as_bytes_def)
qed (simp add: urlencode_def as_bytes_def)

lemma percent_reserved: "\<not> unreserved (byte_of_char (CHR ''%''))"
  by (simp add: unreserved_def byte_of_char_def)

lemma urldecode_url1: "urldecode (url1 c @ s) = c # urldecode s"
proof (cases "unreserved (byte_of_char c)")
  case True
  then have "c \<noteq> CHR ''%''" using percent_reserved by auto
  then show ?thesis using True by (simp add: url1_def)
next
  case False
  have lt: "unat (byte_of_char c) < 256" using unsigned_less [of "byte_of_char c", where ?'a = nat] by simp
  then have "16 * hex_value (hex_upper (unat (byte_of_char c) div 16)) +
      hex_value (hex_upper (unat (byte_of_char c) mod 16)) = unat (byte_of_char c)"
    by (simp add: hex_value_upper)
  then show ?thesis
    using False char_of_byte_of_char [of c] by (simp add: url1_def percent_hex_def char_of_byte_def)
qed

lemma urldecode_urlencode: "urldecode (urlencode s) = s"
  by (induction s) (simp_all add: urlencode_concat urldecode_url1)

definition link_safe :: "char \<Rightarrow> bool" where
  "link_safe c \<longleftrightarrow> c = CHR ''%'' \<or> unreserved (byte_of_char c)"

lemma hex_upper_safe: "n < 16 \<Longrightarrow> link_safe (hex_upper n)"
proof -
  assume n: "n < 16"
  have "list_all (\<lambda>n. link_safe (hex_upper n)) [0..<16]" by code_simp
  then show ?thesis using n by (simp add: list_all_iff)
qed

lemma urlencode_safe: "list_all link_safe (urlencode s)"
proof -
  have "list_all link_safe (url1 c)" for c
  proof -
    have "unat (byte_of_char c) < 256" using unsigned_less [of "byte_of_char c", where ?'a = nat] by simp
    then have "unat (byte_of_char c) div 16 < 16" by simp
    then show ?thesis by (auto simp: url1_def percent_hex_def hex_upper_safe) (auto simp: link_safe_def)
  qed
  then show ?thesis by (auto simp: urlencode_concat list_all_iff)
qed

lemma urlencode_no_amp: "CHR ''&'' \<notin> set (urlencode s)"
proof -
  have "\<not> link_safe (CHR ''&'')" by (simp add: link_safe_def unreserved_def byte_of_char_def)
  then show ?thesis using urlencode_safe [of s] by (auto simp: list_all_iff)
qed

text \<open>The reader of the link: the query split at the ampersand, each part at its equals sign.\<close>

definition link_query :: "string \<Rightarrow> (string \<times> string) list" where
  "link_query link =
     (case split_once (CHR ''?'') link of
        None \<Rightarrow> []
      | Some (_, q) \<Rightarrow>
          List.map_filter (\<lambda>p. map_option (\<lambda>(k, v). (k, urldecode v)) (split_once (CHR ''='') p)) (split_char (CHR ''&'') q))"

section \<open>Lemmas on the chart\<close>

definition in_i64 :: "int \<Rightarrow> bool" where
  "in_i64 x \<longleftrightarrow> - (2 ^ 63) \<le> x \<and> x < 2 ^ 63"

lemma wrap_i64_id: "in_i64 x \<Longrightarrow> wrap_i64 x = x"
  by (simp add: wrap_i64_def in_i64_def signed_take_bit_int_eq_self_iff sint_sbintrunc')

text \<open>Counters that only grow, in rows ordered by time.\<close>

definition row_total :: "int \<times> int \<times> int \<Rightarrow> int" where
  "row_total row = (case row of (_, rcvd, sent) \<Rightarrow> rcvd + sent)"

definition row_ok :: "int \<times> int \<times> int \<Rightarrow> bool" where
  "row_ok row = (0 \<le> fst row \<and> 0 \<le> row_total row \<and> row_total row < 2 ^ 63)"

definition rows_grow :: "(int \<times> int \<times> int) list \<Rightarrow> bool" where
  "rows_grow rows =
     (list_all row_ok rows \<and> sorted (map fst rows) \<and> sorted (map row_total rows))"

definition columns :: "Trend \<Rightarrow> (int \<times> nat) list" where
  "columns st = tr_deltas st @ [(tr_bucket st, tr_acc st)]"

text \<open>The loop after the rows up to \<open>row\<close>, of which \<open>first\<close> was the first.\<close>

definition trend_inv :: "int \<times> int \<times> int \<Rightarrow> int \<times> int \<times> int \<Rightarrow> Trend \<Rightarrow> bool" where
  "trend_inv first row st =
     (tr_last st = Some (snd row) \<and> tr_bucket st = fst row div 60 \<and>
      sorted_wrt (<) (map fst (columns st)) \<and> fst (hd (columns st)) = fst first div 60 \<and>
      int (sum_list (map snd (columns st))) = row_total row - row_total first)"

lemma sdiv_60: "0 \<le> (x :: int) \<Longrightarrow> x sdiv 60 = x div 60"
  by (simp add: signed_divide_int_def sgn_if)

lemma trend_step_inv:
  assumes inv: "trend_inv first row st" and "row_ok row" "row_ok nxt" "row_ok first"
    and le: "fst row \<le> fst nxt" "row_total row \<le> row_total nxt" "row_total first \<le> row_total row"
  shows "trend_inv first nxt (trend_step nxt st)"
proof -
  obtain ts r s where nxt: "nxt = (ts, r, s)" by (metis prod.exhaust)
  obtain ts0 r0 s0 where row: "row = (ts0, r0, s0)" by (metis prod.exhaust)
  have b: "ts0 div 60 \<le> ts div 60" using le nxt row by (simp add: zdiv_mono1)
  have w: "wrap_i64 (r + s) = r + s" "wrap_i64 (r0 + s0) = r0 + s0" "wrap_i64 (r + s - (r0 + s0)) = r + s - (r0 + s0)"
    using assms nxt row by (auto intro!: wrap_i64_id simp: in_i64_def row_ok_def row_total_def)
  define d where "d = nat (r + s - (r0 + s0))"
  have d: "int d = row_total nxt - row_total row" "nat (max (r + s - (r0 + s0)) 0) = d"
    using le nxt row by (auto simp: d_def row_total_def)
  have sum: "int (sum_list (map snd (tr_deltas st)) + tr_acc st) = row_total row - row_total first"
    using inv by (simp add: trend_inv_def columns_def)
  have "int (tr_acc st) \<le> row_total row - row_total first"
    using sum by (metis add_increasing2 le_add2 of_nat_le_iff)
  then have "int (tr_acc st + d) \<le> row_total nxt" using d assms(4) by (simp add: row_ok_def)
  then have sat: "sat_add_u64 (tr_acc st) d = tr_acc st + d"
    using assms(3) by (simp add: sat_add_u64_def row_ok_def)
  have sat0: "sat_add_u64 0 d = d"
    using \<open>int (tr_acc st + d) \<le> row_total nxt\<close> assms(3) by (simp add: sat_add_u64_def row_ok_def)
  have last: "tr_last st = Some (r0, s0)" and bk: "tr_bucket st = ts0 div 60"
    using inv row by (auto simp: trend_inv_def)
  have ts: "ts sdiv 60 = ts div 60" using assms(3) nxt by (simp add: row_ok_def sdiv_60)
  show ?thesis
  proof (cases "ts div 60 = ts0 div 60")
    case True
    then have "trend_step nxt st = st\<lparr>tr_acc := tr_acc st + d, tr_last := Some (r, s)\<rparr>"
      using nxt last bk ts w d sat by (simp add: trend_step_def Let_def)
    then show ?thesis using inv True nxt row d sum
      by (auto simp: trend_inv_def columns_def hd_append split: if_splits)
  next
    case False
    then have "trend_step nxt st = \<lparr>tr_deltas = columns st, tr_last = Some (r, s), tr_acc = d, tr_bucket = ts div 60\<rparr>"
      using nxt last bk ts w d sat0 by (simp add: trend_step_def Let_def columns_def)
    moreover have "sorted_wrt (<) (map fst (columns st) @ [ts div 60])"
    proof -
      have "\<And>x. x \<in> set (map fst (columns st)) \<Longrightarrow> x \<le> ts0 div 60"
        using inv bk by (auto simp: trend_inv_def columns_def sorted_wrt_append intro: less_imp_le)
      then show ?thesis using inv b False by (force simp: trend_inv_def sorted_wrt_append)
    qed
    ultimately show ?thesis using inv nxt row d sum
      by (auto simp: trend_inv_def columns_def hd_append)
  qed
qed

lemma trend_fold_inv:
  "trend_inv first row st \<Longrightarrow> row_ok first \<Longrightarrow> row_total first \<le> row_total row \<Longrightarrow> rows_grow (row # rows) \<Longrightarrow>
   trend_inv first (last (row # rows)) (fold trend_step rows st)"
proof (induction rows arbitrary: row st)
  case (Cons nxt rows)
  have nxt: "trend_inv first nxt (trend_step nxt st)"
    by (rule trend_step_inv [OF Cons.prems(1)]) (use Cons.prems in \<open>auto simp: rows_grow_def\<close>)
  have "row_total first \<le> row_total nxt" "rows_grow (nxt # rows)"
    using Cons.prems by (auto simp: rows_grow_def)
  then show ?case using Cons.IH [OF nxt Cons.prems(2)] by simp
qed simp

lemma trend_first:
  assumes "row_ok first"
  shows "trend_inv first first (trend_step first
     \<lparr>tr_deltas = [], tr_last = None, tr_acc = 0, tr_bucket = fst first sdiv 60\<rparr>)"
  using assms by (cases first) (simp add: trend_step_def trend_inv_def columns_def Let_def row_ok_def sdiv_60)

lemma trend_deltas_inv:
  assumes "series \<noteq> []" "rows_grow series"
  shows "\<exists>st. trend_deltas series = columns st \<and> trend_inv (hd series) (last series) st"
proof -
  obtain first rows where s: "series = first # rows" using assms(1) by (cases series) auto
  have ok: "row_ok first" using assms(2) s by (simp add: rows_grow_def)
  let ?st = "fold trend_step series \<lparr>tr_deltas = [], tr_last = None, tr_acc = 0, tr_bucket = fst first sdiv 60\<rparr>"
  have "trend_inv (hd series) (last series) ?st"
    using trend_fold_inv [OF trend_first [OF ok] ok order_refl] assms(2) s by simp
  moreover have "trend_deltas series = columns ?st" using s by (simp add: trend_deltas_def columns_def Let_def)
  ultimately show ?thesis by blast
qed

section \<open>Properties\<close>

text \<open>Escaped text holds no character that could open a tag or close an attribute, and a browser shows
  exactly the text that was escaped.\<close>

theorem esc_roundtrip:
  "unesc (esc s) = s \<and> CHR ''<'' \<notin> set (esc s) \<and> CHR ''>'' \<notin> set (esc s) \<and> CHR 0x22 \<notin> set (esc s)"
  using unesc_esc esc_clean by simp

text \<open>The link of an issued configuration can be read back: whatever bytes the address and the secret
  hold, the query of the link has exactly the two parameters, which decode to them.\<close>

theorem issue_link_roundtrip:
  "link_query (issue_link cfg) =
     [(''addr'', pc_relay_public_addr cfg), (''secret'', pc_relay_secret cfg)]"
proof -
  let ?a = "urlencode (pc_relay_public_addr cfg)" and ?s = "urlencode (pc_relay_secret cfg)"
  have cut: "split_once (CHR ''?'') (issue_link cfg) =
      Some (''localsend-relay://configure'', (''addr='' @ ?a) @ CHR ''&'' # ''secret='' @ ?s)"
    using split_once_append [of "CHR ''?''" "''localsend-relay://configure''" "(''addr='' @ ?a) @ CHR ''&'' # ''secret='' @ ?s"]
    by (simp add: issue_link_def)
  have parts: "split_char (CHR ''&'') ((''addr='' @ ?a) @ CHR ''&'' # ''secret='' @ ?s) = [''addr='' @ ?a, ''secret='' @ ?s]"
    by (subst split_char_append) (simp_all add: urlencode_no_amp split_char_whole del: split_char.simps)
  have keys: "split_once (CHR ''='') (''addr='' @ ?a) = Some (''addr'', ?a)"
    "split_once (CHR ''='') (''secret='' @ ?s) = Some (''secret'', ?s)" by simp_all
  show ?thesis
    unfolding link_query_def cut option.case prod.case parts
    by (simp only: List.map_filter_simps keys option.map option.case prod.case urldecode_urlencode)
qed

text \<open>For counters that only grow, the columns of the chart are in strictly increasing order of the hour,
  start with the hour of the first row, and together show exactly the traffic between the first and the
  last row.\<close>

theorem trend_total:
  assumes "series \<noteq> []" "rows_grow series"
  shows "sorted_wrt (<) (map fst (trend_deltas series)) \<and>
    fst (hd (trend_deltas series)) = fst (hd series) div 60 \<and>
    int (sum_list (map snd (trend_deltas series))) = row_total (last series) - row_total (hd series)"
  using trend_deltas_inv [OF assms] by (auto simp: trend_inv_def)

theorem trend_total_witness:
  "trend_deltas [(0, 5, 5), (59, 7, 6), (60, 9, 6), (150, 10, 10)] = [(0, 3), (1, 2), (2, 5)] \<and>
   sorted_wrt (<) (map fst (trend_deltas [(0, 5, 5), (59, 7, 6), (60, 9, 6), (150, 10, 10)])) \<and>
   int (sum_list (map snd (trend_deltas [(0, 5, 5), (59, 7, 6), (60, 9, 6), (150, 10, 10)]))) = 10"
proof -
  have eval: "trend_deltas [(0, 5, 5), (59, 7, 6), (60, 9, 6), (150, 10, 10)] = [(0, 3), (1, 2), (2, 5)]"
    by (simp add: trend_deltas_def trend_step_def sdiv_60 wrap_i64_id in_i64_def sat_add_u64_def)
  show ?thesis
    using trend_total [of "[(0, 5, 5), (59, 7, 6), (60, 9, 6), (150, 10, 10)]"]
    by (simp add: eval rows_grow_def row_ok_def row_total_def)
qed

text \<open>The labels of the chart are wrong: the rows are numbered in minutes and the labels read a number of
  seconds, so until the minute count reaches the number of seconds of a year (in 2029) every bar and both
  ends of the axis are dated 1970.  The same function dates the table of issued credentials; its calendar
  has a thirteenth month.\<close>

theorem trend_labels_1970:
  assumes "0 \<le> b" "b * 60 < 31536000"
  shows "take 4 (store_time (b * 60)) = ''1970'' \<and> store_time (360 * 86400) = ''1970-13-01 00:00''"
proof -
  have pad: "pad_nat 4 1970 = ''1970''" "pad_nat 2 13 = ''13''" "pad_nat 2 1 = ''01''" "pad_nat 2 0 = ''00''"
    by code_simp+
  then have "store_time (360 * 86400) = ''1970-13-01 00:00''" by (simp add: store_time_def Let_def)
  moreover have "nat (b * 60) div 86400 div 365 = 0" using assms by (simp add: nat_less_iff flip: div_mult2_eq)
  then have "take 4 (store_time (b * 60)) = ''1970''" using assms pad by (simp add: store_time_def Let_def)
  ultimately show ?thesis by simp
qed

theorem trend_labels_1970_witness:
  "(0 :: int) \<le> 484000 \<and> (484000 :: int) * 60 < 31536000 \<and> take 4 (store_time (484000 * 60)) = ''1970''"
  using trend_labels_1970 [of 484000] by simp

end
