(* ===== verification/Panel_State.thy ===== *)
theory Panel_State
  imports Panel_Pages Registry_Props
begin

text \<open>
  The state and the request handlers of the relay panel: \<open>src/rust/relay-panel/src/state.rs\<close>, the store of
  \<open>src/rust/relay-panel/src/store.rs\<close> and the handlers of \<open>src/rust/relay-panel/src/lib.rs\<close>.

  \<^item> \<open>now\<close> is the monotonic clock in nanoseconds, \<open>unix\<close> the wall clock in seconds.
  \<^item> A table of the SQL store is the list of its rows in the order of insertion.  No column is unique, so
    \<open>INSERT OR REPLACE\<close> is an insertion.
  \<^item> A page is the data its template receives (\<open>Panel_Pages\<close>).
\<close>

section \<open>Sessions\<close>

definition SESSION_TTL :: nat where
  "SESSION_TTL = 12 * 3600 * 1000000000"

definition SESSIONS_TTL :: nat where
  "SESSIONS_TTL = 5 * 1000000000"

definition same_str :: "string \<Rightarrow> string \<Rightarrow> bool" where
  "same_str a b =
     (if length a \<noteq> length b then False
      else fold (\<lambda>(x, y) acc. acc OR (x XOR y)) (zip (as_bytes a) (as_bytes b)) 0 = (0 :: u8))"

definition login :: "PanelConfig \<Rightarrow> string \<Rightarrow> string \<Rightarrow> nat \<Rightarrow> (string, nat) hashmap \<Rightarrow> (string, nat) hashmap \<times> string option" where
  "login cfg password tok now m =
     (if \<not> same_str password (pc_admin_password cfg) then (m, None)
      else (hput tok (now + SESSION_TTL) m, Some tok))"

definition check_session :: "string option \<Rightarrow> nat \<Rightarrow> (string, nat) hashmap \<Rightarrow> (string, nat) hashmap \<times> bool" where
  "check_session tok now m =
     (case tok of
        None \<Rightarrow> (m, False)
      | Some t \<Rightarrow>
          (case hget m t of
             Some expiry \<Rightarrow> if expiry > now then (m, True) else (hdel t m, False)
           | None \<Rightarrow> (hdel t m, False)))"

definition logout :: "string \<Rightarrow> (string, nat) hashmap \<Rightarrow> (string, nat) hashmap" where
  "logout tok m = hdel tok m"

text \<open>\<open>Iterator::find_map\<close>\<close>

fun find_map :: "('a \<Rightarrow> 'b option) \<Rightarrow> 'a list \<Rightarrow> 'b option" where
  "find_map f [] = None"
| "find_map f (x # xs) = (case f x of Some y \<Rightarrow> Some y | None \<Rightarrow> find_map f xs)"

definition cookie_pair :: "string \<Rightarrow> string option" where
  "cookie_pair pair =
     (case split_once (CHR ''='') (str_trim pair) of
        None \<Rightarrow> None
      | Some (k, v) \<Rightarrow> if k = ''panel_session'' then Some v else None)"

definition parse_session_cookie :: "string \<Rightarrow> string option" where
  "parse_session_cookie header = find_map cookie_pair (split_char (CHR '';'') header)"

definition session_token :: "string list \<Rightarrow> string option" where
  "session_token cookies = find_map parse_session_cookie cookies"

definition set_cookie :: "string \<Rightarrow> string" where
  "set_cookie tok = ''panel_session='' @ tok @ ''; Path=/; HttpOnly; SameSite=Lax''"

section \<open>The store\<close>

record MetricRow =
  mr_ts :: int
  mr_udp :: int
  mr_tcp :: int
  mr_rcvd :: int
  mr_sent :: int

definition record_metrics :: "MetricRow \<Rightarrow> MetricRow list \<Rightarrow> MetricRow list" where
  "record_metrics row rows = filter (\<lambda>r. \<not> mr_ts r < mr_ts row - 30 * 24 * 60) (rows @ [row])"

definition metrics_since :: "int \<Rightarrow> MetricRow list \<Rightarrow> (int \<times> int \<times> int) list" where
  "metrics_since since rows =
     map (\<lambda>r. (mr_ts r, mr_rcvd r, mr_sent r)) (sort_key mr_ts (filter (\<lambda>r. mr_ts r \<ge> since) rows))"

definition issuances :: "nat \<Rightarrow> (int \<times> string \<times> int) list \<Rightarrow> (int \<times> string \<times> int) list" where
  "issuances limit rows = take limit (sort_key (\<lambda>(ts, _, _). - ts) rows)"

definition scrape_once :: "string option \<Rightarrow> nat \<Rightarrow> MetricRow list \<Rightarrow> MetricRow list" where
  "scrape_once body unix rows =
     (let live = fetch_live body in
      if \<not> lv_prom_ok live then rows
      else record_metrics
             \<lparr>mr_ts = int (unix div 60), mr_udp = lv_allocations_udp live, mr_tcp = lv_allocations_tcp live,
              mr_rcvd = lv_traffic_rcvd live, mr_sent = lv_traffic_sent live\<rparr> rows)"

section \<open>The state\<close>

record PanelState =
  ps_cfg :: PanelConfig
  ps_sessions :: "(string, nat) hashmap"
  ps_metrics :: "MetricRow list"
  ps_issuances :: "(int \<times> string \<times> int) list"
  ps_cache :: "(nat \<times> CoturnSession list) option"

definition new_panel :: "PanelConfig \<Rightarrow> MetricRow list \<Rightarrow> (int \<times> string \<times> int) list \<Rightarrow> PanelState" where
  "new_panel cfg metrics issued =
     \<lparr>ps_cfg = cfg, ps_sessions = [], ps_metrics = metrics, ps_issuances = issued, ps_cache = None\<rparr>"

definition authed :: "string list \<Rightarrow> nat \<Rightarrow> PanelState \<Rightarrow> PanelState \<times> bool" where
  "authed cookies now s =
     (let (m, ok) = check_session (session_token cookies) now (ps_sessions s) in (s\<lparr>ps_sessions := m\<rparr>, ok))"

definition record_issue :: "string \<Rightarrow> u64 \<Rightarrow> nat \<Rightarrow> PanelState \<Rightarrow> PanelState" where
  "record_issue suffix ttl unix s =
     s\<lparr>ps_issuances := ps_issuances s @ [(int unix, suffix, sint ttl)]\<rparr>"

text \<open>The list is cached for a few seconds; \<open>conn\<close> is the console.\<close>

definition coturn_sessions ::
  "(string list \<Rightarrow> string + console) \<Rightarrow> nat \<Rightarrow> PanelState \<Rightarrow> PanelState \<times> CoturnSession list" where
  "coturn_sessions conn now s =
     (let fresh = (case list_sessions conn (ps_cfg s) of Inl _ \<Rightarrow> [] | Inr l \<Rightarrow> l) in
      case ps_cache s of
        Some (at, l) \<Rightarrow>
          if now - at < SESSIONS_TTL then (s, l) else (s\<lparr>ps_cache := Some (now, fresh)\<rparr>, fresh)
      | None \<Rightarrow> (s\<lparr>ps_cache := Some (now, fresh)\<rparr>, fresh))"

definition kick_session ::
  "(string \<Rightarrow> string) \<Rightarrow> (string list \<Rightarrow> string + console) \<Rightarrow> string \<Rightarrow> PanelState \<Rightarrow> PanelState \<times> (string + unit)" where
  "kick_session lower conn sid s = (s\<lparr>ps_cache := None\<rparr>, kick lower conn (ps_cfg s) sid)"

section \<open>Issuing credentials\<close>

definition clamp_ttl :: "u64 \<Rightarrow> u64" where
  "clamp_ttl ttl = (if ttl < 60 then 60 else if ttl > 30 * 24 * 3600 then 30 * 24 * 3600 else ttl)"

definition label_char :: "char \<Rightarrow> bool" where
  "label_char c \<longleftrightarrow>
     (let n = (of_char c :: nat) in (48 \<le> n \<and> n \<le> 57) \<or> (65 \<le> n \<and> n \<le> 90) \<or> (97 \<le> n \<and> n \<le> 122) \<or>
       c = CHR ''-'' \<or> c = CHR ''_'')"

definition clean_suffix :: "string \<Rightarrow> string" where
  "clean_suffix suffix = take 32 (filter label_char suffix)"

record Issued =
  is_ttl :: u64
  is_suffix :: string
  is_username :: string
  is_password :: string

definition issue :: "Crypto \<Rightarrow> u64 \<Rightarrow> string \<Rightarrow> u64 \<Rightarrow> PanelState \<Rightarrow> PanelState \<times> Issued" where
  "issue cp ttl0 suffix0 unix s =
     (let ttl = clamp_ttl ttl0; suffix = clean_suffix suffix0;
          (username, password) =
            generate_credentials (cr_hmac cp) (cr_b64 cp) (pc_relay_secret (ps_cfg s)) (unix + ttl) suffix
      in (record_issue suffix ttl (unat unix) s,
          \<lparr>is_ttl = ttl, is_suffix = suffix, is_username = username, is_password = password\<rparr>))"

section \<open>Requests\<close>

datatype PanelRequest =
    GetOverview | GetLogin | PostLogin string string | PostLogout | GetIssue | PostIssue u64 string
  | GetHistory | GetSessions | ApiSessions | ApiKick string | ApiOverview | GetCss

datatype PanelReply =
    LoginPage | IssueFormPage | SessionsPage | Css
  | Redirect string | RedirectCookie string string | Forbidden
  | OverviewPage Live "Chart option"
  | IssueResultPage duration string string string string
  | HistoryPage "(string \<times> string \<times> duration) list"
  | SessionList "CoturnSession list" | LiveJson int int int int | KickOk | BadGateway string

definition overview_page :: "Live \<Rightarrow> u64 \<Rightarrow> PanelState \<Rightarrow> PanelReply" where
  "overview_page live unix s = OverviewPage live (trend_svg (metrics_since (int (unat unix) div 60 - 24 * 60) (ps_metrics s)))"

definition issue_result :: "Issued \<Rightarrow> PanelState \<Rightarrow> PanelReply" where
  "issue_result i s =
     IssueResultPage (human_duration (is_ttl i)) (esc (is_suffix i)) (esc (issue_link (ps_cfg s)))
       (esc (is_username i)) (esc (is_password i))"

definition issue_history :: "PanelState \<Rightarrow> PanelReply" where
  "issue_history s =
     HistoryPage (map (\<lambda>(ts, suffix, ttl). (store_time ts, esc suffix, human_duration (word_of_int ttl)))
       (issuances 50 (ps_issuances s)))"

definition live_json :: "Live \<Rightarrow> PanelReply" where
  "live_json l = LiveJson (lv_allocations_udp l) (lv_allocations_tcp l) (lv_traffic_rcvd l) (lv_traffic_sent l)"

record PanelEnv =
  pe_crypto :: Crypto
  pe_lower :: "string \<Rightarrow> string"
  pe_console :: "string list \<Rightarrow> string + console"
  pe_prom :: "string option"
  pe_now :: nat
  pe_unix :: u64

definition guarded ::
  "PanelEnv \<Rightarrow> string list \<Rightarrow> PanelReply \<Rightarrow> (PanelState \<Rightarrow> PanelState \<times> PanelReply) \<Rightarrow> PanelState \<Rightarrow> PanelState \<times> PanelReply" where
  "guarded env cookies denied f s =
     (let (s1, ok) = authed cookies (pe_now env) s in if \<not> ok then (s1, denied) else f s1)"

fun panel_handle :: "PanelEnv \<Rightarrow> string list \<Rightarrow> PanelRequest \<Rightarrow> PanelState \<Rightarrow> PanelState \<times> PanelReply" where
  "panel_handle env cookies GetOverview s =
     guarded env cookies (Redirect ''/login'') (\<lambda>s. (s, overview_page (fetch_live (pe_prom env)) (pe_unix env) s)) s"
| "panel_handle env cookies GetLogin s = (s, LoginPage)"
| "panel_handle env cookies (PostLogin password tok) s =
     (case login (ps_cfg s) password tok (pe_now env) (ps_sessions s) of
        (m, Some t) \<Rightarrow> (s\<lparr>ps_sessions := m\<rparr>, RedirectCookie (set_cookie t) ''/'')
      | (m, None) \<Rightarrow> (s\<lparr>ps_sessions := m\<rparr>, Redirect ''/login?err=1''))"
| "panel_handle env cookies PostLogout s =
     ((case session_token cookies of None \<Rightarrow> s | Some t \<Rightarrow> s\<lparr>ps_sessions := logout t (ps_sessions s)\<rparr>),
      RedirectCookie ''panel_session=; Path=/; Max-Age=0'' ''/login'')"
| "panel_handle env cookies GetIssue s =
     guarded env cookies (Redirect ''/login'') (\<lambda>s. (s, IssueFormPage)) s"
| "panel_handle env cookies (PostIssue ttl suffix) s =
     guarded env cookies (Redirect ''/login'')
       (\<lambda>s. case issue (pe_crypto env) ttl suffix (pe_unix env) s of (s1, i) \<Rightarrow> (s1, issue_result i s1)) s"
| "panel_handle env cookies GetHistory s =
     guarded env cookies (Redirect ''/login'') (\<lambda>s. (s, issue_history s)) s"
| "panel_handle env cookies GetSessions s =
     guarded env cookies (Redirect ''/login'') (\<lambda>s. (s, SessionsPage)) s"
| "panel_handle env cookies ApiSessions s =
     guarded env cookies Forbidden
       (\<lambda>s. case coturn_sessions (pe_console env) (pe_now env) s of (s1, l) \<Rightarrow> (s1, SessionList l)) s"
| "panel_handle env cookies (ApiKick sid) s =
     guarded env cookies Forbidden
       (\<lambda>s. case kick_session (pe_lower env) (pe_console env) sid s of
              (s1, Inr _) \<Rightarrow> (s1, KickOk)
            | (s1, Inl e) \<Rightarrow> (s1, BadGateway e)) s"
| "panel_handle env cookies ApiOverview s =
     guarded env cookies Forbidden (\<lambda>s. (s, live_json (fetch_live (pe_prom env)))) s"
| "panel_handle env cookies GetCss s = (s, Css)"

text \<open>A request with the cookie headers it carries, or a round of the collector.\<close>

datatype PanelEvent = Http "string list" PanelRequest | Scrape

fun panel_step :: "PanelState \<Rightarrow> PanelEnv \<times> PanelEvent \<Rightarrow> PanelState \<times> PanelReply option" where
  "panel_step s (env, Http cookies req) = (case panel_handle env cookies req s of (s1, r) \<Rightarrow> (s1, Some r))"
| "panel_step s (env, Scrape) =
     (s\<lparr>ps_metrics := scrape_once (pe_prom env) (unat (pe_unix env)) (ps_metrics s)\<rparr>, None)"

end
