(* ===== verification/Panel_Props.thy ===== *)
theory Panel_Props
  imports Panel_State
begin

text \<open>
  The relay panel over runs of requests and collector rounds: who is served, how long a login and an
  issued credential last, how old a session list can be, and what the store keeps.
\<close>

section \<open>Logins\<close>

lemma same_str_iff [simp]: "same_str a b \<longleftrightarrow> a = b"
proof -
  have "same_str a b = constant_time_eq (as_bytes a) (as_bytes b)"
    by (simp add: same_str_def constant_time_eq_def as_bytes_def del: constant_time_eq_iff)
  then show ?thesis by (simp add: as_bytes_inject)
qed

definition login_of :: "string \<Rightarrow> PanelState \<Rightarrow> PanelEnv \<times> PanelEvent \<Rightarrow> nat \<Rightarrow> bool" where
  "login_of t s m v \<longleftrightarrow>
     (\<exists>c. snd m = Http c (PostLogin (pc_admin_password (ps_cfg s)) t)) \<and> v = pe_now (fst m) + SESSION_TTL"

definition logout_of :: "string \<Rightarrow> PanelEnv \<times> PanelEvent \<Rightarrow> bool" where
  "logout_of t m \<longleftrightarrow> (case snd m of Http c PostLogout \<Rightarrow> session_token c = Some t | _ \<Rightarrow> False)"

lemma guarded_cases:
  assumes "guarded env cookies denied f s = (s', r)"
  obtains (denied) m where "s' = s\<lparr>ps_sessions := m\<rparr>" "r = denied"
      "check_session (session_token cookies) (pe_now env) (ps_sessions s) = (m, False)"
    | (served) "f s = (s', r)" "check_session (session_token cookies) (pe_now env) (ps_sessions s) = (ps_sessions s, True)"
  using assms
  by (auto simp: guarded_def authed_def check_session_def Let_def split: if_splits option.splits)

text \<open>The routes that ask for a session, and what they answer without one.\<close>

fun protected :: "PanelRequest \<Rightarrow> bool" where
  "protected GetLogin = False"
| "protected (PostLogin _ _) = False"
| "protected PostLogout = False"
| "protected GetCss = False"
| "protected _ = True"

definition refusals :: "PanelReply set" where
  "refusals = {Redirect ''/login'', Forbidden}"

definition session_live :: "PanelEnv \<Rightarrow> string list \<Rightarrow> PanelState \<Rightarrow> bool" where
  "session_live env cookies s =
     (case session_token cookies of
        None \<Rightarrow> False
      | Some t \<Rightarrow> (case hget (ps_sessions s) t of None \<Rightarrow> False | Some e \<Rightarrow> pe_now env < e))"

lemma check_session_live:
  "snd (check_session (session_token cookies) (pe_now env) (ps_sessions s)) = session_live env cookies s"
  by (auto simp: check_session_def session_live_def split: option.splits)

lemma hget_check_session: "hget (fst (check_session c now m)) t = Some e \<Longrightarrow> hget m t = Some e"
  by (auto simp: check_session_def split: option.splits if_splits)

lemma hget_check_session_live:
  "hget m t = Some e \<Longrightarrow> now < e \<Longrightarrow> hget (fst (check_session c now m)) t = Some e"
  by (auto simp: check_session_def split: option.splits)

definition same_but_sessions :: "PanelState \<Rightarrow> PanelState \<Rightarrow> bool" where
  "same_but_sessions s s' \<longleftrightarrow> s' = s\<lparr>ps_sessions := ps_sessions s'\<rparr>"

lemma guarded_denied:
  assumes "\<not> session_live env cookies s"
  shows "snd (guarded env cookies denied f s) = denied \<and> same_but_sessions s (fst (guarded env cookies denied f s))"
proof -
  obtain s' r where g: "guarded env cookies denied f s = (s', r)" by fastforce
  then show ?thesis
    by (cases rule: guarded_cases) (use g assms check_session_live [of cookies env s] in \<open>auto simp: same_but_sessions_def\<close>)
qed

lemma guarded_served:
  assumes "session_live env cookies s"
  shows "guarded env cookies denied f s = f s"
proof -
  obtain s' r where g: "guarded env cookies denied f s = (s', r)" by fastforce
  then show ?thesis
    by (cases rule: guarded_cases) (use assms g check_session_live [of cookies env s] in auto)
qed

lemma protected_denied:
  assumes "protected req" "\<not> session_live env cookies s"
  shows "snd (panel_handle env cookies req s) \<in> refusals \<and> same_but_sessions s (fst (panel_handle env cookies req s))"
  using assms by (cases req) (simp_all add: guarded_denied refusals_def)

lemma guarded_keeps:
  assumes "\<And>s. ps_sessions (fst (f s)) = ps_sessions s"
  shows "ps_sessions (fst (guarded env cookies denied f s)) =
    fst (check_session (session_token cookies) (pe_now env) (ps_sessions s))"
  using assms by (auto simp: guarded_def authed_def Let_def split: prod.split)

lemma handle_sessions:
  "ps_sessions (fst (panel_handle env cookies req s)) =
     (case req of
        PostLogin pw t \<Rightarrow> fst (login (ps_cfg s) pw t (pe_now env) (ps_sessions s))
      | PostLogout \<Rightarrow> (case session_token cookies of None \<Rightarrow> ps_sessions s | Some t \<Rightarrow> hdel t (ps_sessions s))
      | GetLogin \<Rightarrow> ps_sessions s
      | GetCss \<Rightarrow> ps_sessions s
      | _ \<Rightarrow> fst (check_session (session_token cookies) (pe_now env) (ps_sessions s)))"
  by (cases req)
    (auto simp: guarded_keeps login_def logout_def issue_def record_issue_def coturn_sessions_def kick_session_def Let_def
      split: option.split prod.split sum.split)

lemma guarded_cfg:
  assumes "\<And>s. ps_cfg (fst (f s)) = ps_cfg s"
  shows "ps_cfg (fst (guarded env cookies denied f s)) = ps_cfg s"
  using assms by (auto simp: guarded_def authed_def Let_def split: prod.split)

lemma handle_cfg: "ps_cfg (fst (panel_handle env cookies req s)) = ps_cfg s"
  by (cases req)
    (auto simp: guarded_cfg login_def logout_def issue_def record_issue_def coturn_sessions_def kick_session_def Let_def
      split: option.split prod.split sum.split)

lemma step_cfg: "ps_cfg (fst (panel_step s m)) = ps_cfg s"
proof (cases m)
  case (Pair env ev)
  then show ?thesis using handle_cfg by (cases ev) (auto split: prod.split, metis fst_conv)
qed

lemma run_cfg: "ps_cfg (fst (run_actor panel_step s ms)) = ps_cfg s"
  by (induction ms arbitrary: s) (simp_all add: step_cfg)

lemma step_sessions:
  "ps_sessions (fst (panel_step s (env, ev))) =
     (case ev of Http c req \<Rightarrow> ps_sessions (fst (panel_handle env c req s)) | Scrape \<Rightarrow> ps_sessions s)"
  by (cases ev) (simp_all split: prod.split)

interpretation sess: last_writer panel_step "\<lambda>s. hget (ps_sessions s) t" "login_of t" "\<lambda>_. logout_of t" for t
proof
  fix s and m :: "PanelEnv \<times> PanelEvent" and v
  obtain env ev where m: "m = (env, ev)" by fastforce
  assume "hget (ps_sessions (fst (panel_step s m))) t = Some v"
  then show "(hget (ps_sessions s) t = Some v \<and> \<not> logout_of t m) \<or> login_of t s m v"
  proof (cases ev)
    case (Http c req)
    then show ?thesis
      using \<open>hget _ t = Some v\<close> m
      by (cases req)
        (auto simp: step_sessions handle_sessions logout_of_def login_of_def login_def
          simp del: panel_step.simps panel_handle.simps dest: hget_check_session split: if_splits option.splits)
  qed (simp add: m logout_of_def)
qed

text \<open>An open session stays open while nobody closes it, nobody logs in under its token and the clock has not
  reached its end.\<close>

definition leaves_session :: "string \<Rightarrow> nat \<Rightarrow> PanelEnv \<times> PanelEvent \<Rightarrow> bool" where
  "leaves_session t e m \<longleftrightarrow> pe_now (fst m) < e \<and> \<not> logout_of t m \<and>
     (case snd m of Http c (PostLogin _ t') \<Rightarrow> t' \<noteq> t | _ \<Rightarrow> True)"

lemma session_kept_step:
  assumes "hget (ps_sessions s) t = Some e" "leaves_session t e m"
  shows "hget (ps_sessions (fst (panel_step s m))) t = Some e"
proof (cases m)
  case (Pair env ev)
  then show ?thesis
  proof (cases ev)
    case (Http c req)
    then show ?thesis
      using assms Pair
      by (cases req)
        (auto simp: step_sessions handle_sessions leaves_session_def logout_of_def login_def hget_check_session_live
          simp del: panel_step.simps panel_handle.simps split: option.splits)
  qed (use assms Pair in simp)
qed

lemma session_kept:
  "hget (ps_sessions s) t = Some e \<Longrightarrow> list_all (leaves_session t e) ms \<Longrightarrow>
   hget (ps_sessions (fst (run_actor panel_step s ms))) t = Some e"
  by (induction ms arbitrary: s) (auto intro: session_kept_step)

section \<open>The session list\<close>

definition asked_console :: "PanelEnv \<Rightarrow> PanelConfig \<Rightarrow> CoturnSession list" where
  "asked_console env cfg = (case list_sessions (pe_console env) cfg of Inl _ \<Rightarrow> [] | Inr l \<Rightarrow> l)"

definition lists_of :: "PanelState \<Rightarrow> PanelEnv \<times> PanelEvent \<Rightarrow> nat \<times> CoturnSession list \<Rightarrow> bool" where
  "lists_of s m v \<longleftrightarrow> (\<exists>c. snd m = Http c ApiSessions) \<and> v = (pe_now (fst m), asked_console (fst m) (ps_cfg s))"

definition served_kick :: "PanelState \<Rightarrow> PanelEnv \<times> PanelEvent \<Rightarrow> bool" where
  "served_kick s m \<longleftrightarrow> (case snd m of Http c (ApiKick _) \<Rightarrow> session_live (fst m) c s | _ \<Rightarrow> False)"

lemma guarded_cache:
  "ps_cache (fst (guarded env cookies denied f s)) =
     (if session_live env cookies s then ps_cache (fst (f s)) else ps_cache s)"
  using guarded_denied [of env cookies s denied f] guarded_served [of env cookies s denied f]
  by (auto simp: same_but_sessions_def) (metis PanelState.select_convs(5) PanelState.surjective PanelState.update_convs(2))

lemma handle_cache:
  "ps_cache (fst (panel_handle env cookies req s)) =
     (case req of
        ApiSessions \<Rightarrow> if session_live env cookies s then ps_cache (fst (coturn_sessions (pe_console env) (pe_now env) s)) else ps_cache s
      | ApiKick _ \<Rightarrow> if session_live env cookies s then None else ps_cache s
      | _ \<Rightarrow> ps_cache s)"
  by (cases req)
    (auto simp: guarded_cache login_def issue_def record_issue_def kick_session_def Let_def
      split: option.split prod.split sum.split)

lemma step_cache:
  "ps_cache (fst (panel_step s (env, ev))) =
     (case ev of Http c req \<Rightarrow> ps_cache (fst (panel_handle env c req s)) | Scrape \<Rightarrow> ps_cache s)"
  by (cases ev) (simp_all split: prod.split)

lemma coturn_sessions_cases:
  "coturn_sessions (pe_console env) (pe_now env) s =
     (let l = asked_console env (ps_cfg s); asked = (s\<lparr>ps_cache := Some (pe_now env, l)\<rparr>, l) in
      case ps_cache s of
        None \<Rightarrow> asked
      | Some (at, old) \<Rightarrow> if pe_now env - at < SESSIONS_TTL then (s, old) else asked)"
  by (auto simp: coturn_sessions_def asked_console_def Let_def split: option.split)

interpretation lists: last_writer panel_step ps_cache lists_of served_kick
proof
  fix s and m :: "PanelEnv \<times> PanelEvent" and v
  obtain env ev where m: "m = (env, ev)" by fastforce
  assume v: "ps_cache (fst (panel_step s m)) = Some v"
  show "(ps_cache s = Some v \<and> \<not> served_kick s m) \<or> lists_of s m v"
  proof (cases ev)
    case (Http c req)
    then show ?thesis
      using v m
      by (cases req)
        (auto simp: step_cache handle_cache coturn_sessions_cases served_kick_def lists_of_def Let_def
          simp del: panel_step.simps panel_handle.simps split: if_splits option.splits)
  qed (use v m in \<open>simp add: served_kick_def\<close>)
qed

section \<open>The store\<close>

text \<open>The rows of the thirty days before the last one.\<close>

definition last_30_days :: "MetricRow list \<Rightarrow> MetricRow list" where
  "last_30_days rows = filter (\<lambda>r. mr_ts (last rows) - 30 * 24 * 60 \<le> mr_ts r) rows"

lemma record_last_30_days:
  assumes "sorted (map mr_ts (rows @ [r]))"
  shows "record_metrics r (last_30_days rows) = last_30_days (rows @ [r])"
proof (cases "rows = []")
  case False
  then have "mr_ts (last rows) \<le> mr_ts r" using assms by (simp add: sorted_append)
  then have "filter (\<lambda>x. mr_ts r - 43200 \<le> mr_ts x) (last_30_days rows) = filter (\<lambda>x. mr_ts r - 43200 \<le> mr_ts x) rows"
    by (auto simp: last_30_days_def intro!: filter_cong)
  then show ?thesis by (simp add: record_metrics_def last_30_days_def not_less)
qed (simp add: record_metrics_def last_30_days_def)

lemma record_all: "sorted (map mr_ts rows) \<Longrightarrow> fold record_metrics rows [] = last_30_days rows"
proof (induction rows rule: rev_induct)
  case (snoc r rows)
  then show ?case using record_last_30_days [OF snoc.prems] by (simp add: sorted_append)
qed (simp add: last_30_days_def)

section \<open>Cookies\<close>

lemma session_token_set_cookie:
  assumes "list_all visible t" "CHR '';'' \<notin> set t"
  shows "session_token [hd (split_char (CHR '';'') (set_cookie t))] = Some t"
proof -
  let ?h = "''panel_session='' @ t"
  have semi: "CHR '';'' \<notin> set ?h" using assms by simp
  have "hd (split_char (CHR '';'') (?h @ CHR '';'' # '' Path=/; HttpOnly; SameSite=Lax'')) = ?h"
    by (rule split_char_first) (rule semi)
  then have h: "hd (split_char (CHR '';'') (set_cookie t)) = ?h" by (simp add: set_cookie_def)
  have "token ?h" using assms by (simp add: token_def visible_def)
  then have "str_trim ?h = ?h" by (rule str_trim_token)
  moreover have "split_once (CHR ''='') ?h = Some (''panel_session'', t)" by simp
  ultimately have "cookie_pair ?h = Some t" unfolding cookie_pair_def by simp
  then show ?thesis
    unfolding h session_token_def parse_session_cookie_def split_char_whole [OF semi] find_map.simps by simp
qed

section \<open>Properties\<close>


text \<open>A login with the admin password opens the panel: the browser that returns the cookie it was given
  reaches every protected route until twelve hours have passed, whatever other requests come in between,
  unless that session is logged out.  A wrong password opens nothing.\<close>

theorem login_opens_panel:
  assumes "snd (panel_step s (env0, Http c (PostLogin pw t))) = Some (RedirectCookie cookie ''/'')"
    and "list_all visible t" "CHR '';'' \<notin> set t"
    and "list_all (leaves_session t (pe_now env0 + SESSION_TTL)) ms"
    and "pe_now env < pe_now env0 + SESSION_TTL"
    and "s' = fst (run_actor panel_step s ((env0, Http c (PostLogin pw t)) # ms))"
  shows "pw = pc_admin_password (ps_cfg s) \<and> session_live env [hd (split_char (CHR '';'') cookie)] s' \<and>
    (pw' \<noteq> pc_admin_password (ps_cfg s') \<longrightarrow> panel_handle env cookies (PostLogin pw' t') s' = (s', Redirect ''/login?err=1''))"
proof -
  have pw: "pw = pc_admin_password (ps_cfg s)" "cookie = set_cookie t"
    using assms(1) by (auto simp: login_def split: if_splits)
  have "hget (ps_sessions (fst (panel_step s (env0, Http c (PostLogin pw t))))) t = Some (pe_now env0 + SESSION_TTL)"
    using pw by (simp add: login_def)
  then have "hget (ps_sessions s') t = Some (pe_now env0 + SESSION_TTL)"
    using session_kept assms(4,6) by simp
  moreover have "session_token [hd (split_char (CHR '';'') cookie)] = Some t"
    using session_token_set_cookie [OF assms(2,3)] pw by simp
  ultimately show ?thesis using pw assms(5) by (simp add: session_live_def login_def)
qed

text \<open>An issued credential is accepted by the relay's registry from the moment it is made until the end of its
  lifetime, which is the requested one kept between a minute and thirty days, and at no later time.  Its
  label has at most 32 characters, all of them letters, digits, dashes or underscores; the audit log gains
  the time, the label and the lifetime, and nothing else of the panel changes.\<close>

theorem issued_credential:
  assumes "issue cp ttl suffix unix s = (s', i)" and "unat unix + 2592000 < 2 ^ 64"
  shows "verify cp (pc_relay_secret (ps_cfg s)) at (is_username i) (is_password i) =
      (unat at < unat unix + unat (is_ttl i)) \<and>
    60 \<le> is_ttl i \<and> is_ttl i \<le> 2592000 \<and> (60 \<le> ttl \<and> ttl \<le> 2592000 \<longrightarrow> is_ttl i = ttl) \<and>
    length (is_suffix i) \<le> 32 \<and> list_all label_char (is_suffix i) \<and>
    s' = s\<lparr>ps_issuances := ps_issuances s @ [(int (unat unix), is_suffix i, sint (is_ttl i))]\<rparr>"
proof -
  obtain u p where g: "generate_credentials (cr_hmac cp) (cr_b64 cp) (pc_relay_secret (ps_cfg s)) (unix + clamp_ttl ttl)
      (clean_suffix suffix) = (u, p)" by fastforce
  have i: "is_ttl i = clamp_ttl ttl" "is_suffix i = clean_suffix suffix" "is_username i = u" "is_password i = p"
    and s': "s' = record_issue (clean_suffix suffix) (clamp_ttl ttl) (unat unix) s"
    using assms(1) g by (auto simp: issue_def Let_def)
  have c: "60 \<le> clamp_ttl ttl" "clamp_ttl ttl \<le> 2592000" "60 \<le> ttl \<and> ttl \<le> 2592000 \<longrightarrow> clamp_ttl ttl = ttl"
    by (auto simp: clamp_ttl_def not_less)
  have "unat (clamp_ttl ttl) \<le> 2592000" using c(2) by (simp add: word_le_nat_alt)
  then have "unat (unix + clamp_ttl ttl) = unat unix + unat (clamp_ttl ttl)"
    using assms(2) by (simp add: unat_plus_if' )
  moreover have "user_expiry u = Some (unix + clamp_ttl ttl)"
    using user_expiry_minted [of "cr_hmac cp" "cr_b64 cp" "pc_relay_secret (ps_cfg s)" "unix + clamp_ttl ttl" "clean_suffix suffix"] g
    by simp
  ultimately have v: "verify cp (pc_relay_secret (ps_cfg s)) at u p = (unat at < unat unix + unat (clamp_ttl ttl))"
    using snd_minted [OF g] by (simp add: verify_iff word_less_nat_alt)
  have "list_all label_char (clean_suffix suffix)" "length (clean_suffix suffix) \<le> 32"
    by (auto simp: clean_suffix_def list_all_iff dest!: in_set_takeD)
  then show ?thesis using i s' c v by (simp add: record_issue_def)
qed

text \<open>The session list shown was read from the relay's console at this request or at an earlier one less than
  five seconds ago, and no session has been kicked since that earlier one.\<close>

theorem session_list_fresh:
  assumes "snd (panel_handle env cookies ApiSessions s) = SessionList l"
    and "s = fst (run_actor panel_step (new_panel cfg metrics issued) ms)"
  shows "l = asked_console env cfg \<or>
    (\<exists>pre env0 c post. ms = pre @ (env0, Http c ApiSessions) # post \<and> l = asked_console env0 cfg \<and>
       pe_now env - pe_now env0 < SESSIONS_TTL \<and>
       run_ok panel_step (\<lambda>s m. \<not> served_kick s m)
         (fst (run_actor panel_step (new_panel cfg metrics issued) (pre @ [(env0, Http c ApiSessions)]))) post)"
proof -
  have cfg: "ps_cfg (fst (run_actor panel_step (new_panel cfg metrics issued) ps)) = cfg" for ps
    by (simp add: run_cfg new_panel_def)
  have "session_live env cookies s"
    using assms(1) guarded_denied [of env cookies s Forbidden] by (cases "session_live env cookies s") auto
  then have l: "snd (coturn_sessions (pe_console env) (pe_now env) s) = l"
    using assms(1) by (simp add: guarded_served split: prod.splits)
  show ?thesis
  proof (cases "l = asked_console env cfg")
    case False
    then obtain at where at: "ps_cache s = Some (at, l)" "pe_now env - at < SESSIONS_TTL"
      using l cfg [of ms] assms(2) by (auto simp: coturn_sessions_cases Let_def split: option.splits if_splits)
    then obtain pre m post where w: "ms = pre @ m # post"
      "lists_of (fst (run_actor panel_step (new_panel cfg metrics issued) pre)) m (at, l)"
      "run_ok panel_step (\<lambda>s m. \<not> served_kick s m) (fst (run_actor panel_step (new_panel cfg metrics issued) (pre @ [m]))) post"
      using lists.written [of "new_panel cfg metrics issued" ms "(at, l)"] assms(2) by (auto simp: new_panel_def)
    obtain env0 c where "m = (env0, Http c ApiSessions)" "at = pe_now env0" "l = asked_console env0 cfg"
      using w(2) cfg by (cases m) (auto simp: lists_of_def)
    then show ?thesis using w at(2) by blast
  qed simp
qed

text \<open>After any number of collector rounds in the order of time the store holds exactly the rows of the
  thirty days before the last round, each once per round: two rounds in one minute leave two rows.  A query
  gives the rows from its start on, in order.\<close>

theorem metrics_retained:
  assumes "sorted (map mr_ts rows)"
  shows "fold record_metrics rows [] = last_30_days rows \<and>
    metrics_since since (fold record_metrics rows []) =
      map (\<lambda>r. (mr_ts r, mr_rcvd r, mr_sent r)) (filter (\<lambda>r. since \<le> mr_ts r) (last_30_days rows))"
proof -
  have "sorted (map mr_ts (filter P (last_30_days rows)))" for P
    using assms by (simp add: last_30_days_def sorted_filter)
  then have "sort_key mr_ts (filter (\<lambda>r. since \<le> mr_ts r) (last_30_days rows)) = filter (\<lambda>r. since \<le> mr_ts r) (last_30_days rows)"
    by (rule sort_key_id_if_sorted)
  then show ?thesis by (simp add: record_all [OF assms] metrics_since_def)
qed

section \<open>Witnesses\<close>

definition panel_cfg :: PanelConfig where
  "panel_cfg =
     \<lparr>pc_admin_password = ''pw'', pc_relay_secret = ''k'', pc_relay_public_addr = ''h:1'', pc_prom_url = [],
      pc_cli_addr = [], pc_cli_password = []\<rparr>"

definition panel_env :: "nat \<Rightarrow> PanelEnv" where
  "panel_env now =
     \<lparr>pe_crypto = sample_crypto, pe_lower = id, pe_console = (\<lambda>_. Inr []), pe_prom = None, pe_now = now, pe_unix = 0\<rparr>"

abbreviation panel_start :: PanelState where
  "panel_start \<equiv> new_panel panel_cfg [] []"

abbreviation panel_login :: "PanelEnv \<times> PanelEvent" where
  "panel_login \<equiv> (panel_env 0, Http [] (PostLogin ''pw'' ''t''))"

abbreviation panel_cookie :: string where
  "panel_cookie \<equiv> hd (split_char (CHR '';'') (set_cookie ''t''))"

lemma panel_cookie_token: "session_token [panel_cookie] = Some ''t''"
  by (rule session_token_set_cookie) (simp_all add: visible_def)

lemma panel_login_step:
  "panel_step panel_start panel_login =
     (panel_start\<lparr>ps_sessions := [(''t'', SESSION_TTL)]\<rparr>, Some (RedirectCookie (set_cookie ''t'') ''/''))"
  by (simp add: login_def panel_cfg_def new_panel_def panel_env_def)

lemma panel_live: "n < SESSION_TTL \<Longrightarrow> session_live (panel_env n) [panel_cookie] (fst (panel_step panel_start panel_login))"
  by (simp add: panel_login_step session_live_def panel_cookie_token del: panel_step.simps) (simp add: panel_env_def)


theorem login_opens_panel_witness:
  "session_live (panel_env 5) [panel_cookie]
     (fst (run_actor panel_step panel_start (panel_login # [(panel_env 5, Scrape)])))"
proof -
  have "snd (panel_step panel_start panel_login) = Some (RedirectCookie (set_cookie ''t'') ''/'')"
    by (simp add: panel_login_step del: panel_step.simps)
  moreover have "list_all visible ''t''" "CHR '';'' \<notin> set ''t''" by (simp_all add: visible_def)
  moreover have "list_all (leaves_session ''t'' (pe_now (panel_env 0) + SESSION_TTL)) [(panel_env 5, Scrape)]"
    "pe_now (panel_env 5) < pe_now (panel_env 0) + SESSION_TTL"
    by (simp_all add: leaves_session_def logout_of_def panel_env_def SESSION_TTL_def)
  ultimately show ?thesis using login_opens_panel [OF _ _ _ _ _ refl] by blast
qed

theorem issued_credential_witness:
  "\<exists>s' i. issue sample_crypto 5 ''a b'' 0 panel_start = (s', i) \<and>
     verify sample_crypto ''k'' 59 (is_username i) (is_password i) \<and>
     \<not> verify sample_crypto ''k'' 60 (is_username i) (is_password i)"
proof -
  obtain s' i where i: "issue sample_crypto 5 ''a b'' 0 panel_start = (s', i)" by fastforce
  have "is_ttl i = 60" "pc_relay_secret (ps_cfg panel_start) = ''k''"
    using i by (auto simp: issue_def clamp_ttl_def panel_cfg_def new_panel_def Let_def split: prod.splits)
  then show ?thesis
    using i issued_credential [OF i, of 59] issued_credential [OF i, of 60] by auto
qed

theorem session_list_fresh_witness:
  "\<exists>l. snd (panel_handle (panel_env 5) [panel_cookie] ApiSessions (fst (run_actor panel_step panel_start [panel_login]))) = SessionList l \<and>
     l = asked_console (panel_env 5) panel_cfg"
proof -
  have live: "session_live (panel_env 5) [panel_cookie] (fst (panel_step panel_start panel_login))"
    by (rule panel_live) (simp add: SESSION_TTL_def)
  obtain l where "snd (panel_handle (panel_env 5) [panel_cookie] ApiSessions (fst (run_actor panel_step panel_start [panel_login]))) = SessionList l"
    by (simp add: guarded_served [OF live] case_prod_beta del: panel_step.simps)
  then show ?thesis
    using session_list_fresh [of "panel_env 5" "[panel_cookie]" "fst (run_actor panel_step panel_start [panel_login])" l panel_cfg "[]" "[]" "[panel_login]"]
    by (auto simp: Cons_eq_append_conv simp del: panel_step.simps panel_handle.simps fst_run_actor_Cons)
qed

definition row_at :: "int \<Rightarrow> MetricRow" where
  "row_at t = \<lparr>mr_ts = t, mr_udp = 0, mr_tcp = 0, mr_rcvd = t, mr_sent = 0\<rparr>"

theorem metrics_retained_witness:
  "fold record_metrics (map row_at [0, 43200, 43201, 43201]) [] = map row_at [43200, 43201, 43201] \<and>
   metrics_since 43201 (fold record_metrics (map row_at [0, 43200, 43201, 43201]) []) = [(43201, 43201, 0), (43201, 43201, 0)]"
proof -
  have "sorted (map mr_ts (map row_at [0, 43200, 43201, 43201]))"
    and rows: "last_30_days (map row_at [0, 43200, 43201, 43201]) = map row_at [43200, 43201, 43201]"
    by (simp_all add: row_at_def last_30_days_def)
  note kept = metrics_retained [OF this(1), of 43201, unfolded rows]
  show ?thesis by (intro conjI kept [THEN conjunct1] trans [OF kept [THEN conjunct2]]) (simp add: row_at_def)
qed

end
