(* ===== verification/Net_Addr.thy ===== *)
theory Net_Addr
  imports Stun Std_Str
begin

text \<open>
  The text form of socket addresses: \<open>Display\<close> and \<open>FromStr\<close> of \<open>std::net::SocketAddr\<close>, as a recursive
  descent over the characters the way the standard library does it.  The bytes of an address are in
  network order; a scope id is read and dropped.
\<close>

section \<open>Printing\<close>

definition join :: "string \<Rightarrow> string list \<Rightarrow> string" where
  "join sep xs = (case xs of [] \<Rightarrow> [] | x # r \<Rightarrow> x @ concat (map (\<lambda>y. sep @ y) r))"

definition show_ipv4 :: "bytes \<Rightarrow> string" where
  "show_ipv4 ip = join ''.'' (map (\<lambda>b. show_nat (unat b)) ip)"

fun show_hex :: "nat \<Rightarrow> string" where
  "show_hex n =
     (let c = char_of (if n mod 16 < 10 then 48 + n mod 16 else 87 + n mod 16)
      in if n < 16 then [c] else show_hex (n div 16) @ [c])"

declare show_hex.simps [simp del]

fun segments :: "bytes \<Rightarrow> nat list" where
  "segments (a # b # r) = (256 * unat a + unat b) # segments r"
| "segments _ = []"

text \<open>The first of the longest runs of zero segments, as start and length.\<close>

fun zero_run :: "nat list \<Rightarrow> nat \<Rightarrow> nat \<times> nat \<Rightarrow> nat \<times> nat \<Rightarrow> nat \<times> nat" where
  "zero_run [] i cur best = best"
| "zero_run (s # ss) i cur best =
     (if s = 0 then
        let cur = (if snd cur = 0 then (i, 1) else (fst cur, Suc (snd cur)))
        in zero_run ss (Suc i) cur (if snd cur > snd best then cur else best)
      else zero_run ss (Suc i) (0, 0) best)"

definition show_ipv6 :: "bytes \<Rightarrow> string" where
  "show_ipv6 ip =
     (let segs = segments ip; (start, len) = zero_run segs 0 (0, 0) (0, 0); hex = (\<lambda>ss. join '':'' (map show_hex ss)) in
      if take 5 segs = [0, 0, 0, 0, 0] \<and> segs ! 5 = 0xFFFF then ''::ffff:'' @ show_ipv4 (drop 12 ip)
      else if len > 1 then hex (take start segs) @ ''::'' @ hex (drop (start + len) segs)
      else hex segs)"

fun show_addr :: "SocketAddr \<Rightarrow> string" where
  "show_addr (V4 ip port) = show_ipv4 ip @ '':'' @ show_nat (unat port)"
| "show_addr (V6 ip port) = ''['' @ show_ipv6 ip @ '']:'' @ show_nat (unat port)"

section \<open>Parsing\<close>

text \<open>A parser gives the value read and the text left.\<close>

definition hex_digit_val :: "char \<Rightarrow> nat option" where
  "hex_digit_val c =
     (let n = of_char c in
      if 48 \<le> n \<and> n \<le> 57 then Some (n - 48)
      else if 65 \<le> n \<and> n \<le> 70 then Some (n - 55)
      else if 97 \<le> n \<and> n \<le> 102 then Some (n - 87) else None)"

definition digit_of :: "nat \<Rightarrow> char \<Rightarrow> nat option" where
  "digit_of radix c = (case hex_digit_val c of Some d \<Rightarrow> if d < radix then Some d else None | None \<Rightarrow> None)"

text \<open>\<open>Parser::read_number\<close>: \<open>mx\<close> is the largest value of the type.\<close>

definition read_number :: "nat \<Rightarrow> nat option \<Rightarrow> bool \<Rightarrow> int \<Rightarrow> string \<Rightarrow> (int \<times> string) option" where
  "read_number radix max_digits zero_prefix mx s =
     (let ds = takeWhile (\<lambda>c. digit_of radix c \<noteq> None) s;
          v = foldl (\<lambda>n c. int radix * n + int (the (digit_of radix c))) 0 ds in
      if ds = [] \<or> v > mx \<or> (case max_digits of Some k \<Rightarrow> length ds > k | None \<Rightarrow> False) \<or>
         (\<not> zero_prefix \<and> hd ds = CHR ''0'' \<and> length ds > 1)
      then None else Some (v, drop (length ds) s))"

definition read_char :: "char \<Rightarrow> string \<Rightarrow> string option" where
  "read_char c s = (case s of x # r \<Rightarrow> if x = c then Some r else None | [] \<Rightarrow> None)"

text \<open>\<open>read_separator\<close>: the separator comes before every element but the first.\<close>

definition read_sep :: "char \<Rightarrow> nat \<Rightarrow> (string \<Rightarrow> ('a \<times> string) option) \<Rightarrow> string \<Rightarrow> ('a \<times> string) option" where
  "read_sep c i p s = (if i > 0 then (case read_char c s of None \<Rightarrow> None | Some r \<Rightarrow> p r) else p s)"

fun read_octets :: "nat \<Rightarrow> nat \<Rightarrow> string \<Rightarrow> (bytes \<times> string) option" where
  "read_octets i 0 s = Some ([], s)"
| "read_octets i (Suc n) s =
     (case read_sep (CHR ''.'') i (read_number 10 (Some 3) False 255) s of
        None \<Rightarrow> None
      | Some (v, r) \<Rightarrow> (case read_octets (Suc i) n r of None \<Rightarrow> None | Some (vs, r') \<Rightarrow> Some (word_of_int v # vs, r')))"

definition read_ipv4 :: "string \<Rightarrow> (bytes \<times> string) option" where
  "read_ipv4 s = read_octets 0 4 s"

definition seg_bytes :: "int \<Rightarrow> bytes" where
  "seg_bytes n = [word_of_int (n div 256), word_of_int (n mod 256)]"

text \<open>\<open>read_groups\<close> with \<open>n\<close> groups still to fill: the bytes read, whether they end with an IPv4 address,
  and the text left.\<close>

fun read_groups :: "nat \<Rightarrow> nat \<Rightarrow> string \<Rightarrow> bytes \<times> bool \<times> string" where
  "read_groups i 0 s = ([], False, s)"
| "read_groups i (Suc n) s =
     (case (if n > 0 then read_sep (CHR '':'') i read_ipv4 s else None) of
        Some (v4, r) \<Rightarrow> (v4, True, r)
      | None \<Rightarrow>
          (case read_sep (CHR '':'') i (read_number 16 (Some 4) True 65535) s of
             Some (g, r) \<Rightarrow> (case read_groups (Suc i) n r of (bs, v4, r') \<Rightarrow> (seg_bytes g @ bs, v4, r'))
           | None \<Rightarrow> ([], False, s)))"

definition read_ipv6 :: "string \<Rightarrow> (bytes \<times> string) option" where
  "read_ipv6 s =
     (case read_groups 0 8 s of
        (head, head_v4, r) \<Rightarrow>
          if length head = 16 then Some (head, r)
          else if head_v4 then None
          else
            case Option.bind (read_char (CHR '':'') r) (read_char (CHR '':'')) of
              None \<Rightarrow> None
            | Some r1 \<Rightarrow>
                (case read_groups 0 (8 - (length head div 2 + 1)) r1 of
                   (tail, _, r2) \<Rightarrow> Some (head @ replicate (16 - length head - length tail) 0 @ tail, r2)))"

definition read_port :: "string \<Rightarrow> (u16 \<times> string) option" where
  "read_port s =
     (case read_char (CHR '':'') s of
        None \<Rightarrow> None
      | Some r \<Rightarrow> map_option (\<lambda>(v, r'). (word_of_int v, r')) (read_number 10 None True 65535 r))"

definition read_scope :: "string \<Rightarrow> string" where
  "read_scope s =
     (case Option.bind (read_char (CHR ''%'') s) (read_number 10 None True 4294967295) of None \<Rightarrow> s | Some (_, r) \<Rightarrow> r)"

definition read_v4 :: "string \<Rightarrow> (SocketAddr \<times> string) option" where
  "read_v4 s =
     (case read_ipv4 s of
        None \<Rightarrow> None
      | Some (ip, r) \<Rightarrow> map_option (\<lambda>(port, r'). (V4 ip port, r')) (read_port r))"

definition read_v6 :: "string \<Rightarrow> (SocketAddr \<times> string) option" where
  "read_v6 s =
     (case Option.bind (read_char (CHR ''['') s) read_ipv6 of
        None \<Rightarrow> None
      | Some (ip, r) \<Rightarrow>
          (case read_char (CHR '']'') (read_scope r) of
             None \<Rightarrow> None
           | Some r1 \<Rightarrow> map_option (\<lambda>(port, r'). (V6 ip port, r')) (read_port r1)))"

definition parse_addr :: "string \<Rightarrow> SocketAddr option" where
  "parse_addr s =
     (case (case read_v4 s of None \<Rightarrow> read_v6 s | Some x \<Rightarrow> Some x) of
        Some (a, []) \<Rightarrow> Some a
      | _ \<Rightarrow> None)"

section \<open>Lemmas\<close>

lemma digit_of_char: "digit_of 10 c = (if is_digit c then Some (digit_val c) else None)"
  by (auto simp: digit_of_def hex_digit_val_def is_digit_def digit_val_def Let_def)

lemma takeWhile_append_stop:
  "list_all P a \<Longrightarrow> (case b of [] \<Rightarrow> True | c # _ \<Rightarrow> \<not> P c) \<Longrightarrow> takeWhile P (a @ b) = a"
  by (cases b) (simp_all add: list_all_iff takeWhile_append2)

lemma hd_show_nat: "0 < n \<Longrightarrow> hd (show_nat n) \<noteq> CHR ''0''"
proof (induction n rule: show_nat.induct)
  case (1 n)
  show ?case
  proof (cases "n < 10")
    case True
    have "list_all (\<lambda>n. digit_char n \<noteq> CHR ''0'') [1..<10]" by code_simp
    then show ?thesis using True 1 by (simp add: show_nat.simps list_all_iff)
  next
    case False
    then have "hd (show_nat (n div 10)) \<noteq> CHR ''0''" using 1 by simp
    then show ?thesis using False by (subst show_nat.simps) simp
  qed
qed

lemma show_nat_no_zero: "\<not> (hd (show_nat n) = CHR ''0'' \<and> 1 < length (show_nat n))"
  using hd_show_nat [of n] by (cases "n = 0") (auto simp: show_nat.simps [of 0])

lemma length_show_nat: "n < 1000 \<Longrightarrow> length (show_nat n) \<le> 3"
  by (simp add: show_nat.simps [of n] show_nat.simps [of "n div 10"] show_nat.simps [of "n div 10 div 10"])

text \<open>A printed number is read back, up to the first character that is not a digit.\<close>

lemma read_number_show:
  assumes "int n \<le> mx" and "case max_digits of Some k \<Rightarrow> length (show_nat n) \<le> k | None \<Rightarrow> True"
    and "case r of [] \<Rightarrow> True | c # _ \<Rightarrow> \<not> is_digit c"
  shows "read_number 10 max_digits z mx (show_nat n @ r) = Some (int n, r)"
proof -
  have digits: "list_all is_digit (show_nat n)" by (rule show_nat_digits)
  have tw: "takeWhile (\<lambda>c. digit_of 10 c \<noteq> None) (show_nat n @ r) = show_nat n"
    using takeWhile_append_stop [OF digits assms(3)] by (simp add: digit_of_char)
  have "foldl (\<lambda>n c. int 10 * n + int (the (digit_of 10 c))) (int k) ds =
      int (foldl (\<lambda>n c. 10 * n + digit_val c) k ds)" if "list_all is_digit ds" for ds k
    using that
  proof (induction ds arbitrary: k)
    case (Cons c ds)
    then show ?case using Cons.IH [of "10 * k + digit_val c"] by (simp add: digit_of_char)
  qed simp
  from this [OF digits, of 0] have v: "foldl (\<lambda>n c. int 10 * n + int (the (digit_of 10 c))) 0 (show_nat n) = int n"
    by (simp add: digits_val_show_nat [unfolded digits_val_def])
  have "\<not> (hd (show_nat n) = CHR ''0'' \<and> length (show_nat n) > 1)" using show_nat_no_zero [of n] by simp
  then show ?thesis
    using assms(1,2) unfolding read_number_def Let_def tw v by (auto split: option.splits)
qed

lemma read_octets_show:
  assumes "n = length ip" "case r of [] \<Rightarrow> True | c # _ \<Rightarrow> \<not> is_digit c"
  shows "read_octets (Suc i) n (concat (map (\<lambda>b. ''.'' @ show_nat (unat b)) ip) @ r) = Some (ip, r)"
  using assms
proof (induction ip arbitrary: n i)
  case (Cons b ip)
  have b: "unat b \<le> 255" using unsigned_less [of b, where ?'a = nat] by simp
  have b': "uint b \<le> 255" using unsigned_less [of b, where ?'a = int] by simp
  from b have len: "length (show_nat (unat b)) \<le> 3" using length_show_nat by simp
  let ?rest = "concat (map (\<lambda>b. ''.'' @ show_nat (unat b)) ip) @ r"
  have "case ?rest of [] \<Rightarrow> True | c # _ \<Rightarrow> \<not> is_digit c"
    using Cons.prems(2) by (cases ip) (auto simp: is_digit_def)
  then have "read_number 10 (Some 3) False 255 (show_nat (unat b) @ ?rest) = Some (int (unat b), ?rest)"
    using b len b' by (intro read_number_show) simp_all
  then show ?case
    using Cons.IH [of "length ip" "Suc i"] Cons.prems by (auto simp: read_sep_def read_char_def)
qed simp

lemma read_ipv4_show:
  assumes "length ip = 4" "case r of [] \<Rightarrow> True | c # _ \<Rightarrow> \<not> is_digit c"
  shows "read_ipv4 (show_ipv4 ip @ r) = Some (ip, r)"
proof -
  obtain b ip' where ip: "ip = b # ip'" "length ip' = 3" using assms(1) by (cases ip) auto
  let ?rest = "concat (map (\<lambda>b. ''.'' @ show_nat (unat b)) ip') @ r"
  have b: "unat b \<le> 255" using unsigned_less [of b, where ?'a = nat] by simp
  have b': "uint b \<le> 255" using unsigned_less [of b, where ?'a = int] by simp
  from b have len: "length (show_nat (unat b)) \<le> 3" using length_show_nat by simp
  have "case ?rest of [] \<Rightarrow> True | c # _ \<Rightarrow> \<not> is_digit c"
    using assms(2) by (cases ip') (auto simp: is_digit_def)
  then have "read_number 10 (Some 3) False 255 (show_nat (unat b) @ ?rest) = Some (int (unat b), ?rest)"
    using b len b' by (intro read_number_show) simp_all
  moreover have "read_octets (Suc 0) 3 ?rest = Some (ip', r)"
    by (rule read_octets_show) (simp_all add: ip(2) assms(2))
  moreover have "show_ipv4 ip @ r = show_nat (unat b) @ ?rest"
    using ip by (simp add: show_ipv4_def join_def comp_def)
  moreover have "read_ipv4 s = (case read_number 10 (Some 3) False 255 s of
      None \<Rightarrow> None
    | Some (v, r) \<Rightarrow>
        (case read_octets (Suc 0) 3 r of None \<Rightarrow> None | Some (vs, r') \<Rightarrow> Some (word_of_int v # vs, r')))" for s
    using read_octets.simps(2) [of 0 3 s] by (simp add: read_ipv4_def read_sep_def)
  ultimately show ?thesis using ip by simp
qed

lemma parse_show_v4:
  assumes "length ip = 4"
  shows "parse_addr (show_addr (V4 ip port)) = Some (V4 ip port)"
proof -
  have port: "uint port \<le> 65535" using unsigned_less [of port, where ?'a = int] by simp
  have "read_number 10 None True 65535 (show_nat (unat port) @ []) = Some (int (unat port), [])"
    using port by (intro read_number_show) simp_all
  then have "read_port ('':'' @ show_nat (unat port)) = Some (port, [])"
    by (simp add: read_port_def read_char_def)
  then show ?thesis
    using read_ipv4_show [OF assms, of "'':'' @ show_nat (unat port)"]
    by (simp add: parse_addr_def read_v4_def is_digit_def)
qed

end
