(* ===== verification/Hole_Punch.thy ===== *)
theory Hole_Punch
  imports Net_Addr Relay_Bridge
begin

text \<open>
  Reaching a peer behind a NAT: the exchange of candidates and the race of QUIC connects
  (\<open>hole_punch_candidates\<close>, \<open>try_hole_punch\<close> of \<open>src/rust/core/src/handle.rs\<close> and \<open>handle_hole_punch\<close> of
  \<open>src/rust/core/src/server.rs\<close>), and the relay tunnels of \<open>maintain_bridge_listener\<close> and \<open>spawn_raw_bridge\<close>.

  \<^item> The slot of the QUIC endpoint is the port of its socket, once it is bound.
  \<^item> A connect attempt is the time in milliseconds at which it ends (\<open>None\<close>: never) and the connection it
    gives, if it succeeds.
  \<^item> The probe, the interfaces, the HTTP exchange and the dials are arguments.
\<close>

section \<open>Candidates\<close>

datatype IpAddr = IpV4 bytes | IpV6 bytes

record PunchEnv =
  pu_relay :: bool
  pu_mapped :: "SocketAddr option"
  pu_ifs :: "IpAddr list"
  pu_tls :: bool
  pu_port :: u16

text \<open>\<open>s.replace(p, r)\<close> for a pattern that is not empty\<close>

function str_replace :: "string \<Rightarrow> string \<Rightarrow> string \<Rightarrow> string" where
  "str_replace p r [] = []"
| "str_replace p r (c # s) =
     (if starts_with (c # s) p then r @ str_replace p r (drop (length p - 1) s) else c # str_replace p r s)"
  by pat_completeness auto
termination
  by (relation "measure (length \<circ> snd \<circ> snd)") auto

definition ensure_quic :: "u16 \<Rightarrow> u16 option \<Rightarrow> u16 option" where
  "ensure_quic port slot = (case slot of Some q \<Rightarrow> Some q | None \<Rightarrow> Some port)"

definition if_v4 :: "IpAddr \<Rightarrow> bytes option" where
  "if_v4 a = (case a of IpV4 ip \<Rightarrow> Some ip | IpV6 _ \<Rightarrow> None)"

text \<open>The slot afterwards, the candidates answered, and the addresses punched toward.\<close>

definition hole_punch_candidates ::
  "PunchEnv \<Rightarrow> string list \<Rightarrow> u16 option \<Rightarrow> u16 option \<times> string list \<times> SocketAddr list" where
  "hole_punch_candidates env peer_candidates slot =
     (let reflexive = (if pu_relay env then (case pu_mapped env of Some a \<Rightarrow> [show_addr a] | None \<Rightarrow> []) else []);
          locals = map (\<lambda>ip. show_addr (V4 ip 0)) (List.map_filter if_v4 (pu_ifs env));
          slot1 = (if pu_tls env then ensure_quic (pu_port env) slot else slot);
          punched = (if pu_tls env then List.map_filter parse_addr peer_candidates else []);
          out = reflexive @ locals
      in (slot1,
          (case slot1 of None \<Rightarrow> out | Some port \<Rightarrow> map (str_replace '':0'' ('':'' @ show_nat (unat port))) out),
          punched))"

definition our_candidates :: "PunchEnv \<Rightarrow> u16 option \<Rightarrow> u16 option \<times> string list" where
  "our_candidates env slot = (case hole_punch_candidates env [] slot of (slot1, out, _) \<Rightarrow> (slot1, out))"

definition handle_hole_punch ::
  "PunchEnv \<Rightarrow> string list \<Rightarrow> u16 option \<Rightarrow> u16 option \<times> string list \<times> SocketAddr list" where
  "handle_hole_punch env candidates slot = hole_punch_candidates env candidates slot"

section \<open>The race\<close>

record 'c Attempt =
  at_done :: "nat option"
  at_conn :: "'c option"

text \<open>\<open>select_all\<close>: the attempt that ends first, and the others.\<close>

fun select_all :: "'c Attempt list \<Rightarrow> ('c Attempt \<times> 'c Attempt list) option" where
  "select_all [] = None"
| "select_all (a # as) =
     (case (at_done a, select_all as) of
        (None, None) \<Rightarrow> None
      | (Some t, None) \<Rightarrow> Some (a, as)
      | (None, Some (b, rest)) \<Rightarrow> Some (b, a # rest)
      | (Some t, Some (b, rest)) \<Rightarrow> if t \<le> the (at_done b) then Some (a, as) else Some (b, a # rest))"

lemma select_all_length: "select_all as = Some (a, rest) \<Longrightarrow> length rest < length as"
  by (induction as arbitrary: a rest) (fastforce split: option.splits if_splits prod.splits)+

text \<open>The time at which the race is over, and its winner.\<close>

function race :: "nat \<Rightarrow> nat \<Rightarrow> 'c Attempt list \<Rightarrow> nat \<times> 'c option" where
  "race deadline now attempts =
     (if attempts = [] then (now, None)
      else
        case select_all attempts of
          None \<Rightarrow> (deadline, None)
        | Some (a, remaining) \<Rightarrow>
            let t = the (at_done a) in
            if t > deadline then (deadline, None)
            else case at_conn a of Some c \<Rightarrow> (t, Some c) | None \<Rightarrow> race deadline t remaining)"
  by pat_completeness auto
termination
  by (relation "measure (\<lambda>(_, _, as). length as)") (auto dest: select_all_length)

declare race.simps [simp del]

record 'c PunchNet =
  pn_tls_bridge :: "string + u16"
  pn_exchange :: "string list \<Rightarrow> string + (string + string option list option)"
  pn_connect :: "SocketAddr \<Rightarrow> 'c Attempt"

text \<open>
  \<open>pn_exchange\<close> is the error of the request, the error of reading its body, or the array under
  \<open>candidates\<close>, if there is one, with its entries that are strings.
\<close>

definition peer_addrs :: "string option list option \<Rightarrow> SocketAddr list" where
  "peer_addrs body =
     List.map_filter parse_addr (case body of None \<Rightarrow> [] | Some a \<Rightarrow> List.map_filter (\<lambda>v. v) a)"

definition try_hole_punch ::
  "'c PunchNet \<Rightarrow> PunchEnv \<Rightarrow> bool \<Rightarrow> u16 option \<Rightarrow> u16 option \<times> (string + 'c option)" where
  "try_hole_punch net env peer_is_https slot =
     (if \<not> pu_tls env then (slot, Inr None)
      else
        let (slot1, ours) = our_candidates env (ensure_quic (pu_port env) slot) in
        (slot1,
         case (if peer_is_https then pn_tls_bridge net else Inr 0) of
           Inl e \<Rightarrow> Inl (''exchange bridge: '' @ e)
         | Inr _ \<Rightarrow>
             (case pn_exchange net ours of
                Inl e \<Rightarrow> Inl (''hole-punch exchange: '' @ e)
              | Inr (Inl e) \<Rightarrow> Inl e
              | Inr (Inr body) \<Rightarrow>
                  let attempts = map (pn_connect net) (peer_addrs body) in
                  if attempts = [] then Inr None else Inr (snd (race 5000 0 attempts)))))"

section \<open>Relay tunnels\<close>

text \<open>One local connection of \<open>spawn_raw_bridge\<close>: \<open>dial k\<close> is the outcome of the \<open>k\<close>-th dial.  The result is
  the dial that gave the tunnel, and the milliseconds slept.\<close>

fun raw_bridge_dials :: "nat \<Rightarrow> nat \<Rightarrow> (nat \<Rightarrow> 'e + 't) \<Rightarrow> (nat \<times> 't) option \<times> nat" where
  "raw_bridge_dials 0 k dial = (None, 0)"
| "raw_bridge_dials (Suc n) k dial =
     (case dial k of
        Inr tunnel \<Rightarrow> (Some (k, tunnel), 0)
      | Inl _ \<Rightarrow> (case raw_bridge_dials n (Suc k) dial of (r, slept) \<Rightarrow> (r, 200 + slept)))"

definition raw_bridge_connection :: "(nat \<Rightarrow> 'e + 't) \<Rightarrow> (nat \<times> 't) option \<times> nat" where
  "raw_bridge_connection dial = raw_bridge_dials 10 0 dial"

text \<open>One round of \<open>maintain_bridge_listener\<close>: the relay, the outcome of the name lookup, whether the
  connect, the write and the local connect succeed.  The result is what was sent to which address,
  whether the tunnel was served, and the milliseconds slept.\<close>

record ListenerEnv =
  le_relay :: "string option"
  le_lookup :: "string + SocketAddr list"
  le_connect :: "SocketAddr \<Rightarrow> bool"
  le_write :: bool
  le_local :: "u16 \<Rightarrow> bool"

definition relay_sock :: "string \<Rightarrow> string + SocketAddr list \<Rightarrow> SocketAddr option" where
  "relay_sock addr lookup =
     (case parse_addr addr of
        Some a \<Rightarrow> Some a
      | None \<Rightarrow>
          (case lookup of
             Inl _ \<Rightarrow> None
           | Inr [] \<Rightarrow> Some (V4 [127, 0, 0, 1] 3478)
           | Inr (a # _) \<Rightarrow> Some a))"

definition listener_round ::
  "ListenerEnv \<Rightarrow> string \<Rightarrow> u16 \<Rightarrow> (SocketAddr \<times> bytes) option \<times> bool \<times> nat" where
  "listener_round env fingerprint port =
     (case le_relay env of
        None \<Rightarrow> (None, False, 30000)
      | Some addr \<Rightarrow>
          (case relay_sock addr (le_lookup env) of
             None \<Rightarrow> (None, False, 30000)
           | Some sock \<Rightarrow>
               if \<not> le_connect env sock then (None, False, 15000)
               else if \<not> le_write env then (None, False, 15000)
               else
                 let sent = Some (sock, bridge_header ''LISTEN'' fingerprint) in
                 if \<not> le_local env port then (sent, False, 15000) else (sent, True, 100)))"

text \<open>\<open>dial_bridge\<close>: the address must be literal; \<open>conn\<close> is the outcome of connecting, writing and reading.\<close>

definition dial_bridge :: "(SocketAddr \<Rightarrow> bytes \<Rightarrow> string + bytes) \<Rightarrow> string \<Rightarrow> string \<Rightarrow> (string + BridgeError) + unit" where
  "dial_bridge conn relay_addr target_fingerprint =
     (case parse_addr relay_addr of
        None \<Rightarrow> Inl (Inl ''invalid socket address syntax'')
      | Some addr \<Rightarrow>
          (case conn addr (bridge_header ''CONNECT'' target_fingerprint) of
             Inl e \<Rightarrow> Inl (Inl e)
           | Inr resp \<Rightarrow> (case bridge_response resp of Inl e \<Rightarrow> Inl (Inr e) | Inr _ \<Rightarrow> Inr ())))"

section \<open>Lemmas on candidates\<close>

lemma str_replace_skip: "CHR '':'' \<notin> set a \<Longrightarrow> str_replace '':0'' r (a @ b) = a @ str_replace '':0'' r b"
  by (induction a) (auto simp: starts_with_def)

lemma show_nat_no_colon: "CHR '':'' \<notin> set (show_nat n)"
proof -
  have "\<not> is_digit (CHR '':'')" by (simp add: is_digit_def)
  then show ?thesis using show_nat_digits [of n] by (auto simp: list_all_iff)
qed

lemma show_ipv4_no_colon: "CHR '':'' \<notin> set (show_ipv4 ip)"
  by (auto simp: show_ipv4_def join_def show_nat_no_colon split: list.split)

lemma str_replace_port:
  "str_replace '':0'' (CHR '':'' # show_nat (unat port)) (show_addr (V4 ip q)) =
     show_addr (V4 ip (if q = 0 then port else q))"
proof -
  have tail: "str_replace '':0'' r (show_nat n) = show_nat n" for r n
    using str_replace_skip [of "show_nat n" r "[]"] show_nat_no_colon by simp
  have "str_replace '':0'' ('':'' @ show_nat (unat port)) (CHR '':'' # show_nat (unat q)) =
      '':'' @ show_nat (unat (if q = 0 then port else q))"
  proof (cases "q = 0")
    case True
    have "show_nat 0 = ''0''" by code_simp
    then show ?thesis using True by (simp add: starts_with_def)
  next
    case False
    then have "0 < unat q" by (simp add: unat_gt_0)
    then have "hd (show_nat (unat q)) \<noteq> CHR ''0''" by (rule hd_show_nat)
    then have "\<not> starts_with (CHR '':'' # show_nat (unat q)) '':0''"
      by (cases "show_nat (unat q)") (auto simp: starts_with_def)
    then show ?thesis using False tail by simp
  qed
  then show ?thesis using str_replace_skip [OF show_ipv4_no_colon] by simp
qed

text \<open>The interfaces and the mapped address are what the operating system and STUN give: four bytes.\<close>

definition env_v4 :: "PunchEnv \<Rightarrow> bool" where
  "env_v4 env \<longleftrightarrow> list_all (\<lambda>ip. length ip = 4) (List.map_filter if_v4 (pu_ifs env)) \<and>
     (case pu_mapped env of Some (V4 ip q) \<Rightarrow> length ip = 4 \<and> q \<noteq> 0 | Some (V6 _ _) \<Rightarrow> False | None \<Rightarrow> True)"

text \<open>The addresses a device with a QUIC socket on \<open>port\<close> advertises.\<close>

definition punch_addrs :: "PunchEnv \<Rightarrow> u16 \<Rightarrow> SocketAddr list" where
  "punch_addrs env port =
     (if pu_relay env then (case pu_mapped env of Some a \<Rightarrow> [a] | None \<Rightarrow> []) else []) @
     map (\<lambda>ip. V4 ip port) (List.map_filter if_v4 (pu_ifs env))"

lemma candidates_addrs:
  assumes "env_v4 env" "pu_tls env"
  shows "hole_punch_candidates env peers slot =
    (ensure_quic (pu_port env) slot, map show_addr (punch_addrs env (the (ensure_quic (pu_port env) slot))),
     List.map_filter parse_addr peers)"
  using assms
  by (auto simp: hole_punch_candidates_def punch_addrs_def ensure_quic_def env_v4_def str_replace_port
      simp del: show_addr.simps split: option.splits SocketAddr.splits)

lemma map_filter_inverse: "list_all (\<lambda>a. f (g a) = Some a) xs \<Longrightarrow> List.map_filter f (map g xs) = xs"
  by (induction xs) (simp_all add: List.map_filter_simps)

lemma parse_punch_addrs:
  assumes "env_v4 env"
  shows "List.map_filter parse_addr (map show_addr (punch_addrs env port)) = punch_addrs env port"
proof -
  have "list_all (\<lambda>a. parse_addr (show_addr a) = Some a) (punch_addrs env port)"
  proof -
    have "list_all (\<lambda>a. parse_addr (show_addr a) = Some a)
        (map (\<lambda>ip. V4 ip port) (List.map_filter if_v4 (pu_ifs env)))"
      using assms unfolding env_v4_def list.pred_map comp_def
      by (auto simp del: show_addr.simps elim!: list.pred_mono_strong intro!: parse_show_v4)
    moreover have "parse_addr (show_addr a) = Some a" if "pu_mapped env = Some a" for a
      using assms that by (cases a) (simp_all add: env_v4_def parse_show_v4 del: show_addr.simps)
    ultimately show ?thesis by (simp add: punch_addrs_def del: show_addr.simps split: option.split)
  qed
  then show ?thesis by (rule map_filter_inverse)
qed

section \<open>Lemmas on the race\<close>

lemma select_all_None: "select_all as = None \<longleftrightarrow> list_all (\<lambda>a. at_done a = None) as"
  by (induction as) (auto split: option.splits)

lemma select_all_Some:
  "select_all as = Some (a, rest) \<Longrightarrow>
   set as = insert a (set rest) \<and> (\<exists>t. at_done a = Some t \<and> (\<forall>b \<in> set as. \<forall>u. at_done b = Some u \<longrightarrow> t \<le> u))"
proof (induction as arbitrary: a rest)
  case (Cons x as)
  show ?case
  proof (cases "select_all as")
    case None
    then have "\<forall>b \<in> set as. at_done b = None" by (simp add: select_all_None list_all_iff)
    then show ?thesis using Cons.prems None by (auto split: option.splits)
  next
    case (Some p)
    obtain b r where p: "p = (b, r)" by fastforce
    then obtain t where b: "set as = insert b (set r)" "at_done b = Some t"
      "\<forall>c \<in> set as. \<forall>u. at_done c = Some u \<longrightarrow> t \<le> u" using Cons.IH Some by blast
    then show ?thesis
      using Cons.prems Some p by (fastforce split: option.splits if_splits)
  qed
qed simp

text \<open>An attempt that gives a connection by the deadline.\<close>

definition wins :: "nat \<Rightarrow> 'c Attempt \<Rightarrow> 'c \<Rightarrow> nat \<Rightarrow> bool" where
  "wins deadline a c t \<longleftrightarrow> at_conn a = Some c \<and> at_done a = Some t \<and> t \<le> deadline"

lemma race_result:
  "now \<le> deadline \<Longrightarrow> fst (race deadline now as) \<le> deadline \<and>
   (case snd (race deadline now as) of
      None \<Rightarrow> \<not> (\<exists>a \<in> set as. \<exists>c t. wins deadline a c t)
    | Some c \<Rightarrow> (\<exists>a \<in> set as. wins deadline a c (fst (race deadline now as))) \<and>
        (\<forall>a \<in> set as. \<forall>c t. wins deadline a c t \<longrightarrow> fst (race deadline now as) \<le> t))"
proof (induction deadline now as rule: race.induct)
  case (1 deadline now as)
  consider "as = []" | "as \<noteq> []" "select_all as = None" | a rest where "as \<noteq> []" "select_all as = Some (a, rest)"
    by (cases "select_all as") auto
  then show ?case
  proof cases
    case 1
    then show ?thesis using 1 \<open>now \<le> deadline\<close> by (simp add: race.simps)
  next
    case 2
    then have "race deadline now as = (deadline, None)" by (simp add: race.simps [of deadline now as])
    moreover have "\<forall>a \<in> set as. at_done a = None" using 2 by (simp add: select_all_None list_all_iff)
    ultimately show ?thesis by (simp add: wins_def)
  next
    case 3
    obtain t where t: "set as = insert a (set rest)" "at_done a = Some t"
      "\<forall>b \<in> set as. \<forall>u. at_done b = Some u \<longrightarrow> t \<le> u" using select_all_Some [OF 3(2)] by blast
    consider "deadline < t" | c where "t \<le> deadline" "at_conn a = Some c" | "t \<le> deadline" "at_conn a = None"
      by (cases "at_conn a") force+
    then show ?thesis
    proof cases
      case 1
      then have "race deadline now as = (deadline, None)" using 3 t(2) by (simp add: race.simps [of deadline now as])
      then show ?thesis using 1 t(3) by (fastforce simp: wins_def)
    next
      case 2
      then have "race deadline now as = (t, Some c)" using 3 t(2) by (simp add: race.simps [of deadline now as])
      then show ?thesis using 2 t by (auto simp: wins_def)
    next
      case inner: 3
      then have r: "race deadline now as = race deadline t rest" using 3 t(2) by (simp add: race.simps [of deadline now as])
      have "\<not> wins deadline a c u" for c u using inner by (simp add: wins_def)
      then show ?thesis
        using "1.IH" [OF 3(1) 3(2) refl refl] inner 3 t r by (auto split: option.splits)
    qed
  qed
qed

section \<open>Lemmas on tunnels\<close>

lemma raw_bridge_dials_result:
  "raw_bridge_dials n k dial = (r, slept) \<Longrightarrow>
   (case r of
      None \<Rightarrow> (\<forall>j < n. \<exists>e. dial (k + j) = Inl e) \<and> slept = 200 * n
    | Some (i, tunnel) \<Rightarrow> k \<le> i \<and> i < k + n \<and> dial i = Inr tunnel \<and> slept = 200 * (i - k) \<and>
        (\<forall>j. k \<le> j \<and> j < i \<longrightarrow> (\<exists>e. dial j = Inl e)))"
proof (induction n arbitrary: k r slept)
  case (Suc n)
  show ?case
  proof (cases "dial k")
    case (Inl e)
    obtain r' s' where rest: "raw_bridge_dials n (Suc k) dial = (r', s')" by fastforce
    have here: "r = r'" "slept = 200 + s'" using Suc.prems Inl rest by simp_all
    show ?thesis
    proof (cases r')
      case None
      then have "\<forall>j < n. \<exists>e. dial (Suc k + j) = Inl e" "s' = 200 * n" using Suc.IH [OF rest] by auto
      then show ?thesis using None here Inl by (auto simp: less_Suc_eq_0_disj)
    next
      case (Some p)
      obtain i tunnel where p: "p = (i, tunnel)" by fastforce
      then have i: "Suc k \<le> i" "i < Suc k + n" "dial i = Inr tunnel" "s' = 200 * (i - Suc k)"
        "\<forall>j. Suc k \<le> j \<and> j < i \<longrightarrow> (\<exists>e. dial j = Inl e)" using Suc.IH [OF rest] Some by auto
      have "\<exists>e. dial j = Inl e" if "k \<le> j" "j < i" for j
        using that i(5) Inl by (cases "j = k") auto
      then show ?thesis using Some p here i(1-4) by auto
    qed
  qed (use Suc.prems in auto)
qed auto

section \<open>Properties\<close>

text \<open>C31. A hole punch ends: the race over the candidates of the peer is decided at the latest after five
  seconds, also when no attempt ever answers.  It gives a connection exactly if some candidate connects in
  that time, and then the one that connected first.\<close>

theorem hole_punch_ends:
  assumes "pu_tls env" and "peer_is_https \<longrightarrow> (\<exists>port. pn_tls_bridge net = Inr port)"
    and "pn_exchange net (snd (our_candidates env (ensure_quic (pu_port env) slot))) = Inr (Inr body)"
    and "attempts = map (pn_connect net) (peer_addrs body)"
  shows "fst (race 5000 0 attempts) \<le> 5000 \<and>
    (case snd (try_hole_punch net env peer_is_https slot) of
       Inl _ \<Rightarrow> False
     | Inr None \<Rightarrow> \<not> (\<exists>a \<in> set attempts. \<exists>c t. wins 5000 a c t)
     | Inr (Some c) \<Rightarrow> \<exists>a \<in> set attempts. \<exists>t. wins 5000 a c t \<and>
         (\<forall>b \<in> set attempts. \<forall>c' t'. wins 5000 b c' t' \<longrightarrow> t \<le> t'))"
proof -
  have "snd (try_hole_punch net env peer_is_https slot) = Inr (if attempts = [] then None else snd (race 5000 0 attempts))"
    using assms by (auto simp: try_hole_punch_def Let_def split: prod.splits sum.splits)
  then have "snd (try_hole_punch net env peer_is_https slot) = Inr (snd (race 5000 0 attempts))"
    by (simp add: race.simps)
  then show ?thesis using race_result [of 0 5000 attempts] by (auto split: option.splits)
qed

text \<open>C25. When two devices exchange candidates, each of them aims at exactly the addresses the other one
  advertises: the sender races connects to the relay's view of the receiver and to every local address of
  the receiver with the port of its QUIC socket, and the receiver punches toward the same addresses of the
  sender.\<close>

theorem hole_punch_meets:
  assumes "env_v4 sender" "pu_tls sender" "env_v4 receiver" "pu_tls receiver"
    and "peer_is_https \<longrightarrow> (\<exists>port. pn_tls_bridge net = Inr port)"
    and "pn_exchange net = (\<lambda>ours. Inr (Inr (Some (map Some (fst (snd (handle_hole_punch receiver ours rslot)))))))"
    and "punch_addrs receiver (the (ensure_quic (pu_port receiver) rslot)) \<noteq> []"
  shows "try_hole_punch net sender peer_is_https slot =
      (ensure_quic (pu_port sender) slot,
       Inr (snd (race 5000 0 (map (pn_connect net) (punch_addrs receiver (the (ensure_quic (pu_port receiver) rslot))))))) \<and>
    snd (snd (handle_hole_punch receiver (snd (our_candidates sender (ensure_quic (pu_port sender) slot))) rslot)) =
      punch_addrs sender (the (ensure_quic (pu_port sender) slot))"
proof -
  have twice: "ensure_quic p (ensure_quic p x) = ensure_quic p x" for p x
    by (simp add: ensure_quic_def split: option.split)
  have ours: "our_candidates sender (ensure_quic (pu_port sender) slot) =
      (ensure_quic (pu_port sender) slot, map show_addr (punch_addrs sender (the (ensure_quic (pu_port sender) slot))))"
    using candidates_addrs [OF assms(1,2)] by (simp add: our_candidates_def twice)
  have theirs: "handle_hole_punch receiver cs rslot =
      (ensure_quic (pu_port receiver) rslot, map show_addr (punch_addrs receiver (the (ensure_quic (pu_port receiver) rslot))),
       List.map_filter parse_addr cs)" for cs
    using candidates_addrs [OF assms(3,4)] by (simp add: handle_hole_punch_def)
  have addrs: "peer_addrs (Some (map Some (map show_addr as))) = List.map_filter parse_addr (map show_addr as)" for as
    unfolding peer_addrs_def option.case by (subst map_filter_inverse [of "\<lambda>v. v"]) (simp_all add: list_all_iff)
  have "snd (snd (handle_hole_punch receiver (snd (our_candidates sender (ensure_quic (pu_port sender) slot))) rslot)) =
      punch_addrs sender (the (ensure_quic (pu_port sender) slot))"
    unfolding ours theirs snd_conv by (rule parse_punch_addrs [OF assms(1)])
  moreover have "peer_addrs (Some (map Some (fst (snd (handle_hole_punch receiver cs rslot))))) =
      punch_addrs receiver (the (ensure_quic (pu_port receiver) rslot))" for cs
    unfolding theirs snd_conv fst_conv addrs by (rule parse_punch_addrs [OF assms(3)])
  ultimately show ?thesis
    using assms(2,5,6,7) by (auto simp: try_hole_punch_def ours Let_def split: sum.splits)
qed

text \<open>The first candidate a device with a relay advertises is the address its probe came from, port
  included, whatever port its QUIC socket has; the probe is a TCP connection of its own.  Of an IPv6 address
  the text replacement of the port can destroy the address.\<close>

theorem reflexive_candidate_port:
  assumes "pu_relay env" "pu_mapped env = Some (V4 ip q)" "q \<noteq> 0"
  shows "hd (fst (snd (hole_punch_candidates env peers slot))) = show_addr (V4 ip q) \<and>
    parse_addr (str_replace '':0'' '':40000'' (show_addr (V6 [0, 32, 0, 1, 0, 0, 0, 1, 0, 1, 0, 1, 0, 1, 0, 1] 80))) = None"
proof -
  have "parse_addr (str_replace '':0'' '':40000'' (show_addr (V6 [0, 32, 0, 1, 0, 0, 0, 1, 0, 1, 0, 1, 0, 1, 0, 1] 80))) = None"
    by code_simp
  moreover have "hd (fst (snd (hole_punch_candidates env peers slot))) = show_addr (V4 ip q)"
    using assms by (simp add: hole_punch_candidates_def str_replace_port Let_def del: show_addr.simps split: option.split)
  ultimately show ?thesis by blast
qed

text \<open>A relay given by name is used by the listening side only: the receiver looks the name up and
  registers, and every dial of a sender to the same relay fails before it connects.\<close>

theorem named_relay_not_dialled:
  assumes "parse_addr addr = None" and "le_relay env = Some addr" and "le_lookup env = Inr (sock # socks)"
    and "le_connect env sock" "le_write env" "le_local env port"
  shows "listener_round env fp port = (Some (sock, bridge_header ''LISTEN'' fp), True, 100) \<and>
    dial_bridge conn addr target = Inl (Inl ''invalid socket address syntax'')"
  using assms by (simp add: listener_round_def relay_sock_def dial_bridge_def)

text \<open>The dial with which a sender tests the relay uses up the receiver's registration: the next dial finds
  no listener until the receiver has registered again.  Each connection through the relay therefore dials up
  to ten times, 200 ms apart, and takes the first tunnel it gets.\<close>

theorem test_dial_uses_listener:
  assumes "hget (br_queue b) (br_next b) = None"
    and "b1 = fst (run_actor bridge_handle (bridge_listen fp b) [EvConnect c fp, EvSend c, EvWake (br_next b)])"
  shows "snd (bridge_handle (bridge_listen fp b) (EvConnect c fp)) = BOk \<and>
    snd (bridge_handle b1 (EvConnect c' fp)) = BNotFound \<and>
    snd (bridge_handle (bridge_listen fp b1) (EvConnect c' fp)) = BOk \<and>
    (case raw_bridge_connection dial of
       (None, slept) \<Rightarrow> slept = 2000 \<and> (\<forall>j < 10. \<exists>e. dial j = Inl e)
     | (Some (i, tunnel), slept) \<Rightarrow>
         i < 10 \<and> slept = 200 * i \<and> dial i = Inr tunnel \<and> (\<forall>j < i. \<exists>e. dial j = Inl e))"
proof -
  obtain r slept where r: "raw_bridge_connection dial = (r, slept)" by fastforce
  have "case r of None \<Rightarrow> slept = 2000 \<and> (\<forall>j < 10. \<exists>e. dial j = Inl e)
     | Some (i, tunnel) \<Rightarrow> i < 10 \<and> slept = 200 * i \<and> dial i = Inr tunnel \<and> (\<forall>j < i. \<exists>e. dial j = Inl e)"
    using raw_bridge_dials_result [of 10 0 dial r slept] r
    by (auto simp: raw_bridge_connection_def split: option.splits)
  then show ?thesis
    using assms r
    by (simp add: bridge_listen_def bridge_connect_def bridge_send_def bridge_wake_def Let_def split: option.splits)
qed

section \<open>Witnesses\<close>

definition punch_sender :: PunchEnv where
  "punch_sender =
     \<lparr>pu_relay = True, pu_mapped = Some (V4 [9, 9, 9, 9] 7), pu_ifs = [IpV4 [10, 0, 0, 1]], pu_tls = True, pu_port = 50\<rparr>"

definition punch_receiver :: PunchEnv where
  "punch_receiver =
     \<lparr>pu_relay = False, pu_mapped = None, pu_ifs = [IpV6 [], IpV4 [10, 0, 0, 2], IpV4 [127, 0, 0, 1]], pu_tls = True, pu_port = 60\<rparr>"

definition punch_net :: "string PunchNet" where
  "punch_net =
     \<lparr>pn_tls_bridge = Inl [],
      pn_exchange = (\<lambda>ours. Inr (Inr (Some (map Some (fst (snd (handle_hole_punch punch_receiver ours None))))))),
      pn_connect = (\<lambda>a. if a = V4 [10, 0, 0, 2] 60 then \<lparr>at_done = Some 30, at_conn = Some ''c''\<rparr>
                         else \<lparr>at_done = None, at_conn = None\<rparr>)\<rparr>"

lemma punch_envs:
  "env_v4 punch_sender" "pu_tls punch_sender" "env_v4 punch_receiver" "pu_tls punch_receiver"
  by (simp_all add: env_v4_def punch_sender_def punch_receiver_def if_v4_def List.map_filter_simps)

lemma punch_receiver_addrs: "punch_addrs punch_receiver 60 = [V4 [10, 0, 0, 2] 60, V4 [127, 0, 0, 1] 60]"
  by (simp add: punch_addrs_def punch_receiver_def if_v4_def List.map_filter_simps)

lemma punch_port: "the (ensure_quic (pu_port punch_receiver) None) = 60"
  by (simp add: ensure_quic_def punch_receiver_def)

theorem hole_punch_meets_witness:
  "snd (try_hole_punch punch_net punch_sender False None) =
     Inr (snd (race 5000 0 (map (pn_connect punch_net) [V4 [10, 0, 0, 2] 60, V4 [127, 0, 0, 1] 60])))"
  using hole_punch_meets [OF punch_envs, of False punch_net None None] punch_port
  by (simp add: punch_receiver_addrs) (simp add: punch_net_def)

theorem hole_punch_ends_witness:
  "fst (race 5000 0 (map (pn_connect punch_net) [V4 [10, 0, 0, 2] 60, V4 [127, 0, 0, 1] 60])) \<le> 5000"
proof -
  let ?ours = "snd (our_candidates punch_sender (ensure_quic (pu_port punch_sender) None))"
  let ?body = "Some (map Some (fst (snd (handle_hole_punch punch_receiver ?ours None))))"
  have "handle_hole_punch punch_receiver ?ours None =
      (Some 60, map show_addr (punch_addrs punch_receiver 60), List.map_filter parse_addr ?ours)"
    using candidates_addrs [OF punch_envs(3,4), of ?ours None] punch_port
    by (simp add: handle_hole_punch_def ensure_quic_def punch_receiver_def)
  then have "?body = Some (map Some (map show_addr (punch_addrs punch_receiver 60)))" by simp
  moreover have "List.map_filter (\<lambda>v. v) (map Some xs) = xs" for xs :: "string list"
    by (rule map_filter_inverse) (simp add: list_all_iff)
  ultimately have "peer_addrs ?body = punch_addrs punch_receiver 60"
    using parse_punch_addrs [OF punch_envs(3), of 60] by (simp only: peer_addrs_def option.case)
  moreover have "pn_exchange punch_net ?ours = Inr (Inr ?body)" by (simp add: punch_net_def)
  ultimately show ?thesis
    using hole_punch_ends [OF punch_envs(2), of False punch_net None ?body] by (simp add: punch_receiver_addrs)
qed

theorem reflexive_candidate_port_witness:
  "hd (fst (snd (hole_punch_candidates punch_sender [] None))) = show_addr (V4 [9, 9, 9, 9] 7) \<and> pu_port punch_sender \<noteq> 7"
  using reflexive_candidate_port [of punch_sender "[9, 9, 9, 9]" 7 "[]" None] by (simp add: punch_sender_def)

definition named_relay :: ListenerEnv where
  "named_relay =
     \<lparr>le_relay = Some ''turn.example.com:3478'', le_lookup = Inr [V4 [9, 9, 9, 9] 3478], le_connect = (\<lambda>_. True),
      le_write = True, le_local = (\<lambda>_. True)\<rparr>"

theorem named_relay_not_dialled_witness:
  "listener_round named_relay ''f'' 53317 = (Some (V4 [9, 9, 9, 9] 3478, bridge_header ''LISTEN'' ''f''), True, 100) \<and>
   dial_bridge (\<lambda>_ _. Inr []) ''turn.example.com:3478'' ''f'' = Inl (Inl ''invalid socket address syntax'')"
proof -
  have "parse_addr ''turn.example.com:3478'' = None" by code_simp
  then show ?thesis
    using named_relay_not_dialled [of "''turn.example.com:3478''" named_relay "V4 [9, 9, 9, 9] 3478" "[]" 53317 "''f''" "\<lambda>_ _. Inr []" "''f''"]
    by (simp add: named_relay_def)
qed

theorem test_dial_uses_listener_witness:
  "snd (bridge_handle (fst (run_actor bridge_handle (bridge_listen ''f'' new_bridge) [EvConnect 7 ''f'', EvSend 7, EvWake 0]))
     (EvConnect 8 ''f'')) = BNotFound \<and>
   raw_bridge_connection (\<lambda>k. if k < 2 then Inl ''absent'' else Inr ''tunnel'') = (Some (2, ''tunnel''), 400)"
proof -
  have "raw_bridge_connection (\<lambda>k. if k < 2 then Inl ''absent'' else Inr ''tunnel'') = (Some (2, ''tunnel''), 400)"
    by code_simp
  then show ?thesis
    using test_dial_uses_listener [of new_bridge _ "''f''" 7 8 "\<lambda>k. if k < 2 then Inl ''absent'' else Inr ''tunnel''", OF _ refl]
    by (simp add: new_bridge_def)
qed

end
