(* ===== verification/Cli_Run.thy ===== *)
theory Cli_Run
  imports Cli_State Handle_Props
begin

text \<open>
  The commands of the terminal program: \<open>send\<close> and \<open>receive\<close> of \<open>src/rust/cli/src/headless.rs\<close> and the key
  handler of \<open>src/rust/cli/src/tui.rs\<close>, on the core's session actor.

  \<^item> A round of a command's loop is what the watch channels hold when it looks at them, and the wake-up
    that ends its wait.  A run is the list of its rounds; \<open>Waiting\<close> is a loop that has not returned.
  \<^item> What is printed is kept as the states and percentages, not as text.
  \<^item> A key is a named key or a character (its UTF-8 bytes) with the control modifier.
\<close>

section \<open>The send command\<close>

datatype Wake = IndexChanged | IndexClosed | EventsChanged SessionEvent | EventsClosed

record Round =
  rd_index :: "SessionSummary list"
  rd_event :: SessionEvent
  rd_wake :: Wake

datatype Exit = Waiting | ExitOk | ExitErr string

record SendLoop =
  sl_progress :: "(string, nat) hashmap"
  sl_percent :: int
  sl_shown :: "(MissionState \<times> int) list"

definition new_loop :: SendLoop where
  "new_loop = \<lparr>sl_progress = [], sl_percent = -1, sl_shown = []\<rparr>"

text \<open>\<open>size.max(0)\<close> of an \<open>i64\<close>\<close>

definition max0 :: "i64 \<Rightarrow> i64" where
  "max0 x = (if x <s 0 then 0 else x)"

definition file_done :: "(string, nat) hashmap \<Rightarrow> MissionFileInfo \<Rightarrow> u64" where
  "file_done progress f =
     (let live = (case hget progress (fi_id (mf_info f)) of Some n \<Rightarrow> word_of_nat n | None \<Rightarrow> 0);
          sz = max0 (fi_size (mf_info f))
      in case mf_state f of FFinish \<Rightarrow> sz | _ \<Rightarrow> min live sz)"

definition percent_done :: "(string, nat) hashmap \<Rightarrow> MissionFileInfo list \<Rightarrow> int option" where
  "percent_done progress files =
     (let total = sum_list (map (\<lambda>f. max0 (fi_size (mf_info f))) files);
          completed = sum_list (map (file_done progress) files)
      in if 0 <s total then Some (sint (completed * 100 div total)) else None)"

definition report_percent :: "SessionSummary \<Rightarrow> SendLoop \<Rightarrow> SendLoop" where
  "report_percent s st =
     (case percent_done (sl_progress st) (sm_files s) of
        None \<Rightarrow> st
      | Some percent \<Rightarrow>
          if percent \<noteq> sl_percent st
          then st\<lparr>sl_percent := percent, sl_shown := sl_shown st @ [(sm_state s, percent)]\<rparr>
          else st)"

definition fail_text :: "SessionEvent \<Rightarrow> (SessionEvent \<Rightarrow> string) \<Rightarrow> string" where
  "fail_text event debug = ''send failed: '' @ (case event of EvFailed reason \<Rightarrow> reason | other \<Rightarrow> debug other)"

text \<open>What a round decides before it waits; \<open>debug\<close> is the derived \<open>Debug\<close> text of an event.\<close>

definition send_verdict :: "(SessionEvent \<Rightarrow> string) \<Rightarrow> string \<Rightarrow> Round \<Rightarrow> Exit" where
  "send_verdict debug session_id r =
     (case find (\<lambda>s. sm_id s = session_id) (rd_index r) of
        None \<Rightarrow> Waiting
      | Some s \<Rightarrow>
          (case sm_state s of
             Finished \<Rightarrow> ExitOk
           | Failed \<Rightarrow> ExitErr (fail_text (rd_event r) debug)
           | Canceled \<Rightarrow> ExitErr ''send canceled''
           | _ \<Rightarrow> Waiting))"

definition send_report :: "string \<Rightarrow> Round \<Rightarrow> SendLoop \<Rightarrow> SendLoop" where
  "send_report session_id r st =
     (case find (\<lambda>s. sm_id s = session_id) (rd_index r) of None \<Rightarrow> st | Some s \<Rightarrow> report_percent s st)"

fun headless_send :: "(SessionEvent \<Rightarrow> string) \<Rightarrow> string \<Rightarrow> Round list \<Rightarrow> SendLoop \<Rightarrow> SendLoop \<times> Exit" where
  "headless_send debug session_id [] st = (st, Waiting)"
| "headless_send debug session_id (r # rs) st =
     (case send_verdict debug session_id r of
        Waiting \<Rightarrow>
          let st1 = send_report session_id r st in
          (case rd_wake r of
             IndexChanged \<Rightarrow> headless_send debug session_id rs st1
           | IndexClosed \<Rightarrow> (st1, ExitErr ''session index closed'')
           | EventsClosed \<Rightarrow> (st1, ExitErr ''session events closed'')
           | EventsChanged event \<Rightarrow>
               headless_send debug session_id rs
                 (case event of
                    Progress file_id bytes \<Rightarrow> st1\<lparr>sl_progress := hput file_id bytes (sl_progress st1)\<rparr>
                  | _ \<Rightarrow> st1))
      | e \<Rightarrow> (st, e))"

text \<open>The start of the command: a missing file, or the error of starting the session, ends it.\<close>

definition send_start ::
  "(string \<Rightarrow> string) \<Rightarrow> (nat \<Rightarrow> string) \<Rightarrow> (string \<Rightarrow> bool) \<Rightarrow> NodeDevice \<Rightarrow> Selected list \<Rightarrow> Actor \<Rightarrow> Actor \<times> (string + string)" where
  "send_start lower gen exists target files a =
     (case find (\<lambda>f. \<not> exists (sf_path f)) files of
        Some f \<Rightarrow> (a, Inl (''file not found: '' @ sf_path f))
      | None \<Rightarrow>
          (case send_files lower gen target files a of
             (a1, Inl e) \<Rightarrow> (a1, Inl ''failed to start send session'')
           | (a1, Inr (i, _)) \<Rightarrow> (a1, Inr i)))"

section \<open>The receive command\<close>

definition pending_ids :: "SessionSummary list \<Rightarrow> string list" where
  "pending_ids index = map sm_id (filter (\<lambda>s. sm_direction s = Receive \<and> sm_state s = Pending) index)"

definition terminal_recv :: "SessionSummary list \<Rightarrow> (string \<times> MissionState) list" where
  "terminal_recv index =
     map (\<lambda>s. (sm_id s, sm_state s))
       (filter (\<lambda>s. sm_direction s = Receive \<and> sm_state s \<in> {Finished, Failed, Canceled}) index)"

definition accept_all :: "(nat \<Rightarrow> string) \<Rightarrow> string list \<Rightarrow> Actor \<Rightarrow> Actor" where
  "accept_all gen ids a = fold (\<lambda>i a. fst (accept gen i None a)) ids a"

definition receive_round :: "(nat \<Rightarrow> string) \<Rightarrow> bool \<Rightarrow> SessionSummary list \<Rightarrow> Actor \<Rightarrow> Actor \<times> bool option" where
  "receive_round gen once index a =
     (accept_all gen (pending_ids index) a,
      if once then (case terminal_recv index of [] \<Rightarrow> None | (i, st) # _ \<Rightarrow> Some (st = Finished)) else None)"

section \<open>Keys\<close>

datatype KeyCode = KEsc | KEnter | KBackspace | KTab | KBackTab | KUp | KDown | KChar string | KOther

record KeyEnv =
  ke_gen :: "nat \<Rightarrow> string"
  ke_lower :: "string \<Rightarrow> string"
  ke_exists :: "string \<Rightarrow> bool"
  ke_meta :: "string \<Rightarrow> string + i64"

text \<open>\<open>buffer.pop()\<close> removes the last character, whose bytes after the first are continuation bytes.\<close>

definition pop_char :: "string \<Rightarrow> string" where
  "pop_char s = rev (drop 1 (dropWhile (\<lambda>c. is_cont (byte_of_char c)) (rev s)))"

definition prompt_key :: "KeyEnv \<Rightarrow> KeyCode \<Rightarrow> string \<Rightarrow> UiApp \<Rightarrow> UiApp" where
  "prompt_key env key buffer a =
     (case key of
        KEsc \<Rightarrow> a\<lparr>ui_input := NormalInput\<rparr>
      | KEnter \<Rightarrow>
          let input = str_trim buffer; a1 = a\<lparr>ui_input := NormalInput\<rparr> in
          if input = [] then a1
          else
            (case stage_files (ke_exists env) (split_whitespace input) a1 of
               (a2, missing) \<Rightarrow>
                 a2\<lparr>ui_notice := Some
                     (case missing of
                        [] \<Rightarrow> show_nat (length (ui_pending_files a2)) @ '' file(s) staged''
                      | p # _ \<Rightarrow> ''not found: '' @ p)\<rparr>)
      | KBackspace \<Rightarrow> a\<lparr>ui_input := AddingFile (pop_char buffer)\<rparr>
      | KChar c \<Rightarrow> a\<lparr>ui_input := AddingFile (buffer @ c)\<rparr>
      | _ \<Rightarrow> a)"

definition with_notice :: "string \<Rightarrow> UiApp \<Rightarrow> UiApp" where
  "with_notice n a = a\<lparr>ui_notice := Some n\<rparr>"

definition answer_key ::
  "string \<Rightarrow> string \<Rightarrow> (string \<Rightarrow> Actor \<Rightarrow> Actor \<times> (SessionError + unit)) \<Rightarrow> UiApp \<Rightarrow> Actor \<Rightarrow> UiApp \<times> Actor" where
  "answer_key ok_text err_text op a c =
     (case focused a of
        Some s \<Rightarrow>
          if is_pending_receive s then
            (case op (sv_id s) c of
               (c1, Inr _) \<Rightarrow> (with_notice ok_text a, c1)
             | (c1, Inl e) \<Rightarrow> (with_notice (err_text @ show_session_error e) a, c1))
          else (a, c)
      | None \<Rightarrow> (a, c))"

definition cancel_key :: "(nat \<Rightarrow> string) \<Rightarrow> UiApp \<Rightarrow> Actor \<Rightarrow> UiApp \<times> Actor" where
  "cancel_key gen a c =
     (case focused a of
        Some s \<Rightarrow> if \<not> view_terminal s then (with_notice ''session canceled'' a, cancel gen (sv_id s) c) else (a, c)
      | None \<Rightarrow> (a, c))"

definition no_files_text :: string where
  "no_files_text =
     ''no files staged '' @ [CHR 0xE2, CHR 0x80, CHR 0x94] @ '' press '' @ [CHR 0x27] @ ''a'' @ [CHR 0x27] @ '' to add''"

definition send_key :: "KeyEnv \<Rightarrow> nat \<Rightarrow> UiApp \<Rightarrow> Actor \<Rightarrow> UiApp \<times> Actor" where
  "send_key env idx a c =
     (if ui_pending_files a = [] then (with_notice no_files_text a, c)
      else if idx < length (ui_devices a) then
        let target = ui_devices a ! idx;
            files = map (\<lambda>p. \<lparr>sf_path = p, sf_size = ke_meta env p\<rparr>) (ui_pending_files a);
            a1 = a\<lparr>ui_pending_files := []\<rparr>
        in case send_files (ke_lower env) (ke_gen env) target files c of
             (c1, Inr (i, _)) \<Rightarrow> (with_notice (''sending to '' @ nd_alias target @ '' (session '' @ i @ '')'') a1, c1)
           | (c1, Inl e) \<Rightarrow> (with_notice (''send failed: '' @ show_send_error e) a1, c1)
      else (with_notice (''no device #'' @ show_nat idx) a, c))"

text \<open>The interface, the core and whether the program quits; announcing changes neither of the first two.\<close>

definition normal_char :: "KeyEnv \<Rightarrow> bool \<Rightarrow> string \<Rightarrow> UiApp \<Rightarrow> Actor \<Rightarrow> (UiApp \<times> Actor) \<times> bool" where
  "normal_char env ctrl ch a c =
     (if ch = ''q'' then ((a, c), True)
      else if ch = ''c'' \<and> ctrl then ((a, c), True)
      else if ch = ''d'' then ((with_notice ''re-announced on the local network'' a, c), False)
      else if ch = ''a'' then ((a\<lparr>ui_input := AddingFile []\<rparr>, c), False)
      else if ch = ''y'' then (answer_key ''accepted'' ''accept failed: '' (\<lambda>i. accept (ke_gen env) i None) a c, False)
      else if ch = ''n'' then (answer_key ''declined'' ''decline failed: '' (decline (ke_gen env)) a c, False)
      else if ch = ''c'' then (cancel_key (ke_gen env) a c, False)
      else if ch = ''x'' then
        (case clear_terminal a of
           (a1, n) \<Rightarrow> ((with_notice (''cleared '' @ show_nat n @ '' finished session(s)'') a1, c), False))
      else case ch of
        [d] \<Rightarrow> if is_digit d \<and> d \<noteq> CHR ''0'' then (send_key env (digit_val d - 1) a c, False) else ((a, c), False)
      | _ \<Rightarrow> ((a, c), False))"

definition handle_key :: "KeyEnv \<Rightarrow> KeyCode \<Rightarrow> bool \<Rightarrow> UiApp \<Rightarrow> Actor \<Rightarrow> (UiApp \<times> Actor) \<times> bool" where
  "handle_key env key ctrl a c =
     (case ui_input a of
        AddingFile buffer \<Rightarrow> ((prompt_key env key buffer a, c), False)
      | NormalInput \<Rightarrow>
          (case key of
             KTab \<Rightarrow> ((cycle_focus 1 a, c), False)
           | KDown \<Rightarrow> ((cycle_focus 1 a, c), False)
           | KBackTab \<Rightarrow> ((cycle_focus (-1) a, c), False)
           | KUp \<Rightarrow> ((cycle_focus (-1) a, c), False)
           | KChar ch \<Rightarrow> normal_char env ctrl ch a c
           | _ \<Rightarrow> ((a, c), False)))"

section \<open>Lemmas\<close>

text \<open>A round after which the send loop goes round again.\<close>

definition goes_on :: "(SessionEvent \<Rightarrow> string) \<Rightarrow> string \<Rightarrow> Round \<Rightarrow> bool" where
  "goes_on debug i r \<longleftrightarrow> send_verdict debug i r = Waiting \<and> rd_wake r \<noteq> IndexClosed \<and> rd_wake r \<noteq> EventsClosed"

definition closing :: "Wake \<Rightarrow> Exit" where
  "closing w = ExitErr (if w = IndexClosed then ''session index closed'' else ''session events closed'')"

lemma headless_send_outcome:
  "snd (headless_send debug i rs st) =
     (case find (\<lambda>r. \<not> goes_on debug i r) rs of
        None \<Rightarrow> Waiting
      | Some r \<Rightarrow> if send_verdict debug i r = Waiting then closing (rd_wake r) else send_verdict debug i r)"
  by (induction rs arbitrary: st)
    (auto simp: goes_on_def closing_def Let_def split: Exit.splits Wake.splits)

lemma unat_sum_list:
  "sum_list (map (\<lambda>x. unat (f x)) xs) < 2 ^ LENGTH('w) \<Longrightarrow>
   unat (sum_list (map f xs)) = sum_list (map (\<lambda>x. unat (f x :: 'w :: len word)) xs)"
proof (induction xs)
  case (Cons x xs)
  then show ?case by (simp add: unat_word_ariths)
qed simp

lemma sint_small: "unat (x :: 64 word) < 2 ^ 63 \<Longrightarrow> sint x = int (unat x)"
proof -
  assume "unat x < 2 ^ 63"
  then have "int (unat x) < int (2 ^ 63)" by (simp only: of_nat_less_iff)
  then have "uint x < 2 ^ 63" by simp
  moreover have "0 \<le> uint x" by simp
  ultimately have "signed_take_bit 63 (uint x) = uint x"
    by (intro signed_take_bit_int_eq_self) linarith+
  then show ?thesis by (simp add: sint_uint)
qed

lemma file_done_le: "unat (file_done progress f) \<le> unat (max0 (fi_size (mf_info f)))"
  by (auto simp: file_done_def Let_def min_def word_le_nat_alt split: FileState.split)

definition bytes_total :: "MissionFileInfo list \<Rightarrow> nat" where
  "bytes_total files = sum_list (map (\<lambda>f. unat (max0 (fi_size (mf_info f)))) files)"

definition bytes_done :: "(string, nat) hashmap \<Rightarrow> MissionFileInfo list \<Rightarrow> nat" where
  "bytes_done progress files = sum_list (map (\<lambda>f. unat (file_done progress f)) files)"

lemma bytes_done_le: "bytes_done progress files \<le> bytes_total files"
  unfolding bytes_done_def bytes_total_def by (intro sum_list_mono file_done_le)

lemma percent_done_eq:
  assumes "100 * bytes_total files < 2 ^ 63"
  shows "percent_done progress files =
    (if bytes_total files = 0 then None else Some (int (100 * bytes_done progress files div bytes_total files)))"
proof -
  let ?t = "sum_list (map (\<lambda>f. max0 (fi_size (mf_info f))) files)"
  let ?c = "sum_list (map (file_done progress) files)"
  have t: "unat ?t = bytes_total files"
    unfolding bytes_total_def by (rule unat_sum_list) (use assms in \<open>simp add: bytes_total_def\<close>)
  have le: "bytes_done progress files \<le> bytes_total files" by (rule bytes_done_le)
  have c: "unat ?c = bytes_done progress files"
    unfolding bytes_done_def by (rule unat_sum_list) (use assms le in \<open>simp add: bytes_done_def\<close>)
  have c100: "unat (?c * 100) = 100 * bytes_done progress files"
    using assms le c by (simp add: unat_word_ariths)
  have pos: "0 <s ?t \<longleftrightarrow> bytes_total files \<noteq> 0"
    using sint_small [of ?t] assms t by (simp add: word_sless_alt)
  have div: "unat (?c * 100 div ?t) = 100 * bytes_done progress files div bytes_total files"
    by (simp add: unat_div c100 t)
  moreover have "100 * bytes_done progress files div bytes_total files < 2 ^ 63"
    using assms le by (meson div_le_dividend le_less_trans mult_le_mono2)
  ultimately have "sint (?c * 100 div ?t) = int (100 * bytes_done progress files div bytes_total files)"
    by (simp add: sint_small)
  then show ?thesis using pos by (simp add: percent_done_def Let_def)
qed

text \<open>Accepting one session leaves the others alone.\<close>

lemma accept_other: "j \<noteq> i \<Longrightarrow> hget (a_sessions (fst (accept gen i fids a))) j = hget (a_sessions a) j"
  by (auto simp: accept_def on_accept_def Let_def check_finish_other case_prod_beta split: option.split)

lemma accept_delivered_mono: "set (a_delivered a) \<subseteq> set (a_delivered (fst (accept gen i fids a)))"
  by (auto simp: accept_def on_accept_def Let_def case_prod_beta split: option.split)

lemma accept_pending:
  assumes "hget (a_sessions a) i = Some s" "s_direction s = Receive" "s_state s = Pending" "s_decision s = Some i"
  shows "\<exists>s'. hget (a_sessions (fst (accept gen i None a))) i = Some s' \<and> s_state s' \<in> {Transfering, Finished} \<and>
    (i, Accepted (accepted_tokens (accepted_ids None (s_files s)) (s_files s))) \<in> set (a_delivered (fst (accept gen i None a)))"
proof -
  obtain s' where s': "accept_session None s = (s', [(i, Accepted (accepted_tokens (accepted_ids None (s_files s)) (s_files s)))])"
    "s_state s' = Transfering" by (rule accept_session_spec [OF assms(4), where fids = None]) blast
  then have "fst (accept gen i None a) =
      check_finish i (broadcast_index (deliver [(i, Accepted (accepted_tokens (accepted_ids None (s_files s)) (s_files s)))]
        (put_session i s' a)))"
    using assms by (simp add: accept_def on_accept_def)
  then show ?thesis using s'(2) by (simp add: check_finish_get)
qed

lemma accept_all_other: "j \<notin> set ids \<Longrightarrow> hget (a_sessions (accept_all gen ids a)) j = hget (a_sessions a) j"
  by (induction ids arbitrary: a) (simp_all add: accept_all_def accept_other)

lemma accept_all_delivered_mono: "set (a_delivered a) \<subseteq> set (a_delivered (accept_all gen ids a))"
proof (induction ids arbitrary: a)
  case (Cons i ids)
  show ?case using accept_delivered_mono [of a gen i None] Cons.IH [of "fst (accept gen i None a)"]
    by (auto simp: accept_all_def)
qed (simp add: accept_all_def)

lemma accept_all_pending:
  assumes "distinct ids" "i \<in> set ids" "hget (a_sessions a) i = Some s" "s_direction s = Receive" "s_state s = Pending"
    "s_decision s = Some i"
  shows "\<exists>s'. hget (a_sessions (accept_all gen ids a)) i = Some s' \<and> s_state s' \<in> {Transfering, Finished} \<and>
    (i, Accepted (accepted_tokens (accepted_ids None (s_files s)) (s_files s))) \<in> set (a_delivered (accept_all gen ids a))"
  using assms
proof (induction ids arbitrary: a)
  case (Cons j ids)
  let ?a = "fst (accept gen j None a)"
  have fold: "accept_all gen (j # ids) a = accept_all gen ids ?a" by (simp add: accept_all_def)
  show ?case
  proof (cases "i = j")
    case True
    then have "i \<notin> set ids" using Cons.prems(1) by simp
    then show ?thesis
      using accept_pending [OF Cons.prems(3-6), of gen] True accept_all_other [of i ids gen ?a]
        accept_all_delivered_mono [of ?a gen ids] unfolding fold by auto
  next
    case False
    then show ?thesis
      using Cons.IH [of ?a] Cons.prems accept_other [OF False, of gen None a] unfolding fold by simp
  qed
qed simp

lemma find_key_iff:
  "distinct (map key xs) \<Longrightarrow> find (\<lambda>x. key x = k) xs = Some x \<longleftrightarrow> x \<in> set xs \<and> key x = k"
  by (induction xs) (auto simp: image_iff)

lemma pending_ids_index:
  assumes "inj gen" "session_reachable gen mx a"
  shows "distinct (pending_ids (watch_borrow (session_index gen a)))"
    and "i \<in> set (pending_ids (watch_borrow (session_index gen a))) \<longleftrightarrow>
      (\<exists>s. hget (a_sessions a) i = Some s \<and> s_direction s = Receive \<and> s_state s = Pending)"
proof -
  note idx = find_index [OF assms]
  show "distinct (pending_ids (watch_borrow (session_index gen a)))"
    using idx(2) by (simp add: pending_ids_def distinct_map_filter)
  have mem: "s \<in> set (watch_borrow (session_index gen a)) \<and> sm_id s = i \<longleftrightarrow> get_session gen i a = Some s" for s
    using find_key_iff [OF idx(2), of i s] idx(1) [of i] by simp
  have "i \<in> set (pending_ids (watch_borrow (session_index gen a))) \<longleftrightarrow>
      (\<exists>s. (s \<in> set (watch_borrow (session_index gen a)) \<and> sm_id s = i) \<and> sm_direction s = Receive \<and> sm_state s = Pending)"
    unfolding pending_ids_def by auto
  also have "\<dots> \<longleftrightarrow> (\<exists>s. get_session gen i a = Some s \<and> sm_direction s = Receive \<and> sm_state s = Pending)"
    unfolding mem ..
  also have "\<dots> \<longleftrightarrow> (\<exists>s. hget (a_sessions a) i = Some s \<and> s_direction s = Receive \<and> s_state s = Pending)"
    by (cases "hget (a_sessions a) i") (simp_all add: get_session_def summary_def)
  finally show "i \<in> set (pending_ids (watch_borrow (session_index gen a))) \<longleftrightarrow>
      (\<exists>s. hget (a_sessions a) i = Some s \<and> s_direction s = Receive \<and> s_state s = Pending)" .
qed

text \<open>The keys that reach the core.\<close>

lemma decline_other: "j \<noteq> i \<Longrightarrow> hget (a_sessions (fst (decline gen i a))) j = hget (a_sessions a) j"
  by (auto simp: decline_def on_decline_def Let_def case_prod_beta split: option.split)

lemma cancel_other: "j \<noteq> i \<Longrightarrow> hget (a_sessions (cancel gen i a)) j = hget (a_sessions a) j"
  by (auto simp: cancel_def cancel_session_def Let_def case_prod_beta split: option.split)

lemma answer_key_other:
  assumes "\<And>i c. j \<noteq> i \<Longrightarrow> hget (a_sessions (fst (op i c))) j = hget (a_sessions c) j"
    and "hget (a_sessions (snd (answer_key t e op a c))) j \<noteq> hget (a_sessions c) j"
  shows "\<exists>v. focused a = Some v \<and> sv_id v = j \<and> is_pending_receive v"
  using assms
  by (auto simp: answer_key_def split: option.splits if_splits prod.splits sum.splits) (metis fst_conv)+

lemma cancel_key_other:
  assumes "hget (a_sessions (snd (cancel_key gen a c))) j \<noteq> hget (a_sessions c) j"
  shows "\<exists>v. focused a = Some v \<and> sv_id v = j \<and> \<not> view_terminal v"
  using assms cancel_other [of j _ gen c] by (fastforce simp: cancel_key_def split: option.splits if_splits)

lemma send_files_keeps:
  assumes "inj gen" "session_inv gen a" "hget (a_sessions a) j = Some s"
  shows "hget (a_sessions (fst (send_files lower gen target files a))) j = Some s"
proof (cases "files = [] \<or> (\<exists>e. file_entries lower gen (a_uuid a) files = Inl e)")
  case True
  then show ?thesis using assms(3) by (auto simp: send_files_def)
next
  case False
  then obtain entries n where e: "files \<noteq> []" "file_entries lower gen (a_uuid a) files = Inr (entries, n)"
    by (cases "file_entries lower gen (a_uuid a) files") auto
  then have "a_uuid a \<le> n" using file_entries_ids [OF e(2)] by simp
  moreover obtain k where "k < a_uuid a" "j = gen k"
    using assms(2,3) by (auto simp: session_inv_def ids_drawn_def)
  ultimately have "j \<noteq> gen n" using assms(1) by (simp add: inj_eq)
  then show ?thesis
    using e assms(3) by (simp add: send_files_def create_send_session_def on_create_send_def Let_def)
qed

lemma send_key_keeps:
  assumes "inj (ke_gen env)" "session_inv (ke_gen env) c" "hget (a_sessions c) j = Some s"
  shows "hget (a_sessions (snd (send_key env idx a c))) j = Some s"
proof -
  have "hget (a_sessions c1) j = Some s" if "send_files (ke_lower env) (ke_gen env) target files c = (c1, r)" for target files c1 r
    using send_files_keeps [OF assms, of "ke_lower env" target files] that by simp
  then show ?thesis using assms(3) by (auto simp: send_key_def Let_def split: prod.split sum.split)
qed

lemma ui_ok_cong:
  "ui_sessions a' = ui_sessions a \<Longrightarrow> ui_hidden a' = ui_hidden a \<Longrightarrow> ui_focus a' = ui_focus a \<Longrightarrow> ui_ok a' = ui_ok a"
  by (simp add: ui_ok_def)

lemma prompt_key_ok: "ui_ok (prompt_key env key buffer a) = ui_ok a"
  by (cases key; rule ui_ok_cong) (auto simp: prompt_key_def stage_files_def Let_def)

lemma answer_key_ok: "ui_ok (fst (answer_key t e op a c)) = ui_ok a"
  by (rule ui_ok_cong) (auto simp: answer_key_def with_notice_def split: option.split prod.split sum.split)

lemma cancel_key_ok: "ui_ok (fst (cancel_key gen a c)) = ui_ok a"
  by (rule ui_ok_cong) (auto simp: cancel_key_def with_notice_def split: option.split)

lemma send_key_ok: "ui_ok (fst (send_key env idx a c)) = ui_ok a"
  by (rule ui_ok_cong) (auto simp: send_key_def with_notice_def Let_def split: prod.split sum.split)

lemma with_notice_ok [simp]: "ui_ok (with_notice n a) = ui_ok a"
  by (rule ui_ok_cong) (simp_all add: with_notice_def)

lemma ui_ok_input [simp]: "ui_ok (a\<lparr>ui_input := m\<rparr>) = ui_ok a"
  by (rule ui_ok_cong) simp_all

lemma normal_char_ok:
  assumes "ui_ok a"
  shows "ui_ok (fst (fst (normal_char env ctrl ch a c)))"
proof -
  have clear: "ui_ok (fst (clear_terminal a))" using ui_ok_step [OF assms, of UiClear] by simp
  show ?thesis
    unfolding normal_char_def
    by (simp add: assms answer_key_ok cancel_key_ok send_key_ok clear case_prod_beta split: list.split)
qed

lemma handle_key_ok: "ui_ok a \<Longrightarrow> ui_ok (fst (fst (handle_key env key ctrl a c)))"
  using ui_ok_step [of a "UiCycle 1"] ui_ok_step [of a "UiCycle (-1)"] normal_char_ok
  by (auto simp: handle_key_def prompt_key_ok split: InputMode.split KeyCode.split)

lemma normal_char_core:
  "ch = ''y'' \<or> ch = ''n'' \<or> (ch = ''c'' \<and> \<not> ctrl) \<or> snd (fst (normal_char env ctrl ch a c)) = c \<or>
   (\<exists>idx. snd (fst (normal_char env ctrl ch a c)) = snd (send_key env idx a c))"
proof (cases "ch = ''y'' \<or> ch = ''n'' \<or> (ch = ''c'' \<and> \<not> ctrl)")
  case False
  show ?thesis
  proof (cases "\<exists>d. ch = [d] \<and> is_digit d \<and> d \<noteq> CHR ''0''")
    case True
    then obtain d where "ch = [d]" "is_digit d" "d \<noteq> CHR ''0''" by blast
    moreover have "d \<noteq> CHR ''q''" "d \<noteq> CHR ''c''" "d \<noteq> CHR ''d''" "d \<noteq> CHR ''a''" "d \<noteq> CHR ''y''" "d \<noteq> CHR ''n''"
      "d \<noteq> CHR ''x''" using \<open>is_digit d\<close> by (auto simp: is_digit_def)
    ultimately have "normal_char env ctrl ch a c = (send_key env (digit_val d - 1) a c, False)"
      by (simp add: normal_char_def)
    then have "snd (fst (normal_char env ctrl ch a c)) = snd (send_key env (digit_val d - 1) a c)" by simp
    then show ?thesis by blast
  next
    case nodigit: False
    have "snd (fst (normal_char env ctrl ch a c)) = c"
      unfolding normal_char_def using False nodigit by (auto simp: case_prod_beta split: list.split)
    then show ?thesis by blast
  qed
qed blast

lemma handle_key_changes:
  assumes "inj (ke_gen env)" "session_inv (ke_gen env) c" "hget (a_sessions c) j = Some s"
    and "hget (a_sessions (snd (fst (handle_key env key ctrl a c)))) j \<noteq> Some s"
  shows "ui_input a = NormalInput \<and> (\<exists>v. focused a = Some v \<and> sv_id v = j \<and>
    (key = KChar ''y'' \<and> is_pending_receive v \<or> key = KChar ''n'' \<and> is_pending_receive v \<or>
     key = KChar ''c'' \<and> \<not> ctrl \<and> \<not> view_terminal v))"
proof -
  obtain ch where ch: "ui_input a = NormalInput" "key = KChar ch"
    "hget (a_sessions (snd (fst (normal_char env ctrl ch a c)))) j \<noteq> Some s"
    using assms(3,4) by (auto simp: handle_key_def split: InputMode.splits KeyCode.splits)
  consider "ch = ''y''" | "ch = ''n''" | "ch = ''c''" "\<not> ctrl" | "snd (fst (normal_char env ctrl ch a c)) = c" |
    idx where "snd (fst (normal_char env ctrl ch a c)) = snd (send_key env idx a c)"
    using normal_char_core [of ch ctrl env a c] by blast
  then show ?thesis
  proof cases
    case 1
    then show ?thesis
      using ch assms(3) answer_key_other [of j "\<lambda>i. accept (ke_gen env) i None" "''accepted''" "''accept failed: ''" a c, OF accept_other]
      by (simp add: normal_char_def)
  next
    case 2
    then show ?thesis
      using ch assms(3) answer_key_other [of j "decline (ke_gen env)" "''declined''" "''decline failed: ''" a c, OF decline_other] by (simp add: normal_char_def)
  next
    case 3
    then show ?thesis
      using ch assms(3) cancel_key_other [of "ke_gen env" a c j] by (simp add: normal_char_def)
  qed (use ch(3) assms(3) send_key_keeps [OF assms(1-3)] in auto)
qed

section \<open>Properties\<close>

text \<open>The send command ends with the verdict of the first snapshot in which its session has ended: success if
  it is finished, the reason if it failed, otherwise that it was canceled.  Until then it waits, unless a
  channel of the core is closed.\<close>

theorem headless_send_result:
  "snd (headless_send debug i rs st) =
     (case find (\<lambda>r. \<not> goes_on debug i r) rs of
        None \<Rightarrow> Waiting
      | Some r \<Rightarrow> if send_verdict debug i r = Waiting then closing (rd_wake r) else send_verdict debug i r)"
  by (rule headless_send_outcome)

text \<open>The send command does not return when the receiver takes only some of the files: every upload has
  ended, the session still counts as transferring, and however often the command looks again it waits.\<close>

theorem partial_accept_waits:
  assumes "send_files lower gen target files a0 = (a, Inr (i, entries))" and "inj gen"
    and "initial_route gen env app i target force a = (a1, Inr (view, pristine))"
    and "prepare_with_fallback gen env app i
        \<lparr>fr_info = from_device (current_device app), fr_files = hcollect entries\<rparr> view pristine force a1 w =
      ((a2, w2), Inr (view', Inr resp))"
    and "hwf (rs_files resp)"
    and "uploads_ok env view' (rs_session_id resp) (file_paths entries files) (rs_files resp) w2"
    and "rs_files resp \<noteq> []" and "fid \<in> set (map fst entries)" "hget (rs_files resp) fid = None"
    and "c = fst (run_send_driver gen env app i target files entries force a w)"
    and "list_all (\<lambda>r. find (\<lambda>s. sm_id s = i) (rd_index r) = get_session gen i c \<and>
      rd_wake r \<noteq> IndexClosed \<and> rd_wake r \<noteq> EventsClosed) rs"
  shows "snd (headless_send debug i rs st) = Waiting"
proof -
  note new = view_send_files [OF assms(1,2)]
  then obtain F where "sess_view i F (send_result (map fst entries) (rs_files resp)) c"
    using driver_view [OF _ _ _ _ assms(3-6)] assms(10) by blast
  moreover have "\<not> set (map fst entries) \<subseteq> fst ` set (rs_files resp)"
    using assms(8,9) by (auto simp: map_of_eq_None_iff)
  ultimately have "map_option sm_state (get_session gen i c) = Some Transfering"
    using view_get_session [of i F _ c gen] assms(7) by (simp add: send_result_def)
  then have "list_all (goes_on debug i) rs"
    using assms(11) by (auto simp: list_all_iff goes_on_def send_verdict_def)
  then have "find (\<lambda>r. \<not> goes_on debug i r) rs = None" by (auto simp: find_None_iff list_all_iff)
  then show ?thesis by (simp add: headless_send_outcome)
qed

text \<open>The percentage the send command shows is between 0 and 100, for transfers of less than 92 petabytes,
  and is the share of the bytes done; an empty transfer shows none.\<close>

theorem percent_in_range:
  assumes "100 * bytes_total files < 2 ^ 63"
  shows "(percent_done progress files = None) = (bytes_total files = 0) \<and>
    (\<forall>p. percent_done progress files = Some p \<longrightarrow>
       0 \<le> p \<and> p \<le> 100 \<and> p = int (100 * bytes_done progress files div bytes_total files))"
proof -
  have "100 * bytes_done progress files div bytes_total files \<le> 100" if "bytes_total files \<noteq> 0"
  proof -
    have "100 * bytes_done progress files div bytes_total files \<le> 100 * bytes_total files div bytes_total files"
      using bytes_done_le by (intro div_le_mono) simp
    then show ?thesis using that by simp
  qed
  then show ?thesis by (auto simp: percent_done_eq [OF assms])
qed

text \<open>A round of the receive command accepts every receive session that waits for an answer, with all its
  files, and touches no other session.\<close>

theorem receive_accepts_pending:
  assumes "inj gen" "session_reachable gen mx a"
    and "receive_round gen once (watch_borrow (session_index gen a)) a = (a', r)"
    and "hget (a_sessions a) i = Some s"
  shows "if s_direction s = Receive \<and> s_state s = Pending
    then s_decision s = Some i \<longrightarrow>
      (\<exists>s'. hget (a_sessions a') i = Some s' \<and> s_state s' \<in> {Transfering, Finished} \<and>
        (i, Accepted (accepted_tokens (accepted_ids None (s_files s)) (s_files s))) \<in> set (a_delivered a'))
    else hget (a_sessions a') i = Some s"
proof -
  have a': "a' = accept_all gen (pending_ids (watch_borrow (session_index gen a))) a"
    using assms(3) by (simp add: receive_round_def)
  note ids = pending_ids_index [OF assms(1,2)]
  show ?thesis
    using accept_all_pending [OF ids(1), of i a s gen] accept_all_other [of i _ gen a] ids(2) [of i] assms(4) a' by auto
qed

text \<open>C8. A key changes a session of the core only by answering or canceling the session in focus, and only while
  no path is being typed: accepting and declining need a pending receive session, canceling one that has not
  ended.  Only q and Ctrl-C quit, and the interface stays well formed.\<close>

theorem keys_touch_focus:
  assumes "inj (ke_gen env)" "session_reachable (ke_gen env) mx c" "hget (a_sessions c) j = Some s"
    and "handle_key env key ctrl a c = ((a', c'), quit)" and "ui_ok a"
  shows "(hget (a_sessions c') j = Some s \<or>
      ui_input a = NormalInput \<and> (\<exists>v. focused a = Some v \<and> sv_id v = j \<and>
        (key = KChar ''y'' \<and> is_pending_receive v \<or> key = KChar ''n'' \<and> is_pending_receive v \<or>
         key = KChar ''c'' \<and> \<not> ctrl \<and> \<not> view_terminal v))) \<and>
    quit = (ui_input a = NormalInput \<and> (key = KChar ''q'' \<or> key = KChar ''c'' \<and> ctrl)) \<and> ui_ok a'"
proof -
  have inv: "session_inv (ke_gen env) c" by (rule reachable_session_inv [OF assms(1,2)])
  have "snd (normal_char env ctrl ch a c) = (ch = ''q'' \<or> ch = ''c'' \<and> ctrl)" for ch
    unfolding normal_char_def by (auto split: prod.split list.split)
  then have "snd (handle_key env key ctrl a c) = (ui_input a = NormalInput \<and> (key = KChar ''q'' \<or> key = KChar ''c'' \<and> ctrl))"
    by (auto simp: handle_key_def split: InputMode.split KeyCode.split)
  then show ?thesis
    using handle_key_changes [OF assms(1) inv assms(3), of key ctrl a] handle_key_ok [OF assms(5), of env key ctrl c] assms(4)
    by auto
qed

section \<open>Witnesses\<close>

theorem partial_accept_waits_witness:
  "snd (headless_send (\<lambda>_. []) ''uuu''
     [\<lparr>rd_index = (case get_session sample_gen ''uuu'' (fst (run_send_driver sample_gen
         (sample_env (Inr \<lparr>rs_session_id = ''r'', rs_files = [(''u'', ''t'')]\<rparr>)) sample_app ''uuu'' sample_peer
         sample_selection sample_entries False sample_sent ())) of None \<Rightarrow> [] | Some s \<Rightarrow> [s]),
       rd_event = EvFailed [], rd_wake = IndexChanged\<rparr>] new_loop) = Waiting"
proof -
  let ?resp = "\<lparr>rs_session_id = ''r'', rs_files = [(''u'', ''t'')]\<rparr>"
  let ?env = "sample_env (Inr ?resp)"
  let ?c = "fst (run_send_driver sample_gen ?env sample_app ''uuu'' sample_peer sample_selection sample_entries False sample_sent ())"
  let ?r = "\<lparr>rd_index = (case get_session sample_gen ''uuu'' ?c of None \<Rightarrow> [] | Some s \<Rightarrow> [s]), rd_event = EvFailed [], rd_wake = IndexChanged\<rparr>"
  have prep: "prepare_with_fallback sample_gen ?env sample_app ''uuu''
      \<lparr>fr_info = from_device (current_device sample_app), fr_files = hcollect sample_entries\<rparr>
      sample_peer None False sample_sent () = ((sample_sent, ()), Inr (sample_peer, Inr ?resp))"
    by (simp add: prepare_with_fallback_def sample_env_def)
  have "map_option sm_id (get_session sample_gen ''uuu'' ?c) = Some ''uuu''" by code_simp
  then have id: "get_session sample_gen ''uuu'' ?c = Some s \<Longrightarrow> sm_id s = ''uuu''" for s by simp
  show ?thesis
    using partial_accept_waits [OF sample_send_eq inj_sample_gen sample_direct prep, of "''uu''" ?c "[?r]" "\<lambda>_. []" new_loop] id
    by (simp add: hwf_def sample_env_def sample_ids split: option.split del: set_map)
qed

theorem percent_in_range_witness:
  "100 * bytes_total [\<lparr>mf_info = \<lparr>fi_id = ''f'', fi_file_name = ''f'', fi_size = 8, fi_file_type = [], fi_sha256 = None, fi_preview = None\<rparr>,
     mf_state = FTransfer\<rparr>] = 800 \<and>
   percent_done [(''f'', 2)] [\<lparr>mf_info = \<lparr>fi_id = ''f'', fi_file_name = ''f'', fi_size = 8, fi_file_type = [], fi_sha256 = None, fi_preview = None\<rparr>,
     mf_state = FTransfer\<rparr>] = Some 25"
proof -
  let ?f = "\<lparr>mf_info = \<lparr>fi_id = ''f'', fi_file_name = ''f'', fi_size = 8, fi_file_type = [], fi_sha256 = None, fi_preview = None\<rparr>,
     mf_state = FTransfer\<rparr> :: MissionFileInfo"
  have t: "bytes_total [?f] = 8" and d: "bytes_done [(''f'', 2)] [?f] = 2" by code_simp+
  then show ?thesis using percent_in_range [of "[?f]" "[(''f'', 2)]"] by (cases "percent_done [(''f'', 2)] [?f]") auto
qed

theorem receive_accepts_pending_witness:
  "\<exists>s'. hget (a_sessions (fst (receive_round sample_gen True (watch_borrow (session_index sample_gen sample_state)) sample_state))) ''u'' = Some s' \<and>
    s_state s' \<in> {Transfering, Finished}"
proof -
  have "map_option (\<lambda>s. (s_direction s, s_state s, s_decision s)) (hget (a_sessions sample_state) ''u'') = Some (Receive, Pending, Some ''u'')"
    by code_simp
  then obtain s where "hget (a_sessions sample_state) ''u'' = Some s" "s_direction s = Receive" "s_state s = Pending" "s_decision s = Some ''u''"
    by auto
  then show ?thesis
    using receive_accepts_pending [where once = True and i = "''u''" and s = s, OF inj_sample_gen sample_reachable prod.collapse [symmetric]] by auto
qed

definition key_env :: KeyEnv where
  "key_env = \<lparr>ke_gen = sample_gen, ke_lower = id, ke_exists = (\<lambda>_. True), ke_meta = (\<lambda>_. Inr 0)\<rparr>"

theorem keys_touch_focus_witness:
  "\<exists>s. hget (a_sessions sample_state) ''u'' = Some s \<and>
     hget (a_sessions (snd (fst (handle_key key_env (KChar ''n'') False (new_ui []) sample_state)))) ''u'' = Some s \<and>
     \<not> snd (handle_key key_env (KChar ''n'') False (new_ui []) sample_state)"
proof -
  have "hget (a_sessions sample_state) ''u'' \<noteq> None" by code_simp
  then obtain s where s: "hget (a_sessions sample_state) ''u'' = Some s" by auto
  have "focused (new_ui []) = None" by (simp add: focused_def new_ui_def)
  then show ?thesis
    using keys_touch_focus [of key_env 2 sample_state "''u''" s "KChar ''n''" False "new_ui []"] s inj_sample_gen sample_reachable
    by (auto simp: key_env_def prod_eq_iff)
qed

end
