(* ===== verification/Ffi_Bridge.thy ===== *)
theory Ffi_Bridge
  imports Handle_Props
begin

text \<open>
  The interface of the Flutter application, \<open>src/rust/ffi/src\<close>: the mirrored data types of \<open>actor/model.rs\<close>,
  \<open>actor/core.rs\<close> and \<open>api/model.rs\<close>, and the calls of \<open>bridge.rs\<close> on the one running core.

  \<^item> \<open>Ffi\<close> keeps every core ever created, so that a core nobody can reach any more stays visible;
    \<open>fx_slot\<close> is \<open>RUNNING_CORE\<close>.
  \<^item> \<open>setup\<close> locks the slot twice; the parts between are steps of their own (\<open>SetupStep\<close>), and a run of
    steps is any interleaving of calls.
  \<^item> The streams to Dart and the log sink are left out.
\<close>

section \<open>Mirrored types\<close>

record FfiNodeDevice =
  fd_alias :: string
  fd_version :: string
  fd_device_model :: string
  fd_device_type :: string
  fd_fingerprint :: string
  fd_address :: string
  fd_port :: u16
  fd_protocol :: string
  fd_download :: bool
  fd_announcement :: bool
  fd_announce :: bool
  fd_discovery_source :: string

definition device_to_core :: "FfiNodeDevice \<Rightarrow> NodeDevice" where
  "device_to_core d =
     \<lparr>nd_alias = fd_alias d, nd_version = fd_version d, nd_device_model = fd_device_model d,
      nd_device_type = fd_device_type d, nd_fingerprint = fd_fingerprint d, nd_address = fd_address d,
      nd_port = fd_port d, nd_protocol = fd_protocol d, nd_download = fd_download d,
      nd_announcement = fd_announcement d, nd_announce = fd_announce d, nd_discovery_source = fd_discovery_source d\<rparr>"

definition device_from_core :: "NodeDevice \<Rightarrow> FfiNodeDevice" where
  "device_from_core d =
     \<lparr>fd_alias = nd_alias d, fd_version = nd_version d, fd_device_model = nd_device_model d,
      fd_device_type = nd_device_type d, fd_fingerprint = nd_fingerprint d, fd_address = nd_address d,
      fd_port = nd_port d, fd_protocol = nd_protocol d, fd_download = nd_download d,
      fd_announcement = nd_announcement d, fd_announce = nd_announce d, fd_discovery_source = nd_discovery_source d\<rparr>"

record FfiCoreConfig =
  fc_port :: u16
  fc_interface_addr :: string
  fc_multicast_addr :: string
  fc_multicast_port :: u16
  fc_store_path :: string
  fc_relay_addr :: "string option"
  fc_relay_secret :: "string option"
  fc_identity_dir :: "string option"
  fc_allow_plain_tls :: "bool option"

definition config_to_core :: "FfiCoreConfig \<Rightarrow> CoreConfig" where
  "config_to_core c =
     \<lparr>cc_port = fc_port c, cc_interface_addr = fc_interface_addr c, cc_multicast_addr = fc_multicast_addr c,
      cc_multicast_port = fc_multicast_port c, cc_store_path = fc_store_path c, cc_relay_addr = fc_relay_addr c,
      cc_relay_secret = fc_relay_secret c, cc_identity_dir = fc_identity_dir c,
      cc_allow_plain_tls = fc_allow_plain_tls c\<rparr>"

datatype FfiMissionState = XIdle | XPending | XTransfering | XFinished | XFailed | XCanceled | XBusy

fun state_from_core :: "MissionState \<Rightarrow> FfiMissionState" where
  "state_from_core Idle = XIdle"
| "state_from_core Pending = XPending"
| "state_from_core Transfering = XTransfering"
| "state_from_core Finished = XFinished"
| "state_from_core Failed = XFailed"
| "state_from_core Canceled = XCanceled"
| "state_from_core MBusy = XBusy"

datatype FfiFileState = XFPending | XFTransfer | XFFinish | XFSkip | XFFail string

fun file_state_from_core :: "FileState \<Rightarrow> FfiFileState" where
  "file_state_from_core FPending = XFPending"
| "file_state_from_core FTransfer = XFTransfer"
| "file_state_from_core FFinish = XFFinish"
| "file_state_from_core FSkip = XFSkip"
| "file_state_from_core (FFail msg) = XFFail msg"

record FfiFileInfo =
  xf_id :: string
  xf_file_name :: string
  xf_size :: i64
  xf_file_type :: string
  xf_sha256 :: "string option"
  xf_preview :: "bytes option"

definition file_from_core :: "FileInfo \<Rightarrow> FfiFileInfo" where
  "file_from_core f =
     \<lparr>xf_id = fi_id f, xf_file_name = fi_file_name f, xf_size = fi_size f, xf_file_type = fi_file_type f,
      xf_sha256 = fi_sha256 f, xf_preview = fi_preview f\<rparr>"

record FfiMissionFileInfo =
  xm_info :: FfiFileInfo
  xm_state :: FfiFileState

definition mission_file_from_core :: "MissionFileInfo \<Rightarrow> FfiMissionFileInfo" where
  "mission_file_from_core f = \<lparr>xm_info = file_from_core (mf_info f), xm_state = file_state_from_core (mf_state f)\<rparr>"

datatype FfiSessionDirection = XSend | XReceive

fun direction_from_core :: "SessionDirection \<Rightarrow> FfiSessionDirection" where
  "direction_from_core Send = XSend"
| "direction_from_core Receive = XReceive"

record FfiSessionSummary =
  xs_id :: string
  xs_direction :: FfiSessionDirection
  xs_peer :: FfiNodeDevice
  xs_file_count :: u32
  xs_state :: FfiMissionState
  xs_via_relay :: bool
  xs_route :: string
  xs_speed_bps :: u64
  xs_files :: "FfiMissionFileInfo list"

definition summary_from_core :: "SessionSummary \<Rightarrow> FfiSessionSummary" where
  "summary_from_core s =
     \<lparr>xs_id = sm_id s, xs_direction = direction_from_core (sm_direction s), xs_peer = device_from_core (sm_peer s),
      xs_file_count = word_of_nat (sm_file_count s), xs_state = state_from_core (sm_state s),
      xs_via_relay = sm_via_relay s, xs_route = sm_route s, xs_speed_bps = sm_speed_bps s,
      xs_files = map mission_file_from_core (sm_files s)\<rparr>"

datatype FfiSessionEvent =
    XStateChanged FfiMissionState
  | XFileStateChanged string FfiFileState
  | XProgress string i64
  | XFailedEvent string

fun event_from_core :: "SessionEvent \<Rightarrow> FfiSessionEvent" where
  "event_from_core (StateChanged st) = XStateChanged (state_from_core st)"
| "event_from_core (FileStateChanged fid st) = XFileStateChanged fid (file_state_from_core st)"
| "event_from_core (Progress fid bytes) = XProgress fid (word_of_nat bytes)"
| "event_from_core (EvFailed reason) = XFailedEvent reason"

definition manual_device :: "string \<Rightarrow> FfiNodeDevice option" where
  "manual_device addr =
     (let with_port = (if CHR '':'' \<in> set addr then addr else addr @ '':53317'')
      in map_option device_from_core (manual with_port))"

section \<open>The running core\<close>

datatype SetupPhase = Took "nat option" | StoppedOld | Stored nat

record Ffi =
  fx_cores :: "(nat, App) hashmap"
  fx_slot :: "nat option"
  fx_next :: nat
  fx_tasks :: "(nat, SetupPhase) hashmap"

definition new_ffi :: Ffi where
  "new_ffi = \<lparr>fx_cores = [], fx_slot = None, fx_next = 0, fx_tasks = []\<rparr>"

definition no_core :: string where
  "no_core = ''core not initialized; call setup first''"

definition on_core :: "(App \<Rightarrow> App) \<Rightarrow> Ffi \<Rightarrow> Ffi \<times> (string + unit)" where
  "on_core f x =
     (case fx_slot x of
        None \<Rightarrow> (x, Inl no_core)
      | Some n \<Rightarrow> (x\<lparr>fx_cores := hmodify n f (fx_cores x)\<rparr>, Inr ()))"

definition map_sessions :: "(Actor \<Rightarrow> Actor) \<Rightarrow> App \<Rightarrow> App" where
  "map_sessions f a = a\<lparr>ap_core := (ap_core a)\<lparr>co_sessions := f (co_sessions (ap_core a))\<rparr>\<rparr>"

text \<open>A call whose error is the text of a session error.\<close>

definition on_sessions ::
  "(Actor \<Rightarrow> Actor \<times> (SessionError + 'r)) \<Rightarrow> Ffi \<Rightarrow> Ffi \<times> (string + 'r)" where
  "on_sessions op x =
     (case fx_slot x of
        None \<Rightarrow> (x, Inl no_core)
      | Some n \<Rightarrow>
          (case hget (fx_cores x) n of
             None \<Rightarrow> (x, Inl no_core)
           | Some a \<Rightarrow>
               (case op (co_sessions (ap_core a)) of
                  (c, r) \<Rightarrow> (x\<lparr>fx_cores := hput n (map_sessions (\<lambda>_. c) a) (fx_cores x)\<rparr>, map_sum show_session_error id r))))"

definition start_server :: "(u16 \<Rightarrow> bool) \<Rightarrow> Ffi \<Rightarrow> Ffi \<times> (string + unit)" where
  "start_server free x = on_core (start free) x"

definition shutdown_server :: "Ffi \<Rightarrow> Ffi \<times> (string + unit)" where
  "shutdown_server x = on_core shutdown x"

definition restart_server :: "(u16 \<Rightarrow> bool) \<Rightarrow> Ffi \<Rightarrow> Ffi \<times> (string + unit)" where
  "restart_server free x = on_core (\<lambda>a. start free (shutdown a)) x"

definition ffi_change_path :: "string \<Rightarrow> Ffi \<Rightarrow> Ffi \<times> (string + unit)" where
  "ffi_change_path path x = on_core (change_path path) x"

definition ffi_change_config :: "FfiCoreConfig \<Rightarrow> Ffi \<Rightarrow> Ffi \<times> (string + unit)" where
  "ffi_change_config config x = on_core (change_config (config_to_core config)) x"

definition ffi_accept :: "(nat \<Rightarrow> string) \<Rightarrow> string \<Rightarrow> string list option \<Rightarrow> Ffi \<Rightarrow> Ffi \<times> (string + unit)" where
  "ffi_accept gen i fids x = on_sessions (accept gen i fids) x"

definition ffi_decline :: "(nat \<Rightarrow> string) \<Rightarrow> string \<Rightarrow> Ffi \<Rightarrow> Ffi \<times> (string + unit)" where
  "ffi_decline gen i x = on_sessions (decline gen i) x"

definition ffi_cancel :: "(nat \<Rightarrow> string) \<Rightarrow> string \<Rightarrow> Ffi \<Rightarrow> Ffi \<times> (string + unit)" where
  "ffi_cancel gen i x = on_core (map_sessions (cancel gen i)) x"

definition ffi_send_files ::
  "(string \<Rightarrow> string) \<Rightarrow> (nat \<Rightarrow> string) \<Rightarrow> FfiNodeDevice \<Rightarrow> Selected list \<Rightarrow> Ffi \<Rightarrow> Ffi \<times> (string + string)" where
  "ffi_send_files lower gen target files x =
     (if files = [] then (x, Inl ''no files to send'')
      else
        case fx_slot x of
          None \<Rightarrow> (x, Inl no_core)
        | Some n \<Rightarrow>
            (case hget (fx_cores x) n of
               None \<Rightarrow> (x, Inl no_core)
             | Some a \<Rightarrow>
                 (case send_files lower gen (device_to_core target) files (co_sessions (ap_core a)) of
                    (c, r) \<Rightarrow>
                      (x\<lparr>fx_cores := hput n (map_sessions (\<lambda>_. c) a) (fx_cores x)\<rparr>,
                       map_sum show_send_error fst r))))"

section \<open>Setup\<close>

datatype SetupStep = STake nat | SStop nat | SStore nat FfiNodeDevice FfiCoreConfig "string option" | SStart nat "u16 \<Rightarrow> bool"

text \<open>The parts of a call of \<open>setup\<close> by task \<open>t\<close>; a part that is not its next one does nothing.\<close>

fun setup_step :: "SetupStep \<Rightarrow> Ffi \<Rightarrow> Ffi" where
  "setup_step (STake t) x = x\<lparr>fx_slot := None, fx_tasks := hput t (Took (fx_slot x)) (fx_tasks x)\<rparr>"
| "setup_step (SStop t) x =
     (case hget (fx_tasks x) t of
        Some (Took old) \<Rightarrow>
          (case old of None \<Rightarrow> x | Some n \<Rightarrow> x\<lparr>fx_cores := hmodify n shutdown (fx_cores x)\<rparr>)
            \<lparr>fx_tasks := hput t StoppedOld (fx_tasks x)\<rparr>
      | _ \<Rightarrow> x)"
| "setup_step (SStore t device config tls) x =
     (case hget (fx_tasks x) t of
        Some StoppedOld \<Rightarrow>
          let n = fx_next x in
          x\<lparr>fx_cores := hput n (new_app (device_to_core device) (config_to_core config) default_options tls) (fx_cores x),
            fx_slot := Some n, fx_next := Suc n, fx_tasks := hput t (Stored n) (fx_tasks x)\<rparr>
      | _ \<Rightarrow> x)"
| "setup_step (SStart t free) x =
     (case hget (fx_tasks x) t of
        Some (Stored n) \<Rightarrow>
          x\<lparr>fx_cores := hmodify n (start free) (fx_cores x), fx_tasks := hdel t (fx_tasks x)\<rparr>
      | _ \<Rightarrow> x)"

definition setup_parts :: "nat \<Rightarrow> FfiNodeDevice \<Rightarrow> FfiCoreConfig \<Rightarrow> string option \<Rightarrow> (u16 \<Rightarrow> bool) \<Rightarrow> SetupStep list" where
  "setup_parts t device config tls free = [STake t, SStop t, SStore t device config tls, SStart t free]"

definition ffi_setup :: "FfiNodeDevice \<Rightarrow> FfiCoreConfig \<Rightarrow> string option \<Rightarrow> (u16 \<Rightarrow> bool) \<Rightarrow> Ffi \<Rightarrow> Ffi" where
  "ffi_setup device config tls free x = fold setup_step (setup_parts 0 device config tls free) x"

section \<open>Calls\<close>

datatype FfiCall =
    CallSetup FfiNodeDevice FfiCoreConfig "string option" "u16 \<Rightarrow> bool"
  | CallStart "u16 \<Rightarrow> bool" | CallShutdown | CallRestart "u16 \<Rightarrow> bool"
  | CallChangePath string | CallChangeConfig FfiCoreConfig
  | CallAccept string "string list option" | CallDecline string | CallCancel string
  | CallSendFiles FfiNodeDevice "Selected list"

definition unit_call :: "Ffi \<times> (string + 'r) \<Rightarrow> Ffi \<times> (string + unit)" where
  "unit_call r = map_prod id (map_sum id (\<lambda>_. ())) r"

fun ffi_call :: "(string \<Rightarrow> string) \<Rightarrow> (nat \<Rightarrow> string) \<Rightarrow> Ffi \<Rightarrow> FfiCall \<Rightarrow> Ffi \<times> (string + unit)" where
  "ffi_call lower gen x (CallSetup d c tls free) = (ffi_setup d c tls free x, Inr ())"
| "ffi_call lower gen x (CallStart free) = start_server free x"
| "ffi_call lower gen x CallShutdown = shutdown_server x"
| "ffi_call lower gen x (CallRestart free) = restart_server free x"
| "ffi_call lower gen x (CallChangePath p) = ffi_change_path p x"
| "ffi_call lower gen x (CallChangeConfig c) = ffi_change_config c x"
| "ffi_call lower gen x (CallAccept i fids) = ffi_accept gen i fids x"
| "ffi_call lower gen x (CallDecline i) = ffi_decline gen i x"
| "ffi_call lower gen x (CallCancel i) = ffi_cancel gen i x"
| "ffi_call lower gen x (CallSendFiles target files) = unit_call (ffi_send_files lower gen target files x)"

section \<open>Lemmas\<close>

definition serving :: "Ffi \<Rightarrow> nat \<Rightarrow> bool" where
  "serving x n \<longleftrightarrow> (\<exists>a. hget (fx_cores x) n = Some a \<and> ap_server a)"

text \<open>Only the core in the slot serves, and ids are fresh.\<close>

definition one_server :: "Ffi \<Rightarrow> bool" where
  "one_server x \<longleftrightarrow> (\<forall>n. serving x n \<longrightarrow> fx_slot x = Some n) \<and> (\<forall>n a. hget (fx_cores x) n = Some a \<longrightarrow> n < fx_next x) \<and>
     (\<forall>n. fx_slot x = Some n \<longrightarrow> hget (fx_cores x) n \<noteq> None)"

lemma ap_server_start [simp]: "ap_server (start free a)"
  by (simp add: start_def clear_table_def on_start_def Let_def split: sum.split)

lemma ap_server_shutdown [simp]: "\<not> ap_server (shutdown a)"
  by (simp add: shutdown_def clear_table_def on_shutdown_def)

lemma ap_server_new [simp]: "\<not> ap_server (new_app d c o' tls)"
  by (simp add: new_app_def)

text \<open>A change of the core in the slot.\<close>

lemma one_server_slot:
  assumes "one_server x" "fx_slot x = Some n"
  shows "one_server (x\<lparr>fx_cores := hput n a (fx_cores x)\<rparr>)" "one_server (x\<lparr>fx_cores := hmodify n f (fx_cores x)\<rparr>)"
  using assms by (auto simp: one_server_def serving_def split: if_splits)

lemma one_server_on_core: "one_server x \<Longrightarrow> one_server (fst (on_core f x))"
  by (auto simp: on_core_def one_server_slot split: option.split)

lemma one_server_on_sessions: "one_server x \<Longrightarrow> one_server (fst (on_sessions op x))"
  by (auto simp: on_sessions_def one_server_slot split: option.split prod.split)

lemma one_server_send: "one_server x \<Longrightarrow> one_server (fst (ffi_send_files lower gen target files x))"
  by (auto simp: ffi_send_files_def one_server_slot split: option.split prod.split)

text \<open>A whole call of \<open>setup\<close>.\<close>

lemma ffi_setup_result:
  "ffi_setup d c tls free x =
     x\<lparr>fx_cores := hmodify (fx_next x) (start free)
         (hput (fx_next x) (new_app (device_to_core d) (config_to_core c) default_options tls)
           (case fx_slot x of None \<Rightarrow> fx_cores x | Some n \<Rightarrow> hmodify n shutdown (fx_cores x))),
       fx_slot := Some (fx_next x), fx_next := Suc (fx_next x), fx_tasks := hdel 0 (fx_tasks x)\<rparr>"
proof -
  have "hdel t (hput t a m) = hdel t m" for t :: nat and a :: SetupPhase and m
    by (induction m) auto
  then show ?thesis
    by (simp add: ffi_setup_def setup_parts_def Let_def split: option.split)
qed

lemma one_server_setup:
  assumes "one_server x"
  shows "one_server (ffi_setup d c tls free x) \<and> fx_slot (ffi_setup d c tls free x) = Some (fx_next x) \<and>
    serving (ffi_setup d c tls free x) (fx_next x)"
proof -
  let ?x = "ffi_setup d c tls free x" and ?N = "fx_next x"
  have slot: "fx_slot ?x = Some ?N" "fx_next ?x = Suc ?N" by (simp_all add: ffi_setup_result)
  have core: "hget (fx_cores ?x) n =
      (if n = ?N then Some (start free (new_app (device_to_core d) (config_to_core c) default_options tls))
       else if fx_slot x = Some n then map_option shutdown (hget (fx_cores x) n) else hget (fx_cores x) n)" for n
    by (simp add: ffi_setup_result split: option.split)
  have "serving ?x n \<longleftrightarrow> n = ?N" for n
  proof (cases "n = ?N")
    case False
    then show ?thesis using assms core [of n] by (auto simp: serving_def one_server_def)
  qed (simp add: serving_def core)
  moreover have "n < fx_next ?x" if "hget (fx_cores ?x) n = Some a" for n a
    using assms that core [of n] slot(2) by (auto simp: one_server_def less_Suc_eq split: if_splits)
  moreover have "hget (fx_cores ?x) ?N \<noteq> None" by (simp add: core)
  ultimately show ?thesis using slot(1) by (simp add: one_server_def)
qed

lemma one_server_call: "one_server x \<Longrightarrow> one_server (fst (ffi_call lower gen x call))"
  by (cases call)
    (simp_all add: one_server_setup start_server_def shutdown_server_def restart_server_def ffi_change_path_def
      ffi_change_config_def ffi_accept_def ffi_decline_def ffi_cancel_def one_server_on_core one_server_on_sessions
      one_server_send unit_call_def)

interpretation ffi: actor_invariant "ffi_call lower gen" one_server for lower gen
  by unfold_locales (rule one_server_call)

lemma one_server_new [simp]: "one_server new_ffi"
  by (simp add: one_server_def serving_def new_ffi_def)

lemma state_inject: "state_from_core s = state_from_core t \<longleftrightarrow> s = t"
  by (cases s; cases t) simp_all

lemma file_state_inject: "file_state_from_core s = file_state_from_core t \<longleftrightarrow> s = t"
  by (cases s; cases t) simp_all

lemma direction_inject: "direction_from_core s = direction_from_core t \<longleftrightarrow> s = t"
  by (cases s; cases t) simp_all

lemma device_inverse: "device_to_core (device_from_core d) = d" "device_from_core (device_to_core f) = f"
  by (simp_all add: device_to_core_def device_from_core_def)

lemma device_inject: "device_from_core d = device_from_core e \<longleftrightarrow> d = e"
  by (metis device_inverse(1))

lemma mission_file_inject: "mission_file_from_core f = mission_file_from_core g \<longleftrightarrow> f = g"
proof
  assume eq: "mission_file_from_core f = mission_file_from_core g"
  then have "file_from_core (mf_info f) = file_from_core (mf_info g)" "mf_state f = mf_state g"
    by (auto simp: mission_file_from_core_def file_state_inject)
  moreover have "mf_info f = mf_info g" using calculation(1) by (simp add: file_from_core_def)
  ultimately show "f = g" by simp
qed simp

lemma word_of_nat_inject: "m < 2 ^ LENGTH('w) \<Longrightarrow> n < 2 ^ LENGTH('w) \<Longrightarrow> (word_of_nat m = (word_of_nat n :: 'w :: len word)) = (m = n)"
  by (simp add: word_of_nat_eq_iff take_bit_nat_eq_self)

section \<open>Properties\<close>


text \<open>Two overlapping calls of setup leave a server running that no call can reach: both find the slot empty,
  and the second to store its core overwrites the first.\<close>

theorem overlapping_setups_leak:
  "\<exists>x. x = fold setup_step
     [STake 1, STake 2, SStop 1, SStop 2, SStore 1 d c tls, SStore 2 d c tls, SStart 1 free, SStart 2 free] new_ffi \<and>
     serving x 0 \<and> serving x 1 \<and> fx_slot x = Some 1"
  by (simp add: new_ffi_def serving_def Let_def hmodify_def)

text \<open>The mirrored types lose nothing: devices convert back and forth unchanged, and different sessions or
  events of the core look different to the application, for less than 2^32 files and 2^63 bytes.\<close>

theorem mirror_exact:
  assumes "sm_file_count s < 2 ^ 32" "sm_file_count t < 2 ^ 32"
    and "\<And>fid n. ev = Progress fid n \<or> ev' = Progress fid n \<Longrightarrow> n < 2 ^ 63"
  shows "device_to_core (device_from_core d) = d \<and> device_from_core (device_to_core f) = f \<and>
    (summary_from_core s = summary_from_core t) = (s = t) \<and> (event_from_core ev = event_from_core ev') = (ev = ev')"
proof -
  have "(summary_from_core s = summary_from_core t) = (s = t)"
  proof
    assume eq: "summary_from_core s = summary_from_core t"
    have "map mission_file_from_core (sm_files s) = map mission_file_from_core (sm_files t)"
      using eq by (simp add: summary_from_core_def)
    then have "sm_files s = sm_files t" by (rule map_injective) (simp add: inj_def mission_file_inject)
    moreover have "sm_file_count s = sm_file_count t"
      using eq assms(1,2) word_of_nat_inject [where ?'w = 32] by (simp add: summary_from_core_def)
    ultimately show "s = t"
      using eq by (simp add: summary_from_core_def state_inject direction_inject device_inject)
  qed simp
  moreover have "(event_from_core ev = event_from_core ev') = (ev = ev')"
  proof (cases "\<exists>fid n fid' n'. ev = Progress fid n \<and> ev' = Progress fid' n'")
    case True
    then obtain fid n fid' n' where p: "ev = Progress fid n" "ev' = Progress fid' n'" by blast
    then have "n < 2 ^ 63" "n' < 2 ^ 63" using assms(3) by auto
    then show ?thesis using p word_of_nat_inject [where ?'w = 64, of n n'] by auto
  next
    case False
    then show ?thesis by (cases ev; cases ev') (auto simp: state_inject file_state_inject)
  qed
  ultimately show ?thesis by (simp add: device_inverse)
qed

text \<open>An address without a port gets the port 53317.  An IPv6 address without a port is taken apart at its last
  colon instead.\<close>

theorem manual_device_port:
  assumes "CHR '':'' \<notin> set addr" "manual_device addr = Some d"
  shows "fd_port d = 53317 \<and>
    map_option (\<lambda>d. (fd_address d, fd_port d)) (manual_device ''fe80::1'') = Some (''fe80:'', 1)"
proof -
  have "rsplit_once (CHR '':'') (addr @ CHR '':'' # ''53317'') = Some (addr, ''53317'')"
    by (rule rsplit_once_append) simp
  moreover have "parse_u16 (str_trim ''53317'') = Some 53317"
  proof -
    have "digit_char 5 = CHR ''5''" "digit_char 3 = CHR ''3''" "digit_char 1 = CHR ''1''" "digit_char 7 = CHR ''7''" by code_simp+
    then have "show_nat 53317 = ''53317''" by (simp add: show_nat.simps)
    then show ?thesis using str_trim_show_nat [of 53317] parse_u16_show_nat [of 53317] by simp
  qed
  ultimately have "fd_port d = 53317"
    using assms by (auto simp: manual_device_def manual_def device_from_core_def Let_def split: if_splits)
  moreover have "map_option (\<lambda>d. (fd_address d, fd_port d)) (manual_device ''fe80::1'') = Some (''fe80:'', 1)"
  proof -
    have cut: "rsplit_once (CHR '':'') ''fe80::1'' = Some (''fe80:'', ''1'')" by code_simp
    have "show_nat 1 = ''1''" by code_simp
    then have port: "parse_u16 (str_trim ''1'') = Some 1"
      using str_trim_show_nat [of 1] parse_u16_show_nat [of 1] by simp
    have trim: "trim_matches [CHR ''['', CHR '']''] (str_trim ''fe80:'') = ''fe80:''" by code_simp
    show ?thesis by (simp add: manual_device_def manual_def cut port trim device_from_core_def)
  qed
  ultimately show ?thesis by blast
qed

section \<open>Witnesses\<close>

definition ffi_config :: FfiCoreConfig where
  "ffi_config =
     \<lparr>fc_port = 53317, fc_interface_addr = ''0.0.0.0'', fc_multicast_addr = ''224.0.0.167'', fc_multicast_port = 53317,
      fc_store_path = [], fc_relay_addr = None, fc_relay_secret = None, fc_identity_dir = None, fc_allow_plain_tls = None\<rparr>"

definition setup_call :: FfiCall where
  "setup_call = CallSetup (device_from_core sample_peer) ffi_config None (\<lambda>_. True)"


theorem mirror_exact_witness:
  "event_from_core (Progress ''f'' 1) \<noteq> event_from_core (Progress ''f'' 2) \<and>
   device_from_core (device_to_core (device_from_core sample_peer)) = device_from_core sample_peer"
proof -
  let ?s = "\<lparr>sm_id = [], sm_direction = Send, sm_peer = sample_peer, sm_file_count = 1, sm_state = Pending,
      sm_via_relay = False, sm_route = [], sm_speed_bps = 0, sm_files = []\<rparr> :: SessionSummary"
  have count: "sm_file_count ?s < 2 ^ 32" by simp
  have small: "n < 2 ^ 63" if "Progress ''f'' 1 = Progress fid n \<or> Progress ''f'' 2 = Progress fid n" for fid n
    using that by auto
  note exact = mirror_exact [where s = ?s and t = ?s and ev = "Progress ''f'' 1" and ev' = "Progress ''f'' 2" and
      f = "device_from_core sample_peer", OF count count small]
  have "event_from_core (Progress ''f'' 1) \<noteq> event_from_core (Progress ''f'' 2)"
    using exact [THEN conjunct2, THEN conjunct2, THEN conjunct2] by simp
  then show ?thesis using exact [THEN conjunct2, THEN conjunct1] by (rule conjI)
qed

theorem manual_device_port_witness:
  "\<exists>d. manual_device ''h'' = Some d \<and> fd_port d = 53317"
proof -
  have cut: "rsplit_once (CHR '':'') ''h:53317'' = Some (''h'', ''53317'')" by code_simp
  have "digit_char 5 = CHR ''5''" "digit_char 3 = CHR ''3''" "digit_char 1 = CHR ''1''" "digit_char 7 = CHR ''7''" by code_simp+
  then have "show_nat 53317 = ''53317''" by (simp add: show_nat.simps)
  then have port: "parse_u16 (str_trim ''53317'') = Some 53317"
    using str_trim_show_nat [of 53317] parse_u16_show_nat [of 53317] by simp
  have trim: "trim_matches [CHR ''['', CHR '']''] (str_trim ''h'') = ''h''" by code_simp
  have "manual_device ''h'' \<noteq> None" by (simp add: manual_device_def manual_def cut port trim)
  then obtain d where "manual_device ''h'' = Some d" by auto
  then show ?thesis using manual_device_port [of "''h''" d] by simp
qed

end
