(* ===== verification/Send_Lock.thy ===== *)
theory Send_Lock
  imports Handle Samples
begin

text \<open>
  The queue of send sessions per target, \<open>src/rust/core/src/handle.rs\<close>: \<open>send_files_internal\<close> spawns a
  driver for every send, and the driver first acquires the semaphore of its target.

  \<^item> A task is named by the order of the spawns.  Its phase is \<open>Spawned\<close> until its first poll,
    \<open>Waiting\<close> in the queue of the semaphore, \<open>Holding\<close> while the driver runs with the permit, and
    \<open>Returned\<close> once the driver has returned and dropped it.
  \<^item> The semaphore is the one of tokio: a release hands the permit to the task that has waited longest.
  \<^item> An event is a call of \<open>send_files\<close>, the first poll of a task, the return of a driver, or a message of
    the session actor; a run is any sequence of events, which is any interleaving of the tasks.
  \<^item> The output of an event are the tasks that asked for a permit and the tasks that got one, with
    the key of their target.
\<close>

section \<open>The semaphore\<close>

record Semaphore =
  sp_permits :: nat
  sp_waiters :: "nat list"

definition new_semaphore :: "nat \<Rightarrow> Semaphore" where
  "new_semaphore n = \<lparr>sp_permits = n, sp_waiters = []\<rparr>"

definition acquire :: "nat \<Rightarrow> Semaphore \<Rightarrow> Semaphore \<times> bool" where
  "acquire t s =
     (if 0 < sp_permits s then (s\<lparr>sp_permits := sp_permits s - 1\<rparr>, True)
      else (s\<lparr>sp_waiters := sp_waiters s @ [t]\<rparr>, False))"

definition release :: "Semaphore \<Rightarrow> Semaphore \<times> nat option" where
  "release s =
     (case sp_waiters s of
        [] \<Rightarrow> (s\<lparr>sp_permits := Suc (sp_permits s)\<rparr>, None)
      | t # ts \<Rightarrow> (s\<lparr>sp_waiters := ts\<rparr>, Some t))"

text \<open>What a client of the semaphore relies on.\<close>

locale fair_semaphore =
  fixes new :: "nat \<Rightarrow> 's"
    and acq :: "nat \<Rightarrow> 's \<Rightarrow> 's \<times> bool"
    and rel :: "'s \<Rightarrow> 's \<times> nat option"
    and permits :: "'s \<Rightarrow> nat"
    and queue :: "'s \<Rightarrow> nat list"
  assumes new_permits: "permits (new n) = n"
    and new_queue: "queue (new n) = []"
    and acq_free: "0 < permits s \<Longrightarrow>
      snd (acq t s) \<and> permits (fst (acq t s)) = permits s - 1 \<and> queue (fst (acq t s)) = queue s"
    and acq_taken: "permits s = 0 \<Longrightarrow>
      \<not> snd (acq t s) \<and> permits (fst (acq t s)) = 0 \<and> queue (fst (acq t s)) = queue s @ [t]"
    and rel_free: "queue s = [] \<Longrightarrow>
      snd (rel s) = None \<and> permits (fst (rel s)) = Suc (permits s) \<and> queue (fst (rel s)) = []"
    and rel_next: "queue s = t # ts \<Longrightarrow>
      snd (rel s) = Some t \<and> permits (fst (rel s)) = permits s \<and> queue (fst (rel s)) = ts"
begin

text \<open>\<open>guards s hs ws\<close>: one permit, held by \<open>hs\<close> or free, and \<open>ws\<close> queue for it.\<close>

definition guards :: "'s \<Rightarrow> nat set \<Rightarrow> nat set \<Rightarrow> bool" where
  "guards s hs ws \<longleftrightarrow> finite hs \<and> permits s + card hs = 1 \<and> distinct (queue s) \<and> set (queue s) = ws \<and>
     hs \<inter> ws = {} \<and> (ws = {} \<or> permits s = 0)"

lemma guards_new: "guards (new 1) {} {}"
  by (simp add: guards_def new_permits new_queue)

lemma guards_cases:
  assumes "guards s hs ws"
  obtains "permits s = 1" "hs = {}" "ws = {}" | h where "permits s = 0" "hs = {h}"
  using assms by (auto simp: guards_def add_is_1 card_1_singleton_iff)

lemma guards_acq:
  assumes "guards s hs ws" "t \<notin> hs" "t \<notin> ws"
  shows "if snd (acq t s) then guards (fst (acq t s)) (insert t hs) ws
         else guards (fst (acq t s)) hs (insert t ws)"
  using assms(1)
proof (cases rule: guards_cases)
  case 1
  then show ?thesis using assms acq_free [of s t] by (simp add: guards_def)
next
  case 2
  then show ?thesis using assms acq_taken [of s t] by (simp add: guards_def)
qed

lemma acq_iff: "guards s hs ws \<Longrightarrow> snd (acq t s) \<longleftrightarrow> hs = {}"
  using acq_free [of s t] acq_taken [of s t] by (auto elim: guards_cases)

lemma guards_rel:
  assumes g: "guards s hs ws" and t: "t \<in> hs"
  shows "case snd (rel s) of None \<Rightarrow> guards (fst (rel s)) (hs - {t}) ws
         | Some w \<Rightarrow> w \<in> ws \<and> guards (fst (rel s)) (insert w (hs - {t})) (ws - {w})"
proof -
  have hs: "hs = {t}" "permits s = 0" using t by (auto intro: guards_cases [OF g])
  show ?thesis
  proof (cases "queue s")
    case Nil
    then show ?thesis using g hs rel_free [of s] by (auto simp: guards_def)
  next
    case (Cons w ts)
    then show ?thesis using g hs rel_next [of s w ts] by (auto simp: guards_def)
  qed
qed

lemma held_while_queued: "guards s hs ws \<Longrightarrow> queue s = [] \<or> card hs = 1"
  by (auto simp: guards_def)

lemma at_most_one: "guards s hs ws \<Longrightarrow> card hs \<le> 1"
  by (simp add: guards_def)

end

interpretation sem: fair_semaphore new_semaphore acquire release sp_permits sp_waiters
  by unfold_locales (simp_all add: new_semaphore_def acquire_def release_def)

section \<open>Send tasks\<close>

datatype Phase = Spawned | Waiting | Holding | Returned

record SendTask =
  tk_session :: string
  tk_key :: string
  tk_phase :: Phase

record Sends =
  sn_actor :: Actor
  sn_locks :: "(string, Semaphore) hashmap"
  sn_tasks :: "SendTask list"

definition new_sends :: "Actor \<Rightarrow> Sends" where
  "new_sends a = \<lparr>sn_actor = a, sn_locks = [], sn_tasks = []\<rparr>"

text \<open>The semaphore of a target, made when the target is first sent to.\<close>

definition target_lock :: "NodeDevice \<Rightarrow> (string, Semaphore) hashmap \<Rightarrow> (string, Semaphore) hashmap" where
  "target_lock target locks =
     (case hget locks (target_key target) of
        Some _ \<Rightarrow> locks
      | None \<Rightarrow> hput (target_key target) (new_semaphore 1) locks)"

definition send_files_internal ::
  "(string \<Rightarrow> string) \<Rightarrow> (nat \<Rightarrow> string) \<Rightarrow> NodeDevice \<Rightarrow> Selected list \<Rightarrow> Sends \<Rightarrow> Sends \<times> (SendError + string)" where
  "send_files_internal lower gen target files s =
     (case send_files lower gen target files (sn_actor s) of
        (a, Inl e) \<Rightarrow> (s\<lparr>sn_actor := a\<rparr>, Inl e)
      | (a, Inr (i, _)) \<Rightarrow>
          (s\<lparr>sn_actor := a, sn_locks := target_lock target (sn_locks s),
             sn_tasks := sn_tasks s @ [\<lparr>tk_session = i, tk_key = target_key target, tk_phase = Spawned\<rparr>]\<rparr>,
           Inr i))"

definition set_phase :: "nat \<Rightarrow> Phase \<Rightarrow> SendTask list \<Rightarrow> SendTask list" where
  "set_phase t p tasks = tasks[t := (tasks ! t)\<lparr>tk_phase := p\<rparr>]"

text \<open>The driver up to its permit, and its end; the second component are the tasks granted the permit.\<close>

definition driver_acquire :: "nat \<Rightarrow> Sends \<Rightarrow> Sends \<times> (string \<times> nat) list" where
  "driver_acquire t s =
     (let k = tk_key (sn_tasks s ! t) in
      case hget (sn_locks s) k of
        None \<Rightarrow> (s, [])
      | Some l \<Rightarrow>
          let (l1, granted) = acquire t l in
          (s\<lparr>sn_locks := hput k l1 (sn_locks s),
             sn_tasks := set_phase t (if granted then Holding else Waiting) (sn_tasks s)\<rparr>,
           if granted then [(k, t)] else []))"

definition driver_return :: "nat \<Rightarrow> Sends \<Rightarrow> Sends \<times> (string \<times> nat) list" where
  "driver_return t s =
     (let k = tk_key (sn_tasks s ! t) in
      case hget (sn_locks s) k of
        None \<Rightarrow> (s, [])
      | Some l \<Rightarrow>
          let (l1, next) = release l; tasks = set_phase t Returned (sn_tasks s) in
          (s\<lparr>sn_locks := hput k l1 (sn_locks s),
             sn_tasks := (case next of None \<Rightarrow> tasks | Some w \<Rightarrow> set_phase w Holding tasks)\<rparr>,
           case next of None \<Rightarrow> [] | Some w \<Rightarrow> [(k, w)]))"

datatype SendEvent =
  SendFiles NodeDevice "Selected list"
| FirstPoll nat
| DriverReturns nat
| ActorMessage SessionMessage

definition in_phase :: "Sends \<Rightarrow> nat \<Rightarrow> Phase \<Rightarrow> bool" where
  "in_phase s t p \<longleftrightarrow> t < length (sn_tasks s) \<and> tk_phase (sn_tasks s ! t) = p"

fun send_event ::
  "(string \<Rightarrow> string) \<Rightarrow> (nat \<Rightarrow> string) \<Rightarrow> Sends \<Rightarrow> SendEvent \<Rightarrow>
     Sends \<times> ((string \<times> nat) list \<times> (string \<times> nat) list)" where
  "send_event lower gen s (SendFiles target files) = (fst (send_files_internal lower gen target files s), ([], []))"
| "send_event lower gen s (FirstPoll t) =
     (if in_phase s t Spawned then (case driver_acquire t s of (s1, granted) \<Rightarrow> (s1, ([(tk_key (sn_tasks s ! t), t)], granted)))
      else (s, ([], [])))"
| "send_event lower gen s (DriverReturns t) =
     (if in_phase s t Holding then (case driver_return t s of (s1, granted) \<Rightarrow> (s1, ([], granted)))
      else (s, ([], [])))"
| "send_event lower gen s (ActorMessage m) =
     (s\<lparr>sn_actor := fst (run_session_actor gen (sn_actor s) [m])\<rparr>, ([], []))"

text \<open>The tasks of a target in a phase, and the queue of a target.\<close>

definition tasks_in :: "Sends \<Rightarrow> string \<Rightarrow> Phase \<Rightarrow> nat set" where
  "tasks_in s k p = {t. in_phase s t p \<and> tk_key (sn_tasks s ! t) = k}"

definition queue_of :: "Sends \<Rightarrow> string \<Rightarrow> nat list" where
  "queue_of s k = (case hget (sn_locks s) k of None \<Rightarrow> [] | Some l \<Rightarrow> sp_waiters l)"

lemma tasks_in_code [code]:
  "tasks_in s k p = set (filter (\<lambda>t. tk_phase (sn_tasks s ! t) = p \<and> tk_key (sn_tasks s ! t) = k) [0 ..< length (sn_tasks s)])"
  by (auto simp: tasks_in_def in_phase_def)

section \<open>The invariant of the queues\<close>

definition sends_ok :: "Sends \<Rightarrow> bool" where
  "sends_ok s \<longleftrightarrow>
     (\<forall>k l. hget (sn_locks s) k = Some l \<longrightarrow> sem.guards l (tasks_in s k Holding) (tasks_in s k Waiting)) \<and>
     (\<forall>k p. hget (sn_locks s) k = None \<longrightarrow> tasks_in s k p = {})"

lemma tasks_in_set_phase:
  assumes "t < length (sn_tasks s)"
  shows "tasks_in (s\<lparr>sn_locks := m, sn_tasks := set_phase t p (sn_tasks s)\<rparr>) k q =
     (if tk_key (sn_tasks s ! t) \<noteq> k then tasks_in s k q
      else if q = p then insert t (tasks_in s k q) else tasks_in s k q - {t})"
  using assms by (auto simp: tasks_in_def in_phase_def set_phase_def nth_list_update)

lemma tasks_in_passed:
  assumes "t < length (sn_tasks s)" "w < length (sn_tasks s)" "tk_key (sn_tasks s ! w) = tk_key (sn_tasks s ! t)" "w \<noteq> t"
  shows "tasks_in (s\<lparr>sn_locks := m, sn_tasks := set_phase w Holding (set_phase t Returned (sn_tasks s))\<rparr>) k q =
     (if k \<noteq> tk_key (sn_tasks s ! t) then tasks_in s k q
      else if q = Holding then insert w (tasks_in s k q - {t})
      else (if q = Returned then insert t (tasks_in s k q) else tasks_in s k q - {t}) - {w})"
proof -
  let ?s1 = "s\<lparr>sn_locks := m, sn_tasks := set_phase t Returned (sn_tasks s)\<rparr>"
  have s1: "w < length (sn_tasks ?s1)" "tk_key (sn_tasks ?s1 ! w) = tk_key (sn_tasks s ! t)"
    using assms by (simp_all add: set_phase_def)
  show ?thesis
    using tasks_in_set_phase [OF s1(1), where m = m and p = Holding and k = k and q = q]
      tasks_in_set_phase [OF assms(1), where m = m and p = Returned and k = k and q = q]
      s1(2) assms(4) by auto
qed

lemma sends_okD:
  "sends_ok s \<Longrightarrow> hget (sn_locks s) k = Some l \<Longrightarrow> sem.guards l (tasks_in s k Holding) (tasks_in s k Waiting)"
  by (simp add: sends_ok_def)

lemma sends_ok_lock:
  assumes "sends_ok s" "in_phase s t p"
  obtains l where "hget (sn_locks s) (tk_key (sn_tasks s ! t)) = Some l"
proof -
  have "t \<in> tasks_in s (tk_key (sn_tasks s ! t)) p" using assms by (simp add: tasks_in_def)
  then have "hget (sn_locks s) (tk_key (sn_tasks s ! t)) \<noteq> None"
    using assms(1) by (auto simp: sends_ok_def)
  then show thesis using that by auto
qed

text \<open>An event that changes the lock and the tasks of one key keeps the invariant of the others.\<close>

lemma sends_ok_update:
  assumes "sends_ok s"
    and "sem.guards l (tasks_in s1 k Holding) (tasks_in s1 k Waiting)"
    and "sn_locks s1 = hput k l (sn_locks s)"
    and "\<And>k' p. k' \<noteq> k \<Longrightarrow> tasks_in s1 k' p = tasks_in s k' p"
  shows "sends_ok s1"
  using assms by (simp add: sends_ok_def)

lemma driver_acquire_ok:
  assumes ok: "sends_ok s" and t: "in_phase s t Spawned"
  shows "sends_ok (fst (driver_acquire t s))"
proof -
  let ?k = "tk_key (sn_tasks s ! t)"
  obtain l where l: "hget (sn_locks s) ?k = Some l" using sends_ok_lock [OF ok t] .
  have len: "t < length (sn_tasks s)" using t by (simp add: in_phase_def)
  have notin: "t \<notin> tasks_in s ?k Holding" "t \<notin> tasks_in s ?k Waiting"
    using t by (auto simp: tasks_in_def in_phase_def)
  show ?thesis
    using sem.guards_acq [OF sends_okD [OF ok l] notin] notin
    by (intro sends_ok_update [OF ok, of "fst (acquire t l)" _ ?k])
      (auto simp: driver_acquire_def l Let_def case_prod_beta tasks_in_set_phase [OF len])
qed

lemma driver_return_ok:
  assumes ok: "sends_ok s" and t: "in_phase s t Holding"
  shows "sends_ok (fst (driver_return t s))"
proof -
  let ?k = "tk_key (sn_tasks s ! t)"
  obtain l where l: "hget (sn_locks s) ?k = Some l" using sends_ok_lock [OF ok t] .
  have len: "t < length (sn_tasks s)" using t by (simp add: in_phase_def)
  have th: "t \<in> tasks_in s ?k Holding" using t by (simp add: tasks_in_def)
  have tw: "t \<notin> tasks_in s ?k Waiting" using t by (auto simp: tasks_in_def in_phase_def)
  note g = sem.guards_rel [OF sends_okD [OF ok l] th]
  show ?thesis
  proof (cases "snd (release l)")
    case None
    then show ?thesis using g tw
      by (intro sends_ok_update [OF ok, of "fst (release l)" _ ?k])
        (auto simp: driver_return_def l Let_def case_prod_beta tasks_in_set_phase [OF len])
  next
    case (Some w)
    have w: "w \<in> tasks_in s ?k Waiting" using g Some by simp
    then have wk: "w < length (sn_tasks s)" "tk_key (sn_tasks s ! w) = ?k" "w \<noteq> t"
      using tw by (auto simp: tasks_in_def in_phase_def)
    show ?thesis using g Some tw
      by (intro sends_ok_update [OF ok, of "fst (release l)" _ ?k])
        (auto simp: driver_return_def l Let_def case_prod_beta tasks_in_passed [OF len wk])
  qed
qed

lemma tasks_in_append:
  "tasks_in (s\<lparr>sn_actor := a, sn_locks := m, sn_tasks := sn_tasks s @ [x]\<rparr>) k p =
     (if tk_key x = k \<and> tk_phase x = p then insert (length (sn_tasks s)) (tasks_in s k p) else tasks_in s k p)"
  by (auto simp: tasks_in_def in_phase_def nth_append less_Suc_eq)

lemma tasks_in_actor [simp]: "tasks_in (s\<lparr>sn_actor := a\<rparr>) k p = tasks_in s k p"
  by (simp add: tasks_in_def in_phase_def)

lemma sends_ok_actor [simp]: "sends_ok (s\<lparr>sn_actor := a\<rparr>) = sends_ok s"
  by (simp add: sends_ok_def)

lemma send_files_internal_ok: "sends_ok s \<Longrightarrow> sends_ok (fst (send_files_internal lower gen target files s))"
  using sem.guards_new
  by (auto simp: send_files_internal_def sends_ok_def tasks_in_append target_lock_def
      split: prod.splits sum.splits option.splits)

lemma send_event_ok: "sends_ok s \<Longrightarrow> sends_ok (fst (send_event lower gen s e))"
  by (cases e) (auto simp: case_prod_beta send_files_internal_ok driver_acquire_ok driver_return_ok)

interpretation sends: actor_invariant "send_event lower gen" sends_ok for lower gen
  by unfold_locales (rule send_event_ok)

lemma sends_ok_start: "sends_ok (new_sends a)"
  by (simp add: sends_ok_def new_sends_def tasks_in_def in_phase_def)

section \<open>The order of the permits\<close>

text \<open>The tasks of one target in a list of the output.\<close>

definition of_key :: "string \<Rightarrow> (string \<times> nat) list \<Rightarrow> nat list" where
  "of_key k xs = map snd (filter (\<lambda>x. fst x = k) xs)"

lemma of_key_simps [simp]:
  "of_key k [] = []" "of_key k (xs @ ys) = of_key k xs @ of_key k ys"
  "of_key k ((k', t) # xs) = (if k' = k then t # of_key k xs else of_key k xs)"
  by (simp_all add: of_key_def)

lemma acquire_order:
  "sem.guards l hs ws \<Longrightarrow> (if snd (acquire t l) then [t] else []) @ sp_waiters (fst (acquire t l)) = sp_waiters l @ [t]"
  by (auto simp: acquire_def sem.guards_def)

lemma release_order:
  "(case snd (release l) of None \<Rightarrow> [] | Some w \<Rightarrow> [w]) @ sp_waiters (fst (release l)) = sp_waiters l"
  by (simp add: release_def split: list.splits)

lemma send_event_order:
  assumes ok: "sends_ok s" and e: "send_event lower gen s e = (s1, asked, granted)"
  shows "of_key k granted @ queue_of s1 k = queue_of s k @ of_key k asked"
proof (cases e)
  case (SendFiles target files)
  then show ?thesis using e
    by (auto simp: send_files_internal_def queue_of_def target_lock_def new_semaphore_def
        split: prod.splits sum.splits option.splits if_splits)
next
  case (FirstPoll t)
  show ?thesis
  proof (cases "in_phase s t Spawned")
    case True
    then obtain l where l: "hget (sn_locks s) (tk_key (sn_tasks s ! t)) = Some l"
      using sends_ok_lock [OF ok] by blast
    show ?thesis using e FirstPoll True l acquire_order [OF sends_okD [OF ok l], of t]
      by (auto simp: driver_acquire_def Let_def case_prod_beta queue_of_def split: if_splits)
  qed (use e FirstPoll in auto)
next
  case (DriverReturns t)
  show ?thesis
  proof (cases "in_phase s t Holding")
    case True
    then obtain l where l: "hget (sn_locks s) (tk_key (sn_tasks s ! t)) = Some l"
      using sends_ok_lock [OF ok] by blast
    show ?thesis using e DriverReturns True l release_order [of l]
      by (auto simp: driver_return_def Let_def case_prod_beta queue_of_def split: option.splits if_splits)
  qed (use e DriverReturns in auto)
qed (use e in \<open>auto simp: queue_of_def\<close>)

lemma sends_order:
  "sends_ok s \<Longrightarrow> run_actor (send_event lower gen) s es = (s1, outs) \<Longrightarrow>
   of_key k (concat (map snd outs)) @ queue_of s1 k = queue_of s k @ of_key k (concat (map fst outs))"
proof (induction es arbitrary: s outs)
  case (Cons e es)
  obtain s2 asked granted where e: "send_event lower gen s e = (s2, asked, granted)" by (metis prod_cases3)
  then obtain outs' where r: "run_actor (send_event lower gen) s2 es = (s1, outs')" "outs = (asked, granted) # outs'"
    using Cons.prems(2) by (auto simp: run_actor.simps(2) split: prod.splits)
  have "sends_ok s2" using send_event_ok [OF Cons.prems(1), of lower gen e] e by simp
  from Cons.IH [OF this r(1)] send_event_order [OF Cons.prems(1) e, of k] show ?case
    by (simp add: r(2))
qed simp

lemma return_passes_on:
  assumes ok: "sends_ok s" and h: "tasks_in s k Holding = {h}" and q: "queue_of s k = t # ts"
  shows "tasks_in (fst (send_event lower gen s (DriverReturns h))) k Holding = {t}"
    and "queue_of (fst (send_event lower gen s (DriverReturns h))) k = ts"
proof -
  have hk: "in_phase s h Holding" "tk_key (sn_tasks s ! h) = k" using h by (auto simp: tasks_in_def)
  obtain l where l: "hget (sn_locks s) k = Some l" using sends_ok_lock [OF ok hk(1)] hk(2) by auto
  have rel: "snd (release l) = Some t" "sp_waiters (fst (release l)) = ts"
    using q l by (simp_all add: queue_of_def release_def)
  have tw: "t \<in> tasks_in s k Waiting"
    using sends_okD [OF ok l] q l by (auto simp: queue_of_def sem.guards_def)
  have ev: "fst (send_event lower gen s (DriverReturns h)) =
      s\<lparr>sn_locks := hput k (fst (release l)) (sn_locks s),
        sn_tasks := set_phase t Holding (set_phase h Returned (sn_tasks s))\<rparr>"
    using hk l rel by (simp add: case_prod_beta driver_return_def)
  have t: "h < length (sn_tasks s)" "t < length (sn_tasks s)" "tk_key (sn_tasks s ! t) = tk_key (sn_tasks s ! h)" "t \<noteq> h"
    using hk tw by (auto simp: tasks_in_def in_phase_def)
  show "tasks_in (fst (send_event lower gen s (DriverReturns h))) k Holding = {t}"
    unfolding ev tasks_in_passed [OF t] by (simp add: hk h)
  show "queue_of (fst (send_event lower gen s (DriverReturns h))) k = ts"
    unfolding ev by (simp add: queue_of_def rel)
qed

lemma turn_comes_aux:
  "sends_ok s \<Longrightarrow> tasks_in s k Holding = {h} \<Longrightarrow> queue_of s k = pre @ t # post \<Longrightarrow>
   tasks_in (fst (run_actor (send_event lower gen) s (map DriverReturns (h # pre)))) k Holding = {t}"
proof (induction pre arbitrary: s h)
  case Nil
  then show ?case using return_passes_on(1) [of s k h t post lower gen] by simp
next
  case (Cons p pre)
  let ?s = "fst (send_event lower gen s (DriverReturns h))"
  have q: "queue_of s k = p # (pre @ t # post)" using Cons.prems(3) by simp
  show ?case
    using Cons.IH [OF send_event_ok [OF Cons.prems(1)] return_passes_on [OF Cons.prems(1,2) q]]
    by simp
qed

section \<open>Properties\<close>

text \<open>C6. Sends to one target are serialized: under every interleaving of send calls, driver tasks and session
  messages at most one driver per target holds the permit, permits are granted in the order in which
  the drivers asked for them, and a driver is left waiting only while another one of the same target
  holds the permit.
\<close>

theorem sends_serialized:
  "case run_actor (send_event lower gen) (new_sends a) es of (s, outs) \<Rightarrow>
     card (tasks_in s k Holding) \<le> 1 \<and>
     of_key k (concat (map fst outs)) = of_key k (concat (map snd outs)) @ queue_of s k \<and>
     (queue_of s k = [] \<or> card (tasks_in s k Holding) = 1)"
proof -
  obtain s outs where r: "run_actor (send_event lower gen) (new_sends a) es = (s, outs)" by fastforce
  have ok: "sends_ok s"
    using sends.run_inv [OF sends_ok_start [of a], where lower = lower and gen = gen and ms = es] by (simp add: r)
  have order: "of_key k (concat (map snd outs)) @ queue_of s k = of_key k (concat (map fst outs))"
    using sends_order [OF sends_ok_start r, of k] by (simp add: queue_of_def new_sends_def)
  have "card (tasks_in s k Holding) \<le> 1 \<and> (queue_of s k = [] \<or> card (tasks_in s k Holding) = 1)"
  proof (cases "hget (sn_locks s) k")
    case None
    then show ?thesis using ok by (simp add: sends_ok_def queue_of_def)
  next
    case (Some l)
    then show ?thesis
      using sem.at_most_one [OF sends_okD [OF ok Some]] sem.held_while_queued [OF sends_okD [OF ok Some]]
      by (simp add: queue_of_def)
  qed
  then show ?thesis using order by (simp add: r)
qed

text \<open>The turn of every waiting send comes: when the driver that holds the permit of a target and those
  queued before a send return, one after the other, that send holds the permit.
\<close>

theorem turn_comes:
  assumes "s = fst (run_actor (send_event lower gen) (new_sends a) es)"
    and "tasks_in s k Holding = {h}" and "queue_of s k = pre @ t # post"
  shows "tasks_in (fst (run_actor (send_event lower gen) s (map DriverReturns (h # pre)))) k Holding = {t}"
  using assms sends.run_inv [OF sends_ok_start [of a], where lower = lower and gen = gen and ms = es] by (intro turn_comes_aux) auto

definition sample_sends :: "SendEvent list" where
  "sample_sends =
     (let f = [\<lparr>sf_path = ''a'', sf_size = Inr 3\<rparr>] in
      [SendFiles sample_device f, SendFiles sample_device f, SendFiles sample_device f,
       FirstPoll 1, FirstPoll 0, FirstPoll 2])"

lemma turn_comes_witness:
  "let s = fst (run_actor (send_event (\<lambda>x. x) sample_gen) (new_sends (new_actor 3)) sample_sends) in
     tasks_in s ''f1'' Holding = {1} \<and> queue_of s ''f1'' = [0] @ 2 # [] \<and>
     tasks_in (fst (run_actor (send_event (\<lambda>x. x) sample_gen) s (map DriverReturns [1, 0]))) ''f1'' Holding = {2}"
proof -
  let ?s = "fst (run_actor (send_event (\<lambda>x. x) sample_gen) (new_sends (new_actor 3)) sample_sends)"
  have h: "tasks_in ?s ''f1'' Holding = {1}" by code_simp
  have q: "queue_of ?s ''f1'' = [0] @ 2 # []" by code_simp
  show ?thesis using turn_comes [OF refl h q] h q by (simp add: Let_def)
qed

text \<open>A target given by its address is not serialized with the same device found by discovery: the lock is
  keyed by the made-up fingerprint of the manual target, so that two sends to one device hold their
  permits at the same time.
\<close>

theorem manual_target_overlaps:
  assumes "manual addr = Some m" and "nd_fingerprint d \<noteq> []"
    and "\<not> starts_with (nd_fingerprint d) ''manual-''"
    and "send_files lower gen m files a = (a1, Inr r1)" and "send_files lower gen d files' a1 = (a2, Inr r2)"
  shows "let s = fst (run_actor (send_event lower gen) (new_sends a)
             [SendFiles m files, SendFiles d files', FirstPoll 0, FirstPoll 1])
         in in_phase s 0 Holding \<and> in_phase s 1 Holding"
proof -
  have "starts_with (nd_fingerprint m) ''manual-''" "nd_fingerprint m \<noteq> []"
    using assms(1) by (auto simp: manual_def starts_with_def Let_def split: option.splits prod.splits if_splits)
  then have keys: "target_key m \<noteq> target_key d" "target_key d \<noteq> target_key m"
    using assms(2,3) by (auto simp: target_key_def)
  obtain i1 e1 i2 e2 where "r1 = (i1, e1)" "r2 = (i2, e2)" by fastforce
  then show ?thesis using assms(4,5) keys
    by (simp add: Let_def send_files_internal_def new_sends_def target_lock_def in_phase_def driver_acquire_def
        new_semaphore_def acquire_def set_phase_def case_prod_beta)
qed

definition sample_manual :: NodeDevice where
  "sample_manual =
     \<lparr>nd_alias = ''10.0.0.2:9'', nd_version = PROTOCOL_VERSION, nd_device_model = ''unknown'',
      nd_device_type = ''unknown'', nd_fingerprint = ''manual-10.0.0.2:9'', nd_address = ''10.0.0.2'', nd_port = 9,
      nd_protocol = ''http'', nd_download = True, nd_announcement = False, nd_announce = False,
      nd_discovery_source = default_discovery_source\<rparr>"

lemma manual_sample: "manual ''10.0.0.2:9'' = Some sample_manual"
proof -
  have cut: "rsplit_once (CHR '':'') ''10.0.0.2:9'' = Some (''10.0.0.2'', ''9'')" by code_simp
  have nine: "show_nat 9 = ''9''" by code_simp
  then have port: "parse_u16 (str_trim ''9'') = Some 9"
    using str_trim_show_nat [of 9] parse_u16_show_nat [of 9] by simp
  have trim: "trim_matches [CHR ''['', CHR '']''] (str_trim ''10.0.0.2'') = ''10.0.0.2''" by code_simp
  show ?thesis by (simp add: manual_def cut port trim nine sample_manual_def)
qed

lemma manual_target_overlaps_witness:
  "let d = sample_device\<lparr>nd_port := 9\<rparr>; f = [\<lparr>sf_path = ''a'', sf_size = Inr 3\<rparr>];
       s = fst (run_actor (send_event (\<lambda>x. x) sample_gen) (new_sends (new_actor 3))
             [SendFiles sample_manual f, SendFiles d f, FirstPoll 0, FirstPoll 1])
   in nd_address sample_manual = nd_address d \<and> nd_port sample_manual = nd_port d \<and>
      in_phase s 0 Holding \<and> in_phase s 1 Holding"
proof -
  let ?f = "[\<lparr>sf_path = ''a'', sf_size = Inr 3\<rparr>]" and ?d = "sample_device\<lparr>nd_port := 9\<rparr>"
  let ?r1 = "send_files (\<lambda>x. x) sample_gen sample_manual ?f (new_actor 3)"
  let ?r2 = "send_files (\<lambda>x. x) sample_gen ?d ?f (fst ?r1)"
  have r1: "?r1 = (fst ?r1, Inr (projr (snd ?r1)))" by code_simp
  have r2: "?r2 = (fst ?r2, Inr (projr (snd ?r2)))" by code_simp
  have d: "nd_fingerprint ?d \<noteq> []" "\<not> starts_with (nd_fingerprint ?d) ''manual-''"
    by (simp_all add: sample_device_def starts_with_def)
  have "nd_address sample_manual = nd_address ?d" "nd_port sample_manual = nd_port ?d"
    by (simp_all add: sample_manual_def sample_device_def)
  then show ?thesis using manual_target_overlaps [OF manual_sample d r1 r2] by (simp add: Let_def)
qed

end
