(* ===== verification/Core_Tasks.thy ===== *)
theory Core_Tasks
  imports Handle_Props Samples
begin

text \<open>
  The core actor and the tasks around it, \<open>src/rust/core/src/handle.rs\<close>: the messages of the actor, the tasks
  a start spawns (announce ticker, relay heartbeat, bridge listener) and the configuration calls of
  the front ends, which are several messages each.

  \<^item> \<open>on_start\<close> and \<open>on_shutdown\<close> of \<open>Handle\<close> are what the actor does for the two messages; this theory adds the
    other messages and the tasks.
  \<^item> A ticker first asks the actor for the state channel (\<open>Starting\<close>), then selects between its interval and
    a change of the channel.  \<open>Ticking v\<close> has seen version \<open>v\<close>, the number of values sent; the receiver the
    actor clones has seen none.
  \<^item> A configuration call reads the configuration, reads the device, writes the device and writes the
    configuration, each with a message of its own.
  \<^item> A run is any sequence of events, which is any interleaving of the actor, tickers and calls.
\<close>

section \<open>The actor\<close>

datatype CoreMessage = GetConfig | ChangeConfig CoreConfig | Start "u16 \<Rightarrow> bool" | Shutdown | Listen

datatype CoreReply = ConfigReply CoreConfig | UnitReply | ListenReply nat

fun handle_core_message :: "App \<Rightarrow> CoreMessage \<Rightarrow> App \<times> CoreReply" where
  "handle_core_message a GetConfig = (a, ConfigReply (get_config a))"
| "handle_core_message a (ChangeConfig config) = (a\<lparr>ap_core := (ap_core a)\<lparr>co_config := config\<rparr>\<rparr>, UnitReply)"
| "handle_core_message a (Start free) = (on_start free a, UnitReply)"
| "handle_core_message a Shutdown = (on_shutdown a, UnitReply)"
| "handle_core_message a Listen = (a, ListenReply 0)"

section \<open>Tasks and calls\<close>

datatype Ticker = Starting | Ticking nat | Stopped

datatype ConfigCall = ChangePort u16 | ChangePath string

fun config_edit :: "ConfigCall \<Rightarrow> CoreConfig \<Rightarrow> CoreConfig" where
  "config_edit (ChangePort port) value = value\<lparr>cc_port := port\<rparr>"
| "config_edit (ChangePath path) value = value\<lparr>cc_store_path := path\<rparr>"

datatype CallState =
  Called ConfigCall
| HasConfig CoreConfig
| HasDevice CoreConfig NodeDevice
| DeviceSet CoreConfig
| CallDone

record CoreSys =
  cs_app :: App
  cs_tickers :: "Ticker list"
  cs_heartbeats :: nat
  cs_bridge_listeners :: nat
  cs_calls :: "CallState list"

definition new_core_sys :: "App \<Rightarrow> CoreSys" where
  "new_core_sys a = \<lparr>cs_app = a, cs_tickers = [], cs_heartbeats = 0, cs_bridge_listeners = 0, cs_calls = []\<rparr>"

datatype CoreEvent =
  Message CoreMessage
| Subscribe nat
| Tick nat
| Changed nat
| NewCall ConfigCall
| CallStep nat

definition version :: "'a watch \<Rightarrow> nat" where
  "version w = length w - 1"

text \<open>The message, and the tasks a start spawns.\<close>

definition core_message :: "CoreSys \<Rightarrow> CoreMessage \<Rightarrow> CoreSys" where
  "core_message s m =
     (let s1 = s\<lparr>cs_app := fst (handle_core_message (cs_app s) m)\<rparr> in
      case m of
        Start _ \<Rightarrow> s1\<lparr>cs_tickers := cs_tickers s @ [Starting], cs_heartbeats := Suc (cs_heartbeats s),
                     cs_bridge_listeners := Suc (cs_bridge_listeners s)\<rparr>
      | _ \<Rightarrow> s1)"

text \<open>The branches of the ticker; the second component is what is announced.\<close>

definition ticker_changed :: "bool watch \<Rightarrow> Ticker \<Rightarrow> Ticker" where
  "ticker_changed st t =
     (case t of
        Ticking v \<Rightarrow>
          if v < version st then (if watch_borrow st then Ticking (version st) else Stopped) else t
      | _ \<Rightarrow> t)"

definition ticker_tick :: "App \<Rightarrow> Ticker \<Rightarrow> NodeAnnounce list" where
  "ticker_tick a t = (case t of Ticking _ \<Rightarrow> [to_announce (current_device a)] | _ \<Rightarrow> [])"

definition ticker_subscribe :: "App \<Rightarrow> Ticker \<Rightarrow> Ticker" where
  "ticker_subscribe a t =
     (case t of
        Starting \<Rightarrow> (case snd (handle_core_message a Listen) of ListenReply v \<Rightarrow> Ticking v | _ \<Rightarrow> Starting)
      | _ \<Rightarrow> t)"

definition call_step :: "App \<Rightarrow> CallState \<Rightarrow> App \<times> CallState" where
  "call_step a c =
     (case c of
        Called e \<Rightarrow>
          (case handle_core_message a GetConfig of
             (a1, ConfigReply value) \<Rightarrow> (a1, HasConfig (config_edit e value))
           | (a1, _) \<Rightarrow> (a1, c))
      | HasConfig config \<Rightarrow> (a, HasDevice config (current_device a))
      | HasDevice config current \<Rightarrow> (set_current (current\<lparr>nd_port := cc_port config\<rparr>) a, DeviceSet config)
      | DeviceSet config \<Rightarrow> (fst (handle_core_message a (ChangeConfig config)), CallDone)
      | CallDone \<Rightarrow> (a, CallDone))"

definition update_at :: "nat \<Rightarrow> ('a \<Rightarrow> 'a) \<Rightarrow> 'a list \<Rightarrow> 'a list" where
  "update_at i f xs = (if i < length xs then xs[i := f (xs ! i)] else xs)"

fun core_event :: "CoreSys \<Rightarrow> CoreEvent \<Rightarrow> CoreSys \<times> NodeAnnounce list" where
  "core_event s (Message m) = (core_message s m, [])"
| "core_event s (Subscribe i) = (s\<lparr>cs_tickers := update_at i (ticker_subscribe (cs_app s)) (cs_tickers s)\<rparr>, [])"
| "core_event s (Tick i) =
     (s, if i < length (cs_tickers s) then ticker_tick (cs_app s) (cs_tickers s ! i) else [])"
| "core_event s (Changed i) =
     (s\<lparr>cs_tickers := update_at i (ticker_changed (ap_state (cs_app s))) (cs_tickers s)\<rparr>, [])"
| "core_event s (NewCall e) = (s\<lparr>cs_calls := cs_calls s @ [Called e]\<rparr>, [])"
| "core_event s (CallStep i) =
     (if i < length (cs_calls s)
      then (case call_step (cs_app s) (cs_calls s ! i) of
              (a, c) \<Rightarrow> (s\<lparr>cs_app := a, cs_calls := (cs_calls s)[i := c]\<rparr>, []))
      else (s, []))"

definition starts :: "CoreEvent list \<Rightarrow> nat" where
  "starts es = length (filter (\<lambda>e. case e of Message (Start _) \<Rightarrow> True | _ \<Rightarrow> False) es)"

section \<open>The invariant of the tickers\<close>

text \<open>A ticker has a change of the channel ahead of it, or has seen the last value, and that was \<open>True\<close>.\<close>

definition ticker_ok :: "bool watch \<Rightarrow> Ticker \<Rightarrow> bool" where
  "ticker_ok st t =
     (case t of Ticking v \<Rightarrow> v < version st \<or> (v = version st \<and> watch_borrow st) | _ \<Rightarrow> True)"

definition tickers_ok :: "CoreSys \<Rightarrow> bool" where
  "tickers_ok s \<longleftrightarrow> ap_state (cs_app s) \<noteq> [] \<and> (cs_tickers s = [] \<or> 0 < version (ap_state (cs_app s))) \<and>
     list_all (ticker_ok (ap_state (cs_app s))) (cs_tickers s)"

lemma version_send [simp]: "w \<noteq> [] \<Longrightarrow> version (watch_send v w) = Suc (version w)"
  by (cases w) (simp_all add: version_def watch_send_def)

lemma watch_send_not_Nil [simp]: "watch_send v w \<noteq> []"
  by (simp add: watch_send_def)

lemma on_start_state: "\<exists>b. ap_state (on_start free a) = watch_send b (ap_state a)"
  by (cases "bind_port free (cc_port (get_config a))") (simp_all add: on_start_def Let_def, blast+)

lemma call_step_state [simp]: "ap_state (fst (call_step a c)) = ap_state a"
  by (simp add: call_step_def split: CallState.splits)

lemma ticker_ok_Starting: "ticker_ok w Starting"
  by (simp add: ticker_ok_def)

lemma ticker_ok_send: "w \<noteq> [] \<Longrightarrow> ticker_ok w t \<Longrightarrow> ticker_ok (watch_send v w) t"
  by (auto simp: ticker_ok_def split: Ticker.splits)

lemma ticker_ok_subscribe: "0 < version (ap_state a) \<Longrightarrow> ticker_ok (ap_state a) t \<Longrightarrow> ticker_ok (ap_state a) (ticker_subscribe a t)"
  by (auto simp: ticker_ok_def ticker_subscribe_def split: Ticker.splits)

lemma ticker_ok_changed: "ticker_ok st t \<Longrightarrow> ticker_ok st (ticker_changed st t)"
  by (auto simp: ticker_ok_def ticker_changed_def split: Ticker.splits)

lemma list_all_update_at: "list_all P xs \<Longrightarrow> (\<And>x. P x \<Longrightarrow> P (f x)) \<Longrightarrow> list_all P (update_at i f xs)"
  by (auto simp: update_at_def list_all_length nth_list_update)

lemma update_at_Nil [simp]: "update_at i f xs = [] \<longleftrightarrow> xs = []"
  by (simp add: update_at_def)

lemma length_update_at [simp]: "length (update_at i f xs) = length xs"
  by (simp add: update_at_def)

lemma nth_update_at: "i < length xs \<Longrightarrow> update_at j f xs ! i = (if i = j then f (xs ! i) else xs ! i)"
  by (simp add: update_at_def nth_list_update)

lemma core_message_ok:
  assumes "tickers_ok s"
  shows "tickers_ok (core_message s m)"
proof (cases m)
  case (Start free)
  obtain b where "ap_state (on_start free (cs_app s)) = watch_send b (ap_state (cs_app s))"
    using on_start_state by blast
  then show ?thesis using assms Start
    by (auto simp: core_message_def tickers_ok_def ticker_ok_Starting intro: list.pred_mono_strong ticker_ok_send)
next
  case Shutdown
  then show ?thesis using assms
    by (auto simp: core_message_def tickers_ok_def on_shutdown_def intro: list.pred_mono_strong ticker_ok_send)
qed (use assms in \<open>simp_all add: core_message_def tickers_ok_def\<close>)

lemma tickers_ok_event: "tickers_ok s \<Longrightarrow> tickers_ok (fst (core_event s e))"
proof (cases e)
  case (Subscribe i)
  assume "tickers_ok s"
  then show ?thesis using Subscribe
    by (cases "cs_tickers s = []")
      (simp add: tickers_ok_def update_at_def, auto simp: tickers_ok_def intro!: list_all_update_at ticker_ok_subscribe)
next
  case (CallStep i)
  assume "tickers_ok s"
  then show ?thesis using CallStep by (simp add: tickers_ok_def case_prod_beta)
next
  case (Message m)
  assume "tickers_ok s"
  then show ?thesis using Message core_message_ok by simp
qed (auto simp: tickers_ok_def intro!: list_all_update_at ticker_ok_changed)

interpretation core_tickers: actor_invariant core_event tickers_ok
  by unfold_locales (rule tickers_ok_event)

lemma tickers_ok_new [simp]: "ap_state a \<noteq> [] \<Longrightarrow> tickers_ok (new_core_sys a)"
  by (simp add: tickers_ok_def new_core_sys_def)

section \<open>After a shutdown\<close>

fun rank :: "Ticker \<Rightarrow> nat" where
  "rank Starting = 0"
| "rank (Ticking v) = 1"
| "rank Stopped = 2"

definition no_start :: "CoreEvent \<Rightarrow> bool" where
  "no_start e \<longleftrightarrow> (case e of Message (Start _) \<Rightarrow> False | _ \<Rightarrow> True)"

text \<open>The server is down and the ticker \<open>i\<close> is on its way to the end.\<close>

definition winding_down :: "nat \<Rightarrow> nat \<Rightarrow> CoreSys \<Rightarrow> bool" where
  "winding_down r i s \<longleftrightarrow> tickers_ok s \<and> \<not> watch_borrow (ap_state (cs_app s)) \<and> i < length (cs_tickers s) \<and>
     r \<le> rank (cs_tickers s ! i)"

lemma rank_mono: "rank t \<le> rank (ticker_subscribe a t)" "rank t \<le> rank (ticker_changed st t)"
  by (simp_all add: ticker_subscribe_def ticker_changed_def split: Ticker.splits)

lemma winding_down_step:
  assumes "winding_down r i s" "no_start e"
  shows "winding_down r i (fst (core_event s e))"
proof -
  have ok: "tickers_ok (fst (core_event s e))" using assms(1) by (simp add: winding_down_def tickers_ok_event)
  show ?thesis
  proof (cases e)
    case (Message m)
    then show ?thesis using assms ok
      by (cases m) (auto simp: winding_down_def no_start_def core_message_def on_shutdown_def)
  next
    case (Subscribe j)
    then show ?thesis using assms(1) ok rank_mono(1) [of "cs_tickers s ! i" "cs_app s"]
      by (auto simp: winding_down_def nth_update_at)
  next
    case (Changed j)
    then show ?thesis using assms(1) ok rank_mono(2) [of "cs_tickers s ! i" "ap_state (cs_app s)"]
      by (auto simp: winding_down_def nth_update_at)
  qed (use assms(1) ok in \<open>auto simp: winding_down_def case_prod_beta\<close>)
qed

interpretation down: guarded_actor core_event "\<lambda>_. no_start" "winding_down r i" for r i
  by unfold_locales (rule winding_down_step)

lemma winding_subscribe: "winding_down 0 i s \<Longrightarrow> winding_down 1 i (fst (core_event s (Subscribe i)))"
  using winding_down_step [of 0 i s "Subscribe i"]
  by (auto simp: winding_down_def no_start_def nth_update_at ticker_subscribe_def split: Ticker.splits)

lemma winding_changed:
  assumes "winding_down 1 i s"
  shows "winding_down 2 i (fst (core_event s (Changed i)))"
proof -
  have "ticker_ok (ap_state (cs_app s)) (cs_tickers s ! i)"
    using assms by (simp add: winding_down_def tickers_ok_def list_all_length)
  then have "ticker_changed (ap_state (cs_app s)) (cs_tickers s ! i) = Stopped"
    using assms by (auto simp: winding_down_def ticker_ok_def ticker_changed_def split: Ticker.splits)
  then show ?thesis using winding_down_step [OF assms, of "Changed i"] assms
    by (simp add: winding_down_def no_start_def nth_update_at)
qed

lemma winds_down:
  assumes "winding_down 0 i s" "es = pre @ Subscribe i # mid @ Changed i # post" "list_all no_start es"
  shows "winding_down 2 i (fst (run_actor core_event s es))"
proof -
  have pre: "winding_down 0 i (fst (run_actor core_event s pre))"
    using assms by (intro down.run_inv) (simp_all add: run_ok_list_all)
  have mid: "winding_down 1 i (fst (run_actor core_event s (pre @ Subscribe i # mid)))"
    unfolding fst_run_actor_append fst_run_actor_Cons
    using assms winding_subscribe [OF pre] by (intro down.run_inv) (simp_all add: run_ok_list_all)
  have "winding_down 2 i (fst (run_actor core_event s ((pre @ Subscribe i # mid) @ Changed i # post)))"
    unfolding fst_run_actor_append [of _ _ "pre @ Subscribe i # mid"] fst_run_actor_Cons
    using assms winding_changed [OF mid] by (intro down.run_inv) (simp_all add: run_ok_list_all)
  then show ?thesis using assms(2) by simp
qed

section \<open>Restarts\<close>

definition unstopped :: "CoreSys \<Rightarrow> nat" where
  "unstopped s = length (filter (\<lambda>t. t \<noteq> Stopped) (cs_tickers s))"

text \<open>No ticker gets to run while the server is down.\<close>

definition tickers_asleep :: "CoreSys \<Rightarrow> CoreEvent \<Rightarrow> bool" where
  "tickers_asleep s e \<longleftrightarrow> (case e of Changed _ \<Rightarrow> watch_borrow (ap_state (cs_app s)) | _ \<Rightarrow> True)"

definition alive :: "nat \<Rightarrow> CoreSys \<Rightarrow> bool" where
  "alive n s \<longleftrightarrow> list_all (\<lambda>t. t \<noteq> Stopped) (cs_tickers s) \<and> length (cs_tickers s) = n \<and> cs_heartbeats s = n \<and>
     cs_bridge_listeners s = n"

lemma stopped_iff [simp]:
  "ticker_subscribe a t = Stopped \<longleftrightarrow> t = Stopped"
  "watch_borrow st \<Longrightarrow> ticker_changed st t = Stopped \<longleftrightarrow> t = Stopped"
  by (auto simp: ticker_subscribe_def ticker_changed_def split: Ticker.splits)

lemma alive_event:
  assumes "alive n s" "tickers_asleep s e"
  shows "alive (n + starts [e]) (fst (core_event s e))"
proof (cases e)
  case (Message m)
  then show ?thesis using assms by (cases m) (auto simp: alive_def core_message_def starts_def)
qed (use assms in \<open>auto simp: alive_def starts_def tickers_asleep_def case_prod_beta
      intro!: list_all_update_at\<close>)

lemma alive_run:
  "alive n s \<Longrightarrow> run_ok core_event tickers_asleep s es \<Longrightarrow> alive (n + starts es) (fst (run_actor core_event s es))"
proof (induction es arbitrary: n s)
  case (Cons e es)
  then have "alive (n + starts [e] + starts es) (fst (run_actor core_event (fst (core_event s e)) es))"
    using alive_event [of n s e] by (intro Cons.IH) auto
  then show ?case by (simp add: starts_def split: if_splits)
qed (simp add: starts_def)

section \<open>Properties\<close>

text \<open>C22. A shutdown silences the device: once every announce ticker has run after the shutdown and no start
  came in between, all of them have ended.
\<close>

theorem shutdown_stops_tickers:
  assumes "s = fst (run_actor core_event (new_core_sys (new_app d c opt tls)) es0)"
    and "list_all no_start es"
    and "\<And>i. i < length (cs_tickers s) \<Longrightarrow> \<exists>pre mid post. es = pre @ Subscribe i # mid @ Changed i # post"
  shows "list_all (\<lambda>t. t = Stopped) (cs_tickers (fst (run_actor core_event s (Message Shutdown # es))))"
proof -
  let ?s = "core_message s Shutdown"
  let ?t = "fst (run_actor core_event ?s es)"
  have ok: "tickers_ok s" unfolding assms(1)
    by (rule core_tickers.run_inv) (simp_all add: new_app_def watch_channel_def)
  have down: "winding_down 0 i ?s" if "i < length (cs_tickers s)" for i
    using that core_message_ok [OF ok, of Shutdown]
    by (simp add: winding_down_def core_message_def on_shutdown_def)
  have len: "length (cs_tickers ?t) = length (cs_tickers s)"
    using assms(2)
  proof (induction es rule: rev_induct)
    case (snoc e es)
    then show ?case
      by (cases e) (auto simp: fst_run_actor_append no_start_def core_message_def case_prod_beta split: CoreMessage.splits)
  qed (simp add: core_message_def)
  have "cs_tickers ?t ! i = Stopped" if i: "i < length (cs_tickers s)" for i
  proof -
    obtain pre mid post where "es = pre @ Subscribe i # mid @ Changed i # post" using assms(3) [OF i] by blast
    from winds_down [OF down [OF i] this assms(2)] show ?thesis
      by (cases "cs_tickers ?t ! i") (auto simp: winding_down_def)
  qed
  then show ?thesis by (simp add: list_all_length len)
qed


text \<open>A configuration call that is not interrupted is the update of the configuration and of the announced port
  in one step.
\<close>

theorem config_call_atomic:
  "cs_app (fst (run_actor core_event (new_core_sys a) (NewCall e # replicate 4 (CallStep 0)))) =
     (case e of ChangePort p \<Rightarrow> change_port p a | ChangePath q \<Rightarrow> change_path q a)"
  by (cases e) (simp_all add: numeral_eq_Suc new_core_sys_def call_step_def change_port_def change_path_def
      change_config_def Let_def)

text \<open>Calls that overlap lose updates: a port chosen while a path is being changed is undone, and when a start
  falls back to another port during the call, the device goes on announcing a port on which nothing listens.
\<close>

theorem overlapping_calls_lose_port:
  assumes "bind_port free (cc_port (get_config a)) = Inr p"
  shows "get_config (cs_app (fst (run_actor core_event (new_core_sys a)
           ([NewCall (ChangePath q), NewCall (ChangePort p'), CallStep 0] @ replicate 4 (CallStep 1) @
            replicate 3 (CallStep 0))))) = (get_config a)\<lparr>cc_store_path := q\<rparr> \<and>
         (let b = cs_app (fst (run_actor core_event (new_core_sys a)
           ([NewCall (ChangePath q), CallStep 0, Message (Start free)] @ replicate 3 (CallStep 0))))
          in ap_server b \<and> watch_borrow (ap_state b) \<and> nd_port (current_device b) = cc_port (get_config a) \<and>
             get_config b = (get_config a)\<lparr>cc_store_path := q\<rparr>)"
  using assms
  by (simp add: numeral_eq_Suc new_core_sys_def call_step_def core_message_def on_start_def Let_def)

section \<open>Witnesses\<close>

definition sample_core_app :: App where
  "sample_core_app = new_app sample_device default_config default_options None"

lemma shutdown_stops_tickers_witness:
  "let s = fst (run_actor core_event (new_core_sys sample_core_app) [Message (Start (\<lambda>_. True)), Subscribe 0, Changed 0])
   in cs_tickers s = [Ticking 1] \<and>
      list_all (\<lambda>t. t = Stopped) (cs_tickers (fst (run_actor core_event s [Message Shutdown, Subscribe 0, Changed 0])))"
proof -
  let ?s = "fst (run_actor core_event (new_core_sys sample_core_app) [Message (Start (\<lambda>_. True)), Subscribe 0, Changed 0])"
  have t: "cs_tickers ?s = [Ticking 1]"
    by (simp add: new_core_sys_def sample_core_app_def core_message_def on_start_def Let_def bind_port_def upt_conv_Cons
        update_at_def ticker_subscribe_def ticker_changed_def version_def new_app_def watch_channel_def watch_send_def
        watch_borrow_def)
  have split: "\<exists>pre mid post. [Subscribe 0, Changed 0] = pre @ Subscribe i # mid @ Changed i # post"
    if "i < length (cs_tickers ?s)" for i
    using that unfolding t by (intro exI [of _ "[]"]) simp
  have "list_all (\<lambda>t. t = Stopped) (cs_tickers (fst (run_actor core_event ?s [Message Shutdown, Subscribe 0, Changed 0])))"
    using shutdown_stops_tickers [OF _ _ split, where d = sample_device and c = default_config and opt = default_options and
        tls = None and ?es0.0 = "[Message (Start (\<lambda>_. True)), Subscribe 0, Changed 0]"]
    by (simp add: sample_core_app_def no_start_def)
  then show ?thesis using t by (simp add: Let_def)
qed


lemma overlapping_calls_lose_port_witness:
  "\<exists>p. bind_port (\<lambda>p. p \<noteq> 53317) (cc_port (get_config sample_core_app)) = Inr p \<and> p \<noteq> 53317 \<and>
     (let b = cs_app (fst (run_actor core_event (new_core_sys sample_core_app)
           ([NewCall (ChangePath ''d''), CallStep 0, Message (Start (\<lambda>p. p \<noteq> 53317))] @ replicate 3 (CallStep 0))))
      in watch_borrow (ap_state b) \<and> nd_port (current_device b) = 53317)"
proof -
  have port: "cc_port (get_config sample_core_app) = 53317"
    by (simp add: sample_core_app_def new_app_def get_config_def sample_device_def)
  have b: "bind_port (\<lambda>p. p \<noteq> 53317) (cc_port (get_config sample_core_app)) = Inr 53318"
    unfolding port by (simp add: bind_port_def saturating_add16_def upt_conv_Cons)
  show ?thesis using overlapping_calls_lose_port [OF b, of "''d''" 0] b port by (auto simp: Let_def)
qed

end
