(* ===== verification/Discovery_Net.thy ===== *)
theory Discovery_Net
  imports Hole_Punch Device Config Samples
begin

text \<open>
  Discovery on the local network, \<open>src/rust/core/src/discovery.rs\<close>: the interfaces, sending an announcement,
  opening the sockets and joining the multicast group, the receive task with its end, and the handle
  that stops it.  The handling of one datagram is \<open>udp_step\<close> of \<open>Device\<close>.

  \<^item> \<open>UdpNet\<close> is what the operating system answers: the list of interfaces, and whether creating, binding
    and joining succeed.
  \<^item> A datagram sent is the address of the interface, the target and the bytes.  Whether a datagram of one
    interface reaches another (\<open>reaches\<close>) is the network's; it arrives at the devices that joined the group on
    an interface it reaches.
\<close>

section \<open>Interfaces and announcements\<close>

record IfAddr =
  if_ip :: IpAddr
  if_loopback :: bool

record UdpNet =
  un_ifs :: "IfAddr list option"
  un_create :: "string + unit"
  un_bind :: "SocketAddr \<Rightarrow> string + unit"
  un_register :: "string + unit"
  un_bind_send :: "bytes \<Rightarrow> string + unit"
  un_join :: "bytes \<Rightarrow> bytes \<Rightarrow> bool"

text \<open>\<open>Ipv4Addr::from_str\<close>\<close>

definition parse_ipv4 :: "string \<Rightarrow> bytes option" where
  "parse_ipv4 s =
     (if length s > 15 then None
      else case read_ipv4 s of Some (ip, []) \<Rightarrow> Some ip | _ \<Rightarrow> None)"

definition all_ipv4_interfaces :: "IfAddr list option \<Rightarrow> bytes list" where
  "all_ipv4_interfaces ifs =
     (let list = (case ifs of
            None \<Rightarrow> []
          | Some l \<Rightarrow> List.map_filter (\<lambda>i. if if_loopback i then None else if_v4 (if_ip i)) l)
      in if list = [] then (case parse_ipv4 ''0.0.0.0'' of Some v4 \<Rightarrow> [v4] | None \<Rightarrow> []) else list)"

type_synonym sent = "bytes \<times> SocketAddr \<times> bytes"

definition announce_datagrams :: "UdpNet \<Rightarrow> CoreConfig \<Rightarrow> string \<Rightarrow> sent list" where
  "announce_datagrams net config message =
     (case parse_ipv4 (cc_multicast_addr config) of
        None \<Rightarrow> []
      | Some multicast_addr \<Rightarrow>
          let target = V4 multicast_addr (cc_multicast_port config) in
          concat (map (\<lambda>if_addr.
              case un_bind_send net if_addr of
                Inl _ \<Rightarrow> []
              | Inr _ \<Rightarrow> map (\<lambda>_. (if_addr, target, as_bytes message)) [1 ..< 3])
            (all_ipv4_interfaces (un_ifs net))))"

section \<open>Opening the sockets\<close>

datatype DiscoverError =
  BadAddress | NoSocket string | NoBind string | NoRegister string | NoSendSocket string | NoGroup

text \<open>The interfaces on which the group is joined.\<close>

definition udp_open :: "UdpNet \<Rightarrow> CoreConfig \<Rightarrow> DiscoverError + bytes list" where
  "udp_open net config =
     (case (parse_ipv4 (cc_interface_addr config), parse_ipv4 (cc_multicast_addr config)) of
        (Some interface_addr, Some multicast_addr) \<Rightarrow>
          (case un_create net of
             Inl e \<Rightarrow> Inl (NoSocket e)
           | Inr _ \<Rightarrow>
               (case un_bind net (V4 interface_addr (cc_multicast_port config)) of
                  Inl e \<Rightarrow> Inl (NoBind e)
                | Inr _ \<Rightarrow>
                    (case un_register net of
                       Inl e \<Rightarrow> Inl (NoRegister e)
                     | Inr _ \<Rightarrow>
                         (case un_bind_send net interface_addr of
                            Inl e \<Rightarrow> Inl (NoSendSocket e)
                          | Inr _ \<Rightarrow>
                              let joined = filter (un_join net multicast_addr) (all_ipv4_interfaces (un_ifs net)) in
                              if joined = [] then
                                (if un_join net multicast_addr interface_addr then Inr [interface_addr] else Inl NoGroup)
                              else Inr joined))))
      | _ \<Rightarrow> Inl BadAddress)"

section \<open>The task and its handle\<close>

datatype UdpInput = Received Datagram | RecvFailed | StopSignal

text \<open>The loop: the last component counts the values sent to the shutdown channel.\<close>

fun udp_loop ::
  "(string \<Rightarrow> NodeAnnounce option) \<Rightarrow> DeviceActor \<Rightarrow> UdpInput list \<Rightarrow> DeviceActor \<times> Action list \<times> nat" where
  "udp_loop parse a [] = (a, [], 0)"
| "udp_loop parse a (Received dg # is) =
     (case udp_step parse a dg of
        (a1, act) \<Rightarrow> (case udp_loop parse a1 is of (a2, acts, n) \<Rightarrow> (a2, act # acts, n)))"
| "udp_loop parse a (RecvFailed # is) = udp_loop parse a is"
| "udp_loop parse a (StopSignal # is) = (a, [], 1)"

definition udp_task ::
  "UdpNet \<Rightarrow> CoreConfig \<Rightarrow> (string \<Rightarrow> NodeAnnounce option) \<Rightarrow> DeviceActor \<Rightarrow> UdpInput list \<Rightarrow> DeviceActor \<times> Action list \<times> nat" where
  "udp_task net config parse a is =
     (case udp_open net config of Inl _ \<Rightarrow> (a, [], 1) | Inr _ \<Rightarrow> udp_loop parse a is)"

text \<open>\<open>DiscoverHandle::shutdown\<close> sends the signal and returns once the channel has changed.\<close>

definition discover_shutdown ::
  "UdpNet \<Rightarrow> CoreConfig \<Rightarrow> (string \<Rightarrow> NodeAnnounce option) \<Rightarrow> DeviceActor \<Rightarrow> UdpInput list \<Rightarrow> DeviceActor \<times> bool" where
  "discover_shutdown net config parse a is =
     (case udp_task net config parse a (is @ [StopSignal]) of (a1, _, n) \<Rightarrow> (a1, 0 < n))"

section \<open>The local network\<close>

text \<open>What a device receives of the datagrams sent: one copy per interface on which it joined.\<close>

definition deliver_multicast :: "(bytes \<Rightarrow> bytes \<Rightarrow> bool) \<Rightarrow> SocketAddr \<Rightarrow> bytes list \<Rightarrow> sent list \<Rightarrow> Datagram list" where
  "deliver_multicast reaches grp joined sent =
     concat (map (\<lambda>(src, target, payload).
         if target = grp
         then map (\<lambda>_. \<lparr>dg_from = show_ipv4 src, dg_payload = payload\<rparr>) (filter (reaches src) joined)
         else [])
       sent)"

text \<open>What the actions of the receive loop send.\<close>

definition action_datagrams :: "UdpNet \<Rightarrow> CoreConfig \<Rightarrow> (NodeAnnounce \<Rightarrow> string) \<Rightarrow> Action list \<Rightarrow> sent list" where
  "action_datagrams net config print acts =
     concat (map (\<lambda>act. case act of AnnounceSelf ann \<Rightarrow> announce_datagrams net config (print ann) | _ \<Rightarrow> []) acts)"

section \<open>Lemmas\<close>

lemma parse_ipv4_any: "parse_ipv4 ''0.0.0.0'' = Some [0, 0, 0, 0]"
proof -
  have dot: "CHR ''.'' # r = ''.'' @ r" for r by simp
  have z: "show_nat 0 = ''0''" by code_simp
  show ?thesis using read_ipv4_show [of "[0, 0, 0, 0]" "[]"]
    by (simp add: parse_ipv4_def show_ipv4_def join_def z)
qed

lemma all_ipv4_interfaces_not_Nil: "all_ipv4_interfaces ifs \<noteq> []"
  by (simp add: all_ipv4_interfaces_def parse_ipv4_any Let_def split: option.split)

lemma announce_datagrams_iff:
  "d \<in> set (announce_datagrams net config message) \<longleftrightarrow>
     (\<exists>g ip. parse_ipv4 (cc_multicast_addr config) = Some g \<and> ip \<in> set (all_ipv4_interfaces (un_ifs net)) \<and>
        un_bind_send net ip = Inr () \<and> d = (ip, V4 g (cc_multicast_port config), as_bytes message))"
proof -
  have "[1 ..< 3] = [1, 2 :: nat]" by (simp add: upt_conv_Cons)
  then show ?thesis
    by (auto simp: announce_datagrams_def Let_def simp del: set_upt split: option.splits sum.splits)
qed

lemma deliver_multicast_iff:
  "dg \<in> set (deliver_multicast reaches grp joined sent) \<longleftrightarrow>
     (\<exists>src payload ip. (src, grp, payload) \<in> set sent \<and> ip \<in> set joined \<and> reaches src ip \<and>
        dg = \<lparr>dg_from = show_ipv4 src, dg_payload = payload\<rparr>)"
  by (auto simp: deliver_multicast_def split: if_splits prod.splits)

lemma run_udp_Cons:
  "run_udp_actor parse a (x # dgs) =
     (case udp_step parse a x of (a1, act) \<Rightarrow> (case run_udp_actor parse a1 dgs of (a2, acts) \<Rightarrow> (a2, act # acts)))"
  by (simp add: run_udp_actor_def run_actor.simps(2))

text \<open>A device hitherto unknown is answered with an announcement.\<close>

lemma run_udp_greets:
  assumes "dg \<in> set dgs" "dg_from dg \<noteq> nd_address (da_current a)"
    "parse (from_utf8_lossy (take 2048 (dg_payload dg))) = Some ann"
    "\<not> check_device_exist (na_fingerprint ann) a" "na_fingerprint ann \<noteq> nd_fingerprint (da_current a)"
  shows "AnnounceSelf (to_announce (da_current a)) \<in> set (snd (run_udp_actor parse a dgs))"
  using assms
proof (induction dgs arbitrary: a)
  case (Cons x dgs)
  obtain a1 act where x: "udp_step parse a x = (a1, act)" by fastforce
  have cur: "da_current a1 = da_current a" using udp_step_le [of a parse x] x by (simp add: table_le_def)
  show ?case
  proof (cases "act = AnnounceSelf (to_announce (da_current a))")
    case True
    then show ?thesis by (simp add: run_udp_Cons x case_prod_beta)
  next
    case False
    have "a1 = a \<and> dg \<noteq> x"
    proof (cases "dg_from x = nd_address (da_current a)")
      case True
      then show ?thesis using x Cons.prems by (auto simp: udp_step_def get_current_device_def)
    next
      case foreign: False
      show ?thesis
      proof (cases "parse (from_utf8_lossy (take 2048 (dg_payload x)))")
        case None
        then show ?thesis using x Cons.prems foreign by (auto simp: udp_step_def get_current_device_def)
      next
        case (Some ann')
        then show ?thesis using x False udp_step_cases [of x a parse ann', OF foreign Some] Cons.prems
          by (auto simp: check_device_exist_def on_check_exist_def split: if_splits)
      qed
    qed
    then show ?thesis using Cons by (auto simp: run_udp_Cons x case_prod_beta)
  qed
qed simp

lemma udp_loop_stop: "snd (snd (udp_loop parse a (is @ [StopSignal]))) = 1"
  by (induction parse a "is" rule: udp_loop.induct) (auto split: prod.splits)

section \<open>Properties\<close>

text \<open>An announcement leaves twice from every interface of the host on which a socket can be bound, and from
  no other address; the loopback interface is left out.
\<close>

theorem announcement_sent:
  assumes "parse_ipv4 (cc_multicast_addr config) = Some g"
  shows "count_list (announce_datagrams net config message) (ip, V4 g (cc_multicast_port config), as_bytes message) =
      (if un_bind_send net ip = Inr () then 2 * count_list (all_ipv4_interfaces (un_ifs net)) ip else 0) \<and>
    set (all_ipv4_interfaces (un_ifs net)) \<subseteq>
      insert [0, 0, 0, 0] {v4. \<exists>l i. un_ifs net = Some l \<and> i \<in> set l \<and> \<not> if_loopback i \<and> if_ip i = IpV4 v4}"
proof -
  have count: "count_list (concat (map (\<lambda>i. case un_bind_send net i of Inl _ \<Rightarrow> [] | Inr _ \<Rightarrow>
            map (\<lambda>_. (i, V4 g p, m)) [1 ..< 3]) xs)) (ip, V4 g p, m) =
        (if un_bind_send net ip = Inr () then 2 * count_list xs ip else 0)" for xs p and m :: bytes
    by (induction xs) (auto simp: count_list_append upt_conv_Cons split: sum.split)
  have "set (all_ipv4_interfaces (un_ifs net)) \<subseteq>
      insert [0, 0, 0, 0] {v4. \<exists>l i. un_ifs net = Some l \<and> i \<in> set l \<and> \<not> if_loopback i \<and> if_ip i = IpV4 v4}"
    by (auto simp: all_ipv4_interfaces_def if_v4_def List.map_filter_def parse_ipv4_any Let_def
        split: option.splits if_splits IpAddr.splits)
  moreover have "announce_datagrams net config message =
      concat (map (\<lambda>i. case un_bind_send net i of Inl _ \<Rightarrow> [] | Inr _ \<Rightarrow>
        map (\<lambda>_. (i, V4 g (cc_multicast_port config), as_bytes message)) [1 ..< 3]) (all_ipv4_interfaces (un_ifs net)))"
    using assms by (simp add: announce_datagrams_def Let_def)
  ultimately show ?thesis using count by simp
qed

text \<open>Stopping discovery always returns, whether the sockets could be opened or not, and the datagrams that
  arrived before are handled.
\<close>

theorem discovery_stops:
  "snd (discover_shutdown net config parse a is)"
  using udp_loop_stop [of parse a "is"]
  by (simp add: discover_shutdown_def udp_task_def case_prod_beta split: sum.split)

text \<open>C24. Two devices on one network find each other: when one announces itself and the other does not know it
  yet, the answers the two receive loops give leave each in the table of the other.
\<close>

theorem lan_rendezvous:
  assumes grp: "parse_ipv4 (cc_multicast_addr cA) = Some g" "parse_ipv4 (cc_multicast_addr cB) = Some g"
      "cc_multicast_port cA = port" "cc_multicast_port cB = port"
    and opened: "udp_open netA cA = Inr joinedA" "udp_open netB cB = Inr joinedB"
    and out: "iA \<in> set (all_ipv4_interfaces (un_ifs netA))" "un_bind_send netA iA = Inr ()"
      "iB \<in> set (all_ipv4_interfaces (un_ifs netB))" "un_bind_send netB iB = Inr ()"
    and link: "jB \<in> set joinedB" "reaches iA jB" "jA \<in> set joinedA" "reaches iB jA"
    and foreign: "show_ipv4 iA \<noteq> nd_address (da_current b)" "show_ipv4 iB \<noteq> nd_address (da_current a)"
    and fresh: "nd_fingerprint (da_current a) \<noteq> nd_fingerprint (da_current b)"
      "\<not> check_device_exist (nd_fingerprint (da_current a)) b"
    and json: "\<And>d. d \<in> {da_current a, da_current b} \<Longrightarrow>
      parse (from_utf8_lossy (take 2048 (as_bytes (print (to_announce d))))) = Some (to_announce d)"
  shows "let heard = deliver_multicast reaches (V4 g port) joinedB (announce_datagrams netA cA (print (to_announce (da_current a))));
             (b1, acts) = run_udp_actor parse b heard;
             answers = deliver_multicast reaches (V4 g port) joinedA (action_datagrams netB cB print acts);
             a1 = fst (run_udp_actor parse a answers)
         in check_device_exist (nd_fingerprint (da_current a)) b1 \<and> check_device_exist (nd_fingerprint (da_current b)) a1"
proof -
  let ?msg = "\<lambda>d. as_bytes (print (to_announce d))"
  let ?heard = "deliver_multicast reaches (V4 g port) joinedB (announce_datagrams netA cA (print (to_announce (da_current a))))"
  let ?acts = "snd (run_udp_actor parse b ?heard)"
  let ?answers = "deliver_multicast reaches (V4 g port) joinedA (action_datagrams netB cB print ?acts)"
  have heard: "\<lparr>dg_from = show_ipv4 iA, dg_payload = ?msg (da_current a)\<rparr> \<in> set ?heard"
    using grp out link by (auto simp: deliver_multicast_iff announce_datagrams_iff)
  have fp: "na_fingerprint (to_announce d) = nd_fingerprint d" for d by (simp add: to_announce_def)
  have known: "check_device_exist (nd_fingerprint (da_current a)) (fst (run_udp_actor parse b ?heard))"
    using run_udp_known [OF heard, of b parse "to_announce (da_current a)"] foreign(1) json [of "da_current a"] by (simp add: fp)
  have "AnnounceSelf (to_announce (da_current b)) \<in> set ?acts"
    using run_udp_greets [OF heard, of b parse "to_announce (da_current a)"] foreign(1) json [of "da_current a"] fresh by (simp add: fp)
  then have "(iB, V4 g port, ?msg (da_current b)) \<in> set (action_datagrams netB cB print ?acts)"
    using grp out by (force simp: action_datagrams_def announce_datagrams_iff)
  then have answers: "\<lparr>dg_from = show_ipv4 iB, dg_payload = ?msg (da_current b)\<rparr> \<in> set ?answers"
    using link by (auto simp: deliver_multicast_iff)
  have "check_device_exist (nd_fingerprint (da_current b)) (fst (run_udp_actor parse a ?answers))"
    using run_udp_known [OF answers, of a parse "to_announce (da_current b)"] foreign(2) json [of "da_current b"] by (simp add: fp)
  then show ?thesis using known by (simp add: Let_def case_prod_beta)
qed

section \<open>Witnesses\<close>

definition sample_net :: "bytes \<Rightarrow> UdpNet" where
  "sample_net ip =
     \<lparr>un_ifs = Some [\<lparr>if_ip = IpV4 [127, 0, 0, 1], if_loopback = True\<rparr>, \<lparr>if_ip = IpV4 ip, if_loopback = False\<rparr>],
      un_create = Inr (), un_bind = (\<lambda>_. Inr ()), un_register = Inr (), un_bind_send = (\<lambda>_. Inr ()),
      un_join = (\<lambda>_ _. True)\<rparr>"

lemma parse_ipv4_group: "parse_ipv4 ''224.0.0.167'' = Some [224, 0, 0, 167]"
proof -
  have "show_nat 224 = ''224''" "show_nat 0 = ''0''" "show_nat 167 = ''167''" by code_simp+
  then show ?thesis using read_ipv4_show [of "[224, 0, 0, 167]" "[]"]
    by (simp add: parse_ipv4_def show_ipv4_def join_def)
qed

lemma sample_net_ifs: "all_ipv4_interfaces (un_ifs (sample_net ip)) = [ip]"
  by (simp add: all_ipv4_interfaces_def sample_net_def if_v4_def List.map_filter_def)

lemma sample_net_open: "udp_open (sample_net ip) default_config = Inr [ip]"
proof -
  have "un_create (sample_net ip) = Inr ()" "un_bind (sample_net ip) = (\<lambda>_. Inr ())"
    "un_register (sample_net ip) = Inr ()" "un_bind_send (sample_net ip) = (\<lambda>_. Inr ())"
    "un_join (sample_net ip) = (\<lambda>_ _. True)"
    by (simp_all add: sample_net_def)
  then show ?thesis
    by (simp add: udp_open_def sample_net_ifs default_config_def parse_ipv4_group parse_ipv4_any)
qed

lemma announcement_sent_witness:
  "count_list (announce_datagrams (sample_net [10, 0, 0, 2]) default_config ''x'')
     ([10, 0, 0, 2], V4 [224, 0, 0, 167] 53317, as_bytes ''x'') = 2"
  using announcement_sent [of default_config "[224, 0, 0, 167]" "sample_net [10, 0, 0, 2]" "''x''" "[10, 0, 0, 2]"]
  unfolding sample_net_ifs by (simp add: default_config_def parse_ipv4_group) (simp add: sample_net_def)

definition lan_print :: "NodeAnnounce \<Rightarrow> string" where
  "lan_print ann = (if ann = to_announce sample_device then ''1'' else ''2'')"

definition lan_parse :: "string \<Rightarrow> NodeAnnounce option" where
  "lan_parse s =
     Some (if s = ''1'' then to_announce sample_device else to_announce (sample_device\<lparr>nd_fingerprint := ''f2''\<rparr>))"

lemma lan_rendezvous_witness:
  "let other = sample_device\<lparr>nd_fingerprint := ''f2''\<rparr>;
       heard = deliver_multicast (\<lambda>_ _. True) (V4 [224, 0, 0, 167] 53317) [[10, 0, 0, 4]]
         (announce_datagrams (sample_net [10, 0, 0, 3]) default_config (lan_print (to_announce sample_device)))
   in check_device_exist ''f1'' (fst (run_udp_actor lan_parse (new_device_actor other) heard))"
proof -
  let ?other = "sample_device\<lparr>nd_fingerprint := ''f2''\<rparr>"
  let ?A = "new_device_actor sample_device" and ?B = "new_device_actor ?other"
  have cur: "da_current ?A = sample_device" "da_current ?B = ?other" by (simp_all add: new_device_actor_def)
  have ip: "show_ipv4 [10, 0, 0, 3] = ''10.0.0.3''" "show_ipv4 [10, 0, 0, 4] = ''10.0.0.4''" by code_simp+
  have fresh: "\<not> check_device_exist (nd_fingerprint sample_device) ?B"
    by (simp add: new_device_actor_def check_device_exist_def on_check_exist_def sample_device_def)
  have ne: "to_announce ?other \<noteq> to_announce sample_device" by (simp add: to_announce_def sample_device_def)
  have lossy: "from_utf8_lossy (as_bytes ''1'') = ''1''" "from_utf8_lossy (as_bytes ''2'') = ''2''" by code_simp+
  have json: "lan_parse (from_utf8_lossy (take 2048 (as_bytes (lan_print (to_announce d))))) = Some (to_announce d)"
    if "d \<in> {sample_device, ?other}" for d
    using that ne lossy by (auto simp: lan_print_def lan_parse_def)
  note run = lan_rendezvous [where cA = default_config and cB = default_config and g = "[224, 0, 0, 167]" and port = 53317
      and netA = "sample_net [10, 0, 0, 3]" and netB = "sample_net [10, 0, 0, 4]" and a = ?A and b = ?B
      and joinedA = "[[10, 0, 0, 3]]" and joinedB = "[[10, 0, 0, 4]]" and iA = "[10, 0, 0, 3]" and iB = "[10, 0, 0, 4]"
      and jA = "[10, 0, 0, 3]" and jB = "[10, 0, 0, 4]" and reaches = "\<lambda>_ _. True" and parse = lan_parse
      and print = lan_print]
  show ?thesis
    using run fresh json unfolding cur sample_net_ifs sample_net_open ip
    by (simp add: default_config_def parse_ipv4_group sample_device_def sample_net_def Let_def case_prod_beta)
qed

end
