(* ===== verification/Server_Life.thy ===== *)
theory Server_Life
  imports Discovery_Net Server_Props Client
begin

text \<open>
  The life of the HTTP server, \<open>src/rust/core/src/server.rs\<close>: the task \<open>run_http_actor\<close> and its handle, the accept
  loop that serves TLS and plain HTTP on one port, the routing table, and how a shutdown waits for the
  requests in flight, which themselves ask the core actor for the configuration.

  \<^item> The task is the list of what it does in order (\<open>HttpAct\<close>).
  \<^item> Accepting is sequential: the loop peeks at the first byte of a connection, and makes the TLS handshake,
    before it accepts the next one.  A client that has not sent a byte yet is \<open>PeekNothing\<close>.
  \<^item> axum serves until the shutdown signal has come and every connection has ended.
\<close>

section \<open>The server task and its handle\<close>

record HttpEnv =
  he_free :: "u16 \<Rightarrow> bool"
  he_discovery :: bool
  he_tls :: "(string + unit) option"

datatype HttpAct = DiscoverStarted | BoundSent "string + u16" | Serve u16 bool | DiscoverStopped | ShutdownSent

definition run_http_actor :: "HttpEnv \<Rightarrow> u16 \<Rightarrow> HttpAct list" where
  "run_http_actor env base_port =
     (let begins = (if he_discovery env then [DiscoverStarted] else []);
          ends = (if he_discovery env then [DiscoverStopped] else []) @ [ShutdownSent] in
      begins @
      (case bind_port (he_free env) base_port of
         Inl msg \<Rightarrow> [BoundSent (Inl msg)] @ ends
       | Inr bound_port \<Rightarrow>
           [BoundSent (Inr bound_port)] @
           (case he_tls env of
              Some (Inl _) \<Rightarrow> ends
            | tls \<Rightarrow> [Serve bound_port (tls \<noteq> None)] @ ends)))"

text \<open>\<open>wait_bound\<close> on the handle (\<open>True\<close>: the receiver is still there) and what the task has done.\<close>

definition wait_bound :: "bool \<Rightarrow> HttpAct list \<Rightarrow> bool \<times> (string + u16)" where
  "wait_bound bound acts =
     (if \<not> bound then (False, Inl ''bind result already consumed'')
      else
        (False,
         case List.map_filter (\<lambda>a. case a of BoundSent r \<Rightarrow> Some r | _ \<Rightarrow> None) acts of
           r # _ \<Rightarrow> r
         | [] \<Rightarrow> Inl ''http actor died before binding''))"

section \<open>Accepting connections\<close>

datatype Peeked = PeekByte u8 | PeekEnd | PeekError | PeekNothing
datatype Handshaken = HandshakeDone | HandshakeFailed | HandshakePending

record Connection =
  in_addr :: SocketAddr
  in_first :: Peeked
  in_handshake :: Handshaken

datatype Arrival = AcceptError string | Arrived Connection

text \<open>One call of \<open>accept\<close>: the connection served next and the arrivals left, or \<open>None\<close> while it waits.\<close>

fun dual_accept :: "bool \<Rightarrow> Arrival list \<Rightarrow> ((Conn \<times> SocketAddr) \<times> Arrival list) option" where
  "dual_accept acceptor [] = None"
| "dual_accept acceptor (AcceptError e # as) = dual_accept acceptor as"
| "dual_accept acceptor (Arrived c # as) =
     (if in_first c = PeekNothing then None
      else if in_first c = PeekByte 0x16 \<and> acceptor then
        (case in_handshake c of
           HandshakeDone \<Rightarrow> Some ((Tls, in_addr c), as)
         | HandshakeFailed \<Rightarrow> dual_accept acceptor as
         | HandshakePending \<Rightarrow> None)
      else Some ((Plain, in_addr c), as))"

lemma dual_accept_length: "dual_accept acceptor as = Some (r, rest) \<Longrightarrow> length rest < length as"
  by (induction acceptor as rule: dual_accept.induct) (auto split: if_splits Handshaken.splits)

function accept_connections :: "bool \<Rightarrow> Arrival list \<Rightarrow> (Conn \<times> SocketAddr) list" where
  "accept_connections acceptor as =
     (case dual_accept acceptor as of None \<Rightarrow> [] | Some (r, rest) \<Rightarrow> r # accept_connections acceptor rest)"
  by pat_completeness auto
termination
  by (relation "measure (length \<circ> snd)") (auto dest: dual_accept_length)

declare accept_connections.simps [simp del]

section \<open>Routes\<close>

datatype Handler = HInfo | HRegister | HHolePunch | HPrepareUpload | HUpload | HCancel | HDevices
datatype Routed = Handled Handler | MethodNotAllowed | NotFound

definition v1_routes :: "(string \<times> string \<times> Handler) list" where
  "v1_routes = [(''/info'', ''GET'', HInfo)]"

definition v2_routes :: "(string \<times> string \<times> Handler) list" where
  "v2_routes =
     [(''/info'', ''GET'', HInfo), (''/register'', ''POST'', HRegister), (''/hole-punch'', ''POST'', HHolePunch),
      (''/prepare-upload'', ''POST'', HPrepareUpload), (''/upload'', ''POST'', HUpload),
      (''/cancel'', ''POST'', HCancel), (''/devices'', ''GET'', HDevices)]"

definition nest :: "string \<Rightarrow> (string \<times> string \<times> Handler) list \<Rightarrow> (string \<times> string \<times> Handler) list" where
  "nest prefix routes = map (\<lambda>(path, r). (prefix @ path, r)) routes"

definition app :: "(string \<times> string \<times> Handler) list" where
  "app = nest ''/api/localsend/v1'' v1_routes @ nest ''/api/localsend/v2'' v2_routes"

text \<open>A GET route also answers HEAD.\<close>

definition route :: "string \<Rightarrow> string \<Rightarrow> Routed" where
  "route m path =
     (case map_of app path of
        None \<Rightarrow> NotFound
      | Some (m', h) \<Rightarrow> if m = m' \<or> (m = ''HEAD'' \<and> m' = ''GET'') then Handled h else MethodNotAllowed)"

text \<open>The path of a URL, and the query parameters the handlers read.\<close>

fun url_path :: "string \<Rightarrow> string" where
  "url_path [] = []"
| "url_path (c # s) =
     (if starts_with (c # s) ''://'' then dropWhile (\<lambda>c. c \<noteq> CHR ''/'') (drop 2 s) else url_path s)"

definition upload_query :: "(string \<times> string) list \<Rightarrow> UploadTask option" where
  "upload_query q =
     (case (map_of q ''sessionId'', map_of q ''fileId'', map_of q ''token'') of
        (Some i, Some f, Some t) \<Rightarrow> Some \<lparr>ut_session_id = i, ut_file_id = f, ut_token = t\<rparr>
      | _ \<Rightarrow> None)"

definition cancel_query :: "(string \<times> string) list \<Rightarrow> string option" where
  "cancel_query q =
     (case (map_of q ''id'', map_of q ''sessionId'') of
        (Some i, None) \<Rightarrow> Some i
      | (None, Some i) \<Rightarrow> Some i
      | _ \<Rightarrow> None)"

section \<open>Shutting down with requests in flight\<close>

text \<open>
  An upload first asks the core actor for the store path (\<open>Asking\<close>, then \<open>Asked\<close>), then streams its body.  The
  actor handles its messages in order; in a shutdown it waits until the server has ended.
\<close>

datatype UploadPhase = Asking | Asked | Streaming | Ended

datatype ActorMsg = AskConfig nat | AskShutdown

record Life =
  li_queue :: "ActorMsg list"
  li_actor_waits :: bool
  li_requests :: "UploadPhase list"
  li_stopping :: bool
  li_ended :: bool

definition new_life :: Life where
  "new_life = \<lparr>li_queue = [], li_actor_waits = False, li_requests = [], li_stopping = False, li_ended = False\<rparr>"

datatype LifeEvent = UploadArrives | UploadAsks nat | UploadEnds nat | CallShutdown | ActorHandles | ServerEnds | ActorResumes

fun life_event :: "Life \<Rightarrow> LifeEvent \<Rightarrow> Life \<times> unit" where
  "life_event s UploadArrives =
     (if li_stopping s then s else s\<lparr>li_requests := li_requests s @ [Asking]\<rparr>, ())"
| "life_event s (UploadAsks i) =
     (if i < length (li_requests s) \<and> li_requests s ! i = Asking
      then s\<lparr>li_requests := (li_requests s)[i := Asked], li_queue := li_queue s @ [AskConfig i]\<rparr> else s, ())"
| "life_event s (UploadEnds i) =
     (if i < length (li_requests s) \<and> li_requests s ! i = Streaming
      then s\<lparr>li_requests := (li_requests s)[i := Ended]\<rparr> else s, ())"
| "life_event s CallShutdown = (s\<lparr>li_queue := li_queue s @ [AskShutdown]\<rparr>, ())"
| "life_event s ActorHandles =
     (if li_actor_waits s then s
      else case li_queue s of
             [] \<Rightarrow> s
           | AskConfig i # q \<Rightarrow> s\<lparr>li_queue := q, li_requests := (li_requests s)[i := Streaming]\<rparr>
           | AskShutdown # q \<Rightarrow> s\<lparr>li_queue := q, li_actor_waits := \<not> li_ended s, li_stopping := True\<rparr>, ())"
| "life_event s ServerEnds =
     (if li_stopping s \<and> list_all (\<lambda>p. p = Ended) (li_requests s) then s\<lparr>li_ended := True\<rparr> else s, ())"
| "life_event s ActorResumes = (if li_ended s then s\<lparr>li_actor_waits := False\<rparr> else s, ())"

section \<open>Lemmas\<close>

lemma accept_connections_Nil [simp]: "accept_connections acceptor [] = []"
  by (simp add: accept_connections.simps)

lemma accept_connections_error [simp]: "accept_connections acceptor (AcceptError e # as) = accept_connections acceptor as"
  by (subst (1 2) accept_connections.simps) simp

text \<open>What the loop does with a connection: serve it, drop it, or wait for it for ever.\<close>

definition stalls :: "bool \<Rightarrow> Connection \<Rightarrow> bool" where
  "stalls acceptor c \<longleftrightarrow>
     in_first c = PeekNothing \<or> (in_first c = PeekByte 0x16 \<and> acceptor \<and> in_handshake c = HandshakePending)"

definition first_byte :: "Peeked \<Rightarrow> u8 option" where
  "first_byte p = (case p of PeekByte b \<Rightarrow> Some b | _ \<Rightarrow> None)"

lemma accept_connections_stalled: "stalls acceptor c \<Longrightarrow> accept_connections acceptor (Arrived c # as) = []"
  by (subst accept_connections.simps) (auto simp: stalls_def)

lemma accept_connections_served:
  assumes "\<not> stalls acceptor c"
  shows "accept_connections acceptor (Arrived c # as) =
     (case accept_conn (first_byte (in_first c)) acceptor (in_handshake c = HandshakeDone) of
        None \<Rightarrow> accept_connections acceptor as
      | Some k \<Rightarrow> (k, in_addr c) # accept_connections acceptor as)"
  using assms
  by (subst (1 2) accept_connections.simps)
    (auto simp: stalls_def accept_conn_def first_byte_def split: Peeked.splits Handshaken.splits
      intro: accept_connections.simps [THEN trans, symmetric])

lemma url_path_after: "CHR '':'' \<notin> set a \<Longrightarrow> url_path (a @ ''://'' @ s) = dropWhile (\<lambda>c. c \<noteq> CHR ''/'') s"
  by (induction a) (auto simp: starts_with_def)

lemma dropWhile_slash: "CHR ''/'' \<notin> set a \<Longrightarrow> dropWhile (\<lambda>c. c \<noteq> CHR ''/'') (a @ CHR ''/'' # s) = CHR ''/'' # s"
  by (induction a) auto

lemma url_path_base:
  assumes "nd_protocol d \<in> {''http'', ''https''}" "CHR ''/'' \<notin> set (nd_address d)"
  shows "url_path (base_url d @ CHR ''/'' # s) = CHR ''/'' # s"
proof -
  have "CHR ''/'' \<notin> set (show_nat n)" for n
  proof -
    have "\<not> is_digit (CHR ''/'')" by (simp add: is_digit_def)
    then show ?thesis using show_nat_digits [of n] by (auto simp: list_all_iff)
  qed
  then have "CHR ''/'' \<notin> set (nd_address d @ '':'' @ show_nat (unat (nd_port d)))" using assms(2) by simp
  note path = dropWhile_slash [OF this, of s]
  have "CHR '':'' \<notin> set (nd_protocol d)" using assms(1) by auto
  from url_path_after [OF this, of "nd_address d @ '':'' @ show_nat (unat (nd_port d)) @ CHR ''/'' # s"] path
  show ?thesis by (simp add: base_url_def)
qed

section \<open>The invariant of a shutdown\<close>

text \<open>The server ends only once every request has, and takes none afterwards.\<close>

definition life_ok :: "Life \<Rightarrow> bool" where
  "life_ok s \<longleftrightarrow> (li_ended s \<longrightarrow> list_all (\<lambda>p. p = Ended) (li_requests s)) \<and> (li_ended s \<or> li_actor_waits s \<longrightarrow> li_stopping s) \<and>
     distinct (filter (\<lambda>m. m \<noteq> AskShutdown) (li_queue s)) \<and>
     (\<forall>i. AskConfig i \<in> set (li_queue s) \<longrightarrow> i < length (li_requests s) \<and> li_requests s ! i = Asked)"

definition before_config :: "Life \<Rightarrow> nat \<Rightarrow> bool" where
  "before_config s i \<longleftrightarrow> i < length (li_requests s) \<and> li_requests s ! i \<in> {Asking, Asked}"

lemma life_ok_new: "life_ok new_life"
  by (simp add: life_ok_def new_life_def)

lemma life_ok_event: "life_ok s \<Longrightarrow> life_ok (fst (life_event s e))"
proof (cases e)
  case ActorHandles
  assume "life_ok s"
  then show ?thesis using ActorHandles
    by (cases "li_queue s"; cases "hd (li_queue s)")
      (auto simp: life_ok_def nth_list_update list_all_length split: if_splits)
qed (auto simp: life_ok_def nth_list_update nth_append less_Suc_eq list_all_length split: if_splits)

interpretation life: actor_invariant life_event life_ok
  by unfold_locales (rule life_ok_event)

definition stuck :: "nat \<Rightarrow> Life \<Rightarrow> bool" where
  "stuck i s \<longleftrightarrow> life_ok s \<and> li_actor_waits s \<and> before_config s i"

lemma stuck_event: "stuck i s \<Longrightarrow> stuck i (fst (life_event s e))"
proof -
  assume s: "stuck i s"
  then have ne: "\<not> list_all (\<lambda>p. p = Ended) (li_requests s)" "\<not> li_ended s" "li_stopping s"
    by (auto simp: stuck_def before_config_def life_ok_def list_all_length)
  have "life_ok (fst (life_event s e))" using s by (simp add: stuck_def life_ok_event)
  then show ?thesis using s ne by (cases e) (auto simp: stuck_def before_config_def nth_list_update)
qed

interpretation deadlock: actor_invariant life_event "stuck i" for i
  by unfold_locales (rule stuck_event)

lemma uploads_end:
  assumes "list_all (\<lambda>p. p \<in> {Streaming, Ended}) (li_requests s)" "k \<le> length (li_requests s)"
  shows "\<exists>rs. fst (run_actor life_event s (map UploadEnds [0 ..< k])) = s\<lparr>li_requests := rs\<rparr> \<and>
    length rs = length (li_requests s) \<and> list_all (\<lambda>p. p \<in> {Streaming, Ended}) rs \<and> (\<forall>j < k. rs ! j = Ended)"
  using assms(2)
proof (induction k)
  case 0
  then show ?case using assms(1) by (intro exI [of _ "li_requests s"]) simp
next
  case (Suc k)
  then obtain rs where rs: "fst (run_actor life_event s (map UploadEnds [0 ..< k])) = s\<lparr>li_requests := rs\<rparr>"
    "length rs = length (li_requests s)" "list_all (\<lambda>p. p \<in> {Streaming, Ended}) rs" "\<forall>j < k. rs ! j = Ended" by auto
  have "rs ! k \<in> {Streaming, Ended}" using rs(2,3) Suc.prems by (auto simp: list_all_length)
  moreover have "rs[k := Ended] = rs" if "\<forall>j < length rs. rs ! j = Streaming \<or> rs ! j = Ended" "rs ! k \<noteq> Streaming"
    using that Suc.prems rs(2) by (metis Suc_le_eq list_update_id)
  ultimately show ?case using rs Suc.prems
    by (intro exI [of _ "rs[k := Ended]"])
      (auto simp: fst_run_actor_append list_all_length nth_list_update less_Suc_eq)
qed

section \<open>Properties\<close>

text \<open>The server task reports the result of binding exactly once, ends discovery exactly if it began it, and
  signals its end as its last act; but it reports a bound port also when the TLS configuration then fails
  and nothing is served.
\<close>

theorem server_task_reports:
  "let acts = run_http_actor env p in
     wait_bound True acts = (False, bind_port (he_free env) p) \<and>
     last acts = ShutdownSent \<and> count_list acts ShutdownSent = 1 \<and>
     count_list acts DiscoverStarted = count_list acts DiscoverStopped \<and>
     ((\<exists>port tls. Serve port tls \<in> set acts) =
        ((\<exists>port. bind_port (he_free env) p = Inr port) \<and> (\<forall>e. he_tls env \<noteq> Some (Inl e))))"
  by (cases "bind_port (he_free env) p"; cases "he_tls env"; cases "the (he_tls env)")
    (simp_all add: run_http_actor_def wait_bound_def Let_def List.map_filter_def ex_bool_eq)

text \<open>C18. Every connection is served in the order of its arrival, as TLS exactly if it begins with a TLS record and
  an identity is configured, and dropped if its handshake fails, until a client keeps silent: after that
  no connection is served any more, whatever arrives.
\<close>

definition served_as :: "bool \<Rightarrow> Arrival \<Rightarrow> (Conn \<times> SocketAddr) option" where
  "served_as acceptor a =
     (case a of
        AcceptError _ \<Rightarrow> None
      | Arrived c \<Rightarrow>
          map_option (\<lambda>k. (k, in_addr c)) (accept_conn (first_byte (in_first c)) acceptor (in_handshake c = HandshakeDone)))"

theorem accepts_until_silent:
  assumes "list_all (\<lambda>a. case a of Arrived c \<Rightarrow> \<not> stalls acceptor c | _ \<Rightarrow> True) pre"
    and "stalls acceptor c"
  shows "accept_connections acceptor pre = List.map_filter (served_as acceptor) pre \<and>
    accept_connections acceptor (pre @ Arrived c # post) = List.map_filter (served_as acceptor) pre"
  using assms
proof (induction pre)
  case (Cons a pre)
  then show ?case
    by (cases a) (auto simp: List.map_filter_def served_as_def accept_connections_served split: option.splits)
qed (simp add: accept_connections_stalled List.map_filter_def)



section \<open>Witnesses\<close>

lemma accepts_until_silent_witness:
  "accept_connections True [Arrived \<lparr>in_addr = V4 [10, 0, 0, 2] 1, in_first = PeekByte 0x16, in_handshake = HandshakeDone\<rparr>,
     Arrived \<lparr>in_addr = V4 [10, 0, 0, 3] 2, in_first = PeekNothing, in_handshake = HandshakePending\<rparr>,
     Arrived \<lparr>in_addr = V4 [10, 0, 0, 4] 3, in_first = PeekByte 0x50, in_handshake = HandshakePending\<rparr>] =
   [(Tls, V4 [10, 0, 0, 2] 1)]"
  using accepts_until_silent [of True
      "[Arrived \<lparr>in_addr = V4 [10, 0, 0, 2] 1, in_first = PeekByte 0x16, in_handshake = HandshakeDone\<rparr>]"
      "\<lparr>in_addr = V4 [10, 0, 0, 3] 2, in_first = PeekNothing, in_handshake = HandshakePending\<rparr>"]
  by (simp add: stalls_def List.map_filter_def served_as_def accept_conn_def first_byte_def)



end
