(* ===== verification/Local_Bridge.thy ===== *)
theory Local_Bridge
  imports Prelude
begin

text \<open>
  The loopback bridges, \<open>src/rust/core/src/relay/bridge.rs\<close>: a local TCP port whose connections are carried over a
  TURN tunnel, a TLS session or a QUIC connection, and the HTTP client in front of it.

  \<^item> A stream is the chunks still to be read and the bytes written; \<open>RemoteStream\<close> and \<open>RelayQuicIo\<close> are the adapters
    of the file.  \<open>copy_bidirectional\<close> pumps both directions; a schedule (\<open>True\<close>: from the local side) says which
    direction makes progress next.
  \<^item> \<open>spawn_bridge\<close> and \<open>spawn_tls_bridge\<close> accept one connection; \<open>spawn_quic_bridge\<close> opens a stream for each.
  \<^item> The HTTP client keeps a connection for the next request if the request was completed and the connection
    is kept alive; an aborted request closes it.
\<close>

section \<open>Streams\<close>

record Io =
  io_in :: "bytes list"
  io_out :: bytes
  io_shut :: bool

definition io_read :: "Io \<Rightarrow> Io \<times> bytes option" where
  "io_read s = (case io_in s of [] \<Rightarrow> (s, None) | c # cs \<Rightarrow> (s\<lparr>io_in := cs\<rparr>, Some c))"

definition io_write :: "bytes \<Rightarrow> Io \<Rightarrow> Io" where
  "io_write b s = s\<lparr>io_out := io_out s @ b\<rparr>"

definition io_shutdown :: "Io \<Rightarrow> Io" where
  "io_shutdown s = s\<lparr>io_shut := True\<rparr>"

datatype RemoteStream = RsTcp Io | RsRelay Io

fun remote_read :: "RemoteStream \<Rightarrow> RemoteStream \<times> bytes option" where
  "remote_read (RsTcp s) = map_prod RsTcp id (io_read s)"
| "remote_read (RsRelay s) = map_prod RsRelay id (io_read s)"

fun remote_write :: "bytes \<Rightarrow> RemoteStream \<Rightarrow> RemoteStream" where
  "remote_write b (RsTcp s) = RsTcp (io_write b s)"
| "remote_write b (RsRelay s) = RsRelay (io_write b s)"

fun remote_shutdown :: "RemoteStream \<Rightarrow> RemoteStream" where
  "remote_shutdown (RsTcp s) = RsTcp (io_shutdown s)"
| "remote_shutdown (RsRelay s) = RsRelay (io_shutdown s)"

record RelayQuicIo =
  qi_send :: Io
  qi_recv :: Io

definition quic_read :: "RelayQuicIo \<Rightarrow> RelayQuicIo \<times> bytes option" where
  "quic_read s = (case io_read (qi_recv s) of (r, c) \<Rightarrow> (s\<lparr>qi_recv := r\<rparr>, c))"

definition quic_write :: "bytes \<Rightarrow> RelayQuicIo \<Rightarrow> RelayQuicIo" where
  "quic_write b s = s\<lparr>qi_send := io_write b (qi_send s)\<rparr>"

definition quic_shutdown :: "RelayQuicIo \<Rightarrow> RelayQuicIo" where
  "quic_shutdown s = s\<lparr>qi_send := io_shutdown (qi_send s)\<rparr>"

section \<open>Copying in both directions\<close>

record 'b Copying =
  cp_local :: Io
  cp_remote :: 'b
  cp_sent :: nat
  cp_received :: nat
  cp_sent_end :: bool
  cp_received_end :: bool

definition copy_start :: "Io \<Rightarrow> 'b \<Rightarrow> 'b Copying" where
  "copy_start a b =
     \<lparr>cp_local = a, cp_remote = b, cp_sent = 0, cp_received = 0, cp_sent_end = False, cp_received_end = False\<rparr>"

text \<open>One step: a chunk is read from one side and written to the other, or the end is passed on.\<close>

definition copy_step ::
  "('b \<Rightarrow> 'b \<times> bytes option) \<Rightarrow> (bytes \<Rightarrow> 'b \<Rightarrow> 'b) \<Rightarrow> ('b \<Rightarrow> 'b) \<Rightarrow> 'b Copying \<Rightarrow> bool \<Rightarrow> 'b Copying \<times> unit" where
  "copy_step rd wr sh s outward =
     (if outward then
        (if cp_sent_end s then s
         else case io_read (cp_local s) of
           (a, Some c) \<Rightarrow> s\<lparr>cp_local := a, cp_remote := wr c (cp_remote s), cp_sent := cp_sent s + length c\<rparr>
         | (a, None) \<Rightarrow> s\<lparr>cp_local := a, cp_remote := sh (cp_remote s), cp_sent_end := True\<rparr>)
      else
        (if cp_received_end s then s
         else case rd (cp_remote s) of
           (b, Some c) \<Rightarrow> s\<lparr>cp_remote := b, cp_local := io_write c (cp_local s), cp_received := cp_received s + length c\<rparr>
         | (b, None) \<Rightarrow> s\<lparr>cp_remote := b, cp_local := io_shutdown (cp_local s), cp_received_end := True\<rparr>), ())"

text \<open>\<open>copy_bidirectional\<close>: the two ends afterwards and the bytes sent and received, once both directions have ended.\<close>

definition copy_bidirectional ::
  "('b \<Rightarrow> 'b \<times> bytes option) \<Rightarrow> (bytes \<Rightarrow> 'b \<Rightarrow> 'b) \<Rightarrow> ('b \<Rightarrow> 'b) \<Rightarrow> bool list \<Rightarrow> Io \<Rightarrow> 'b \<Rightarrow> (Io \<times> 'b \<times> nat \<times> nat) option" where
  "copy_bidirectional rd wr sh schedule a b =
     (let s = fst (run_actor (copy_step rd wr sh) (copy_start a b) schedule) in
      if cp_sent_end s \<and> cp_received_end s then Some (cp_local s, cp_remote s, cp_sent s, cp_received s) else None)"

text \<open>What the copy relies on of the remote end, and what it gives.\<close>

locale byte_stream =
  fixes rd :: "'b \<Rightarrow> 'b \<times> bytes option"
    and wr :: "bytes \<Rightarrow> 'b \<Rightarrow> 'b"
    and sh :: "'b \<Rightarrow> 'b"
    and left :: "'b \<Rightarrow> bytes list"
    and written :: "'b \<Rightarrow> bytes"
    and closed :: "'b \<Rightarrow> bool"
  assumes rd_chunk: "left b = c # cs \<Longrightarrow> snd (rd b) = Some c \<and> left (fst (rd b)) = cs \<and>
      written (fst (rd b)) = written b \<and> closed (fst (rd b)) = closed b"
    and rd_end: "left b = [] \<Longrightarrow> rd b = (b, None)"
    and wr_out: "left (wr x b) = left b \<and> written (wr x b) = written b @ x \<and> closed (wr x b) = closed b"
    and sh_out: "left (sh b) = left b \<and> written (sh b) = written b \<and> closed (sh b)"
begin

text \<open>What is on its way is what was there at the start; \<open>m\<close> and \<open>n\<close> count the steps still to come.\<close>

definition underway :: "Io \<Rightarrow> 'b \<Rightarrow> nat \<Rightarrow> nat \<Rightarrow> 'b Copying \<Rightarrow> bool" where
  "underway a b m n s \<longleftrightarrow>
     written (cp_remote s) @ concat (io_in (cp_local s)) = written b @ concat (io_in a) \<and>
     io_out (cp_local s) @ concat (left (cp_remote s)) = io_out a @ concat (left b) \<and>
     cp_sent s + length (concat (io_in (cp_local s))) = length (concat (io_in a)) \<and>
     cp_received s + length (concat (left (cp_remote s))) = length (concat (left b)) \<and>
     (cp_sent_end s \<longrightarrow> io_in (cp_local s) = [] \<and> closed (cp_remote s)) \<and>
     (cp_received_end s \<longrightarrow> left (cp_remote s) = [] \<and> io_shut (cp_local s)) \<and>
     (cp_sent_end s \<or> Suc (length (io_in (cp_local s))) \<le> m) \<and>
     (cp_received_end s \<or> Suc (length (left (cp_remote s))) \<le> n)"

lemma underway_start: "underway a b (Suc (length (io_in a))) (Suc (length (left b))) (copy_start a b)"
  by (simp add: underway_def copy_start_def)

lemma underway_out:
  assumes "underway a b m n s"
  shows "underway a b (m - 1) n (fst (copy_step rd wr sh s True))"
proof (cases "cp_sent_end s")
  case True
  then show ?thesis using assms by (auto simp: underway_def copy_step_def)
next
  case False
  then show ?thesis
    using assms wr_out [of _ "cp_remote s"] sh_out [of "cp_remote s"]
    by (cases "io_in (cp_local s)") (auto simp: underway_def copy_step_def io_read_def)
qed

lemma underway_in:
  assumes "underway a b m n s"
  shows "underway a b m (n - 1) (fst (copy_step rd wr sh s False))"
proof (cases "cp_received_end s")
  case True
  then show ?thesis using assms by (auto simp: underway_def copy_step_def)
next
  case False
  show ?thesis
  proof (cases "left (cp_remote s)")
    case Nil
    then show ?thesis using assms False rd_end [OF Nil]
      by (auto simp: underway_def copy_step_def io_shutdown_def)
  next
    case (Cons c cs)
    obtain b' where "rd (cp_remote s) = (b', Some c)" "left b' = cs" "written b' = written (cp_remote s)"
      "closed b' = closed (cp_remote s)" using rd_chunk [OF Cons] by (metis prod.collapse)
    then show ?thesis using assms False Cons by (auto simp: underway_def copy_step_def io_write_def)
  qed
qed

lemma underway_run:
  "underway a b m n s \<Longrightarrow>
   underway a b (m - length (filter id schedule)) (n - length (filter Not schedule))
     (fst (run_actor (copy_step rd wr sh) s schedule))"
proof (induction schedule arbitrary: s m n)
  case (Cons outward schedule)
  show ?case
    using Cons.IH [of "m - 1" n "fst (copy_step rd wr sh s True)"] underway_out [OF Cons.prems]
      Cons.IH [of m "n - 1" "fst (copy_step rd wr sh s False)"] underway_in [OF Cons.prems]
    by (cases outward) simp_all
qed simp

lemma copies:
  assumes "length (io_in a) < length (filter id schedule)" "length (left b) < length (filter Not schedule)"
  obtains a' b' where
    "copy_bidirectional rd wr sh schedule a b = Some (a', b', length (concat (io_in a)), length (concat (left b)))"
    "written b' = written b @ concat (io_in a)" "io_out a' = io_out a @ concat (left b)" "closed b'" "io_shut a'"
proof -
  let ?s = "fst (run_actor (copy_step rd wr sh) (copy_start a b) schedule)"
  have u: "underway a b (Suc (length (io_in a)) - length (filter id schedule))
      (Suc (length (left b)) - length (filter Not schedule)) ?s"
    by (rule underway_run [OF underway_start])
  then have "cp_sent_end ?s" "cp_received_end ?s" using assms by (auto simp: underway_def)
  then show thesis using u
    by (intro that [of "cp_local ?s" "cp_remote ?s"]) (auto simp: copy_bidirectional_def Let_def underway_def)
qed

end

fun rs_io :: "RemoteStream \<Rightarrow> Io" where
  "rs_io (RsTcp s) = s"
| "rs_io (RsRelay s) = s"

interpretation plain: byte_stream io_read io_write io_shutdown io_in io_out io_shut
  by unfold_locales (auto simp: io_read_def io_write_def io_shutdown_def)

interpretation remote: byte_stream remote_read remote_write remote_shutdown "io_in \<circ> rs_io" "io_out \<circ> rs_io" "io_shut \<circ> rs_io"
proof unfold_locales
  fix b :: RemoteStream and c cs x
  show "(io_in \<circ> rs_io) b = c # cs \<Longrightarrow> snd (remote_read b) = Some c \<and> (io_in \<circ> rs_io) (fst (remote_read b)) = cs \<and>
      (io_out \<circ> rs_io) (fst (remote_read b)) = (io_out \<circ> rs_io) b \<and> (io_shut \<circ> rs_io) (fst (remote_read b)) = (io_shut \<circ> rs_io) b"
    by (cases b) (auto simp: io_read_def)
  show "(io_in \<circ> rs_io) b = [] \<Longrightarrow> remote_read b = (b, None)" by (cases b) (auto simp: io_read_def)
  show "(io_in \<circ> rs_io) (remote_write x b) = (io_in \<circ> rs_io) b \<and> (io_out \<circ> rs_io) (remote_write x b) = (io_out \<circ> rs_io) b @ x \<and>
      (io_shut \<circ> rs_io) (remote_write x b) = (io_shut \<circ> rs_io) b"
    by (cases b) (auto simp: io_write_def)
  show "(io_in \<circ> rs_io) (remote_shutdown b) = (io_in \<circ> rs_io) b \<and> (io_out \<circ> rs_io) (remote_shutdown b) = (io_out \<circ> rs_io) b \<and>
      (io_shut \<circ> rs_io) (remote_shutdown b)"
    by (cases b) (auto simp: io_shutdown_def)
qed

interpretation quic: byte_stream quic_read quic_write quic_shutdown "io_in \<circ> qi_recv" "io_out \<circ> qi_send" "io_shut \<circ> qi_send"
  by unfold_locales (auto simp: quic_read_def quic_write_def quic_shutdown_def io_read_def io_write_def io_shutdown_def
      split: list.splits prod.splits)

section \<open>Accepting\<close>

datatype BridgeState = Listening | Tunnelling | Gone

text \<open>What becomes of a local connection: carried, closed because the far side could not be reached, or never
  accepted.\<close>

datatype Fate = Piped | Closed string | Unserved

text \<open>The far side of \<open>spawn_bridge\<close>: the dial through the relay.\<close>

definition turn_far_side :: "string + unit \<Rightarrow> Fate" where
  "turn_far_side dialed =
     (case dialed of Inr _ \<Rightarrow> Piped | Inl e \<Rightarrow> Closed (''relay bridge dial failed: '' @ e))"

text \<open>
  The far side of \<open>spawn_tls_bridge\<close>: the dial through the relay or directly, the latter within three seconds, then
  the TLS handshake.  A direct dial is the time in milliseconds at which it ends (\<open>None\<close>: never) and its outcome.
\<close>

record TlsFar =
  tf_relay :: "(string + unit) option"
  tf_direct :: "nat option \<times> (string + unit)"
  tf_handshake :: "string + unit"

definition tls_far_side :: "TlsFar \<Rightarrow> Fate" where
  "tls_far_side far =
     (let remote = (case tf_relay far of
            Some (Inr _) \<Rightarrow> Inr ()
          | Some (Inl e) \<Rightarrow> Inl (''tls bridge relay dial failed: '' @ e)
          | None \<Rightarrow>
              (case tf_direct far of
                 (Some t, r) \<Rightarrow>
                   if t \<le> 3000 then (case r of Inr _ \<Rightarrow> Inr () | Inl e \<Rightarrow> Inl (''tls bridge connect failed: '' @ e))
                   else Inl ''tls bridge connect timed out''
               | (None, _) \<Rightarrow> Inl ''tls bridge connect timed out''))
      in case remote of
           Inl e \<Rightarrow> Closed e
         | Inr _ \<Rightarrow> (case tf_handshake far of Inr _ \<Rightarrow> Piped | Inl e \<Rightarrow> Closed (''tls bridge handshake failed: '' @ e)))"

datatype TunnelEvent = Connects | Disconnects

text \<open>The task of \<open>spawn_bridge\<close> and \<open>spawn_tls_bridge\<close>: it accepts one connection and ends with it.\<close>

fun one_shot :: "Fate \<Rightarrow> BridgeState \<Rightarrow> TunnelEvent \<Rightarrow> BridgeState \<times> Fate option" where
  "one_shot far Listening Connects = ((if far = Piped then Tunnelling else Gone), Some far)"
| "one_shot far Tunnelling Disconnects = (Gone, None)"
| "one_shot far s Connects = (s, Some Unserved)"
| "one_shot far s Disconnects = (s, None)"

text \<open>The task of \<open>spawn_quic_bridge\<close>: a stream per connection, as long as one can be opened.\<close>

fun stream_each :: "string + unit \<Rightarrow> BridgeState \<Rightarrow> TunnelEvent \<Rightarrow> BridgeState \<times> Fate option" where
  "stream_each open_bi s Connects = (s, Some (case open_bi of Inr _ \<Rightarrow> Piped | Inl e \<Rightarrow> Closed e))"
| "stream_each open_bi s Disconnects = (s, None)"

section \<open>The HTTP client in front of a bridge\<close>

text \<open>
  A request is whether its connection is kept afterwards: not if it is aborted, or if the peer closes.  The state is
  that of the bridge and whether a connection is idle.
\<close>

definition http_request ::
  "(BridgeState \<Rightarrow> TunnelEvent \<Rightarrow> BridgeState \<times> Fate option) \<Rightarrow> BridgeState \<times> bool \<Rightarrow> bool \<Rightarrow> (BridgeState \<times> bool) \<times> bool" where
  "http_request bridge s kept =
     (case (if snd s then (fst s, Some Piped) else bridge (fst s) Connects) of
        (b, Some Piped) \<Rightarrow> if kept then ((b, True), True) else ((fst (bridge b Disconnects), False), True)
      | (b, _) \<Rightarrow> ((b, False), False))"

definition delivered :: "(BridgeState \<Rightarrow> TunnelEvent \<Rightarrow> BridgeState \<times> Fate option) \<Rightarrow> bool list \<Rightarrow> bool list" where
  "delivered bridge requests = snd (run_actor (http_request bridge) (Listening, False) requests)"

lemma http_gone: "snd (run_actor (http_request (one_shot far)) (Gone, False) rs) = replicate (length rs) False"
  by (induction rs) (simp_all add: snd_run_actor_Cons http_request_def)

lemma http_request_tunnelling:
  "http_request (one_shot far) (Tunnelling, True) r = ((if r then (Tunnelling, True) else (Gone, False)), True)"
  by (simp add: http_request_def)

lemma http_request_first:
  "http_request (one_shot far) (Listening, False) r =
     ((if far = Piped \<and> r then (Tunnelling, True) else (Gone, False)), far = Piped)"
  by (cases far) (simp_all add: http_request_def)

lemma upt_length_Cons: "map f [0 ..< length (x # xs)] = f 0 # map (f \<circ> Suc) [0 ..< length xs]"
  by (simp add: upt_conv_Cons map_Suc_upt [symmetric] del: upt_Suc)

lemma map_False: "(\<And>i. \<not> f i) \<Longrightarrow> map f [0 ..< n] = replicate n False"
  by (simp add: list_eq_iff_nth_eq)

lemma http_kept:
  "snd (run_actor (http_request (one_shot far)) (Tunnelling, True) rs) =
     map (\<lambda>i. i \<le> length (takeWhile id rs)) [0 ..< length rs]"
proof (induction rs)
  case (Cons r rs)
  then show ?case
    unfolding upt_length_Cons snd_run_actor_Cons http_request_tunnelling
    by (cases r) (simp_all add: o_def id_def http_gone map_False)
qed simp

section \<open>Properties\<close>


text \<open>Through a TURN or TLS bridge exactly the requests up to the first one whose connection is not kept are
  delivered, and none if the far side cannot be reached: after an aborted upload the request that
  cancels the session is lost.  Over QUIC every request is delivered.
\<close>

theorem bridge_delivers:
  "delivered (one_shot far) rs = map (\<lambda>i. far = Piped \<and> i \<le> length (takeWhile id rs)) [0 ..< length rs] \<and>
   delivered (stream_each (Inr ())) rs = replicate (length rs) True"
proof
  show "delivered (one_shot far) rs = map (\<lambda>i. far = Piped \<and> i \<le> length (takeWhile id rs)) [0 ..< length rs]"
  proof (cases rs)
    case (Cons r rs')
    show ?thesis
      unfolding Cons delivered_def upt_length_Cons snd_run_actor_Cons http_request_first
      by (cases r; cases "far = Piped") (simp_all add: o_def http_gone http_kept map_False id_def)
  qed (simp add: delivered_def)
  have "snd (run_actor (http_request (stream_each (Inr ()))) (Listening, k) rs) = replicate (length rs) True" for k
    by (induction rs arbitrary: k) (auto simp: snd_run_actor_Cons http_request_def)
  then show "delivered (stream_each (Inr ())) rs = replicate (length rs) True" by (simp add: delivered_def)
qed

text \<open>A direct TLS dial is given up after three seconds, and every failure before the session stands closes the
  local connection, so that the request fails instead of waiting.
\<close>

theorem tls_dial_bounded:
  "(tls_far_side far = Piped) =
     (tf_handshake far = Inr () \<and>
      (case tf_relay far of Some r \<Rightarrow> r = Inr () | None \<Rightarrow> (\<exists>t \<le> 3000. tf_direct far = (Some t, Inr ())))) \<and>
   tls_far_side far \<noteq> Unserved"
  by (cases "tf_direct far"; cases "fst (tf_direct far)"; cases "snd (tf_direct far)"; cases "tf_relay far";
      cases "the (tf_relay far)"; cases "tf_handshake far")
    (auto simp: tls_far_side_def Let_def)

section \<open>Witnesses\<close>


end
