(* ===== verification/Cli_Main.thy ===== *)
theory Cli_Main
  imports Cli_Config Discovery_Net Registry_Props Panel_Coturn Server
begin

text \<open>
  The command line program, \<open>main\<close> of \<open>src/rust/cli/src/main.rs\<close>: what each command does, in order.

  \<^item> The environment answers for the outside: the variables, the clock, creating the directory, the error of the
    server's start, and the result of each front end or server that is run.
  \<^item> \<open>me_panel_args\<close> is \<open>PanelArgs::parse\<close> on the command line of the process, which ends the process when it
    does not accept it (\<open>None\<close>).
\<close>

datatype CliCommand =
  CmdSend
| CmdReceive bool
| CmdPanel
| CmdRelay string "string option" "string option"
| CmdDiagnose string string
| CmdRelayCredential "string option" u64 string

record CommonArgs =
  ca_files :: "string list"
  ca_to :: "string option"
  ca_via_relay :: bool

datatype MainAct =
  StartCore NodeDevice CoreConfig
| AnnounceLoop
| SpawnPanel PanelConfig string
| RunDiagnose string string
| PrintCredential string string
| ShutdownCore
| TurnServer SocketAddr bytes string
| RunPanel PanelConfig string
| HeadlessSend NodeDevice "string list" bool
| HeadlessReceive bool
| RunTui "string list" "NodeDevice option"

record MainEnv =
  me_var :: "string \<Rightarrow> string option"
  me_config_dir :: "string option"
  me_create_dir :: "string + unit"
  me_start_error :: "string option"
  me_unix :: u64
  me_local_ipv4 :: "bytes option"
  me_panel_args :: "PanelConfig option"
  me_run :: "MainAct \<Rightarrow> string + unit"

definition or_var :: "MainEnv \<Rightarrow> string \<Rightarrow> string \<Rightarrow> string" where
  "or_var env name d = (case me_var env name of Some v \<Rightarrow> v | None \<Rightarrow> d)"

definition cli_identity_dir :: "MainEnv \<Rightarrow> string option" where
  "cli_identity_dir env =
     (if me_var env ''LOCALSEND_CLI_NO_TLS'' = Some ''1'' then None
      else Some (path_join (case me_config_dir env of Some d \<Rightarrow> d | None \<Rightarrow> ''.'') ''tls''))"

definition panel_db :: "MainEnv \<Rightarrow> string" where
  "panel_db env = (case me_config_dir env of Some d \<Rightarrow> path_join d ''panel.db'' | None \<Rightarrow> ''panel.db'')"

definition panel_config :: "MainEnv \<Rightarrow> string \<Rightarrow> string \<Rightarrow> string \<Rightarrow> PanelConfig" where
  "panel_config env secret public_addr prom_default =
     \<lparr>pc_admin_password = or_var env ''PANEL_ADMIN_PASSWORD'' secret, pc_relay_secret = secret,
      pc_relay_public_addr = public_addr, pc_prom_url = or_var env ''COTURN_PROM_URL'' prom_default,
      pc_cli_addr = or_var env ''COTURN_CLI_ADDR'' ''127.0.0.1:5766'',
      pc_cli_password = or_var env ''COTURN_CLI_PASSWORD_PLAIN'' []\<rparr>"

definition auto_panel :: "MainEnv \<Rightarrow> CliCommand option \<Rightarrow> EffectiveConfig \<Rightarrow> MainAct list" where
  "auto_panel env cmd effective =
     (if (cmd = None \<or> (\<exists>once \<in> {True, False}. cmd = Some (CmdReceive once))) \<and> me_var env ''PANEL_DISABLE'' \<noteq> Some ''1''
      then (case ec_relay effective of
              None \<Rightarrow> []
            | Some r \<Rightarrow> [SpawnPanel (panel_config env (rf_secret r) (rf_addr r) ''http://127.0.0.1:9641/metrics'') (panel_db env)])
      else [])"

text \<open>\<open>clone().or_else(effective.relay)\<close>\<close>

definition secret_of :: "string option \<Rightarrow> EffectiveConfig \<Rightarrow> string option" where
  "secret_of given effective =
     (case given of Some s \<Rightarrow> Some s | None \<Rightarrow> map_option rf_secret (ec_relay effective))"

definition addr_port :: "SocketAddr \<Rightarrow> u16" where
  "addr_port a = (case a of V4 _ p \<Rightarrow> p | V6 _ p \<Rightarrow> p)"

definition relay_command ::
  "MainEnv \<Rightarrow> EffectiveConfig \<Rightarrow> string \<Rightarrow> string option \<Rightarrow> string option \<Rightarrow> MainAct list \<times> (string + unit)" where
  "relay_command env effective listen_arg external given =
     (case parse_addr listen_arg of
        None \<Rightarrow> ([ShutdownCore], Inl ''--listen must be ip:port'')
      | Some listen \<Rightarrow>
          (case secret_of given effective of
             None \<Rightarrow> ([ShutdownCore], Inl ''--secret or a [relay] config entry is required'')
           | Some secret \<Rightarrow>
               (case (case external of
                        Some ip \<Rightarrow> (case parse_ipv4 ip of Some v4 \<Rightarrow> Inr v4 | None \<Rightarrow> Inl (''--external must be an IPv4: '' @ ip))
                      | None \<Rightarrow> Inr (case me_local_ipv4 env of Some v4 \<Rightarrow> v4 | None \<Rightarrow> [127, 0, 0, 1])) of
                  Inl e \<Rightarrow> ([ShutdownCore], Inl e)
                | Inr external_ip \<Rightarrow>
                    let port = show_nat (unat (addr_port listen));
                        cfg = panel_config env secret (show_ipv4 external_ip @ '':'' @ port)
                                (''http://127.0.0.1:'' @ port @ ''/metrics'');
                        turn = TurnServer listen external_ip secret
                    in ([ShutdownCore, SpawnPanel cfg (panel_db env), turn], me_run env turn))))"

definition send_command :: "MainEnv \<Rightarrow> CommonArgs \<Rightarrow> MainAct list \<times> (string + unit)" where
  "send_command env common =
     (case ca_to common of
        None \<Rightarrow> ([], Inl ''`send` requires --to <ip:port>'')
      | Some addr \<Rightarrow>
          (case manual addr of
             None \<Rightarrow> ([], Inl (''invalid --to target: '' @ addr))
           | Some target \<Rightarrow>
               if ca_files common = [] then ([], Inl ''`send` requires at least one -f/--file'')
               else let act = HeadlessSend target (ca_files common) (ca_via_relay common)
                    in ([act, ShutdownCore], me_run env act)))"

definition tui_command :: "MainEnv \<Rightarrow> CommonArgs \<Rightarrow> MainAct list \<times> (string + unit)" where
  "tui_command env common =
     (case (case ca_to common of
              None \<Rightarrow> Inr None
            | Some t \<Rightarrow> (case manual t of None \<Rightarrow> Inl (''invalid --to target: '' @ t) | Some d \<Rightarrow> Inr (Some d))) of
        Inl e \<Rightarrow> ([], Inl e)
      | Inr target \<Rightarrow> let act = RunTui (ca_files common) target in ([act, ShutdownCore], me_run env act))"

definition run_cli_command ::
  "Crypto \<Rightarrow> MainEnv \<Rightarrow> CliCommand option \<Rightarrow> CommonArgs \<Rightarrow> EffectiveConfig \<Rightarrow> MainAct list \<times> (string + unit)" where
  "run_cli_command cp env cmd common effective =
     (case cmd of
        Some (CmdDiagnose relay secret) \<Rightarrow>
          let act = RunDiagnose relay secret in ([act], me_run env act)
      | Some (CmdRelayCredential given ttl suffix) \<Rightarrow>
          (case secret_of given effective of
             None \<Rightarrow> ([], Inl ''relay-credential needs --secret or a [relay] config section'')
           | Some secret \<Rightarrow>
               (case generate_credentials (cr_hmac cp) (cr_b64 cp) secret (me_unix env + ttl) suffix of
                  (username, password) \<Rightarrow> ([PrintCredential username password], Inr ())))
      | Some (CmdRelay listen external given) \<Rightarrow> relay_command env effective listen external given
      | Some CmdPanel \<Rightarrow>
          (case me_panel_args env of
             None \<Rightarrow> ([], Inl ''panel usage'')
           | Some cfg \<Rightarrow> let act = RunPanel cfg (panel_db env) in ([ShutdownCore, act], me_run env act))
      | Some CmdSend \<Rightarrow> send_command env common
      | Some (CmdReceive once) \<Rightarrow> let act = HeadlessReceive once in ([act, ShutdownCore], me_run env act)
      | None \<Rightarrow> tui_command env common)"

definition cli_main ::
  "Crypto \<Rightarrow> MainEnv \<Rightarrow> CliCommand option \<Rightarrow> CommonArgs \<Rightarrow> string + EffectiveConfig \<Rightarrow> MainAct list \<times> (string + unit)" where
  "cli_main cp env cmd common loaded =
     (case loaded of
        Inl e \<Rightarrow> ([], Inl e)
      | Inr effective \<Rightarrow>
          (case me_create_dir env of
             Inl _ \<Rightarrow> ([], Inl (''failed to create destination '' @ ec_destination effective))
           | Inr _ \<Rightarrow>
               let start = StartCore (build_device effective) (cli_core_config effective (cli_identity_dir env)) in
               (case me_start_error env of
                  Some err \<Rightarrow> ([start], Inl (''server failed to start: '' @ err))
                | None \<Rightarrow>
                    (case run_cli_command cp env cmd common effective of
                       (acts, r) \<Rightarrow> ([start, AnnounceLoop] @ auto_panel env cmd effective @ acts, r)))))"

section \<open>Properties\<close>

text \<open>The relay command runs a consistent node: the panel it starts issues credentials for the secret and the
  address of the TURN server it runs.  The HTTP server of the device is shut down before, but the loop
  that announces the device is not.
\<close>

theorem relay_node:
  assumes "cli_main cp env (Some (CmdRelay l x g)) common (Inr eff) = (acts, r)"
    and "TurnServer listen ip secret \<in> set acts"
  shows "\<exists>dev core cfg.
    acts = [StartCore dev core, AnnounceLoop, ShutdownCore, SpawnPanel cfg (panel_db env), TurnServer listen ip secret] \<and>
    pc_relay_secret cfg = secret \<and>
    pc_relay_public_addr cfg = show_ipv4 ip @ '':'' @ show_nat (unat (addr_port listen)) \<and>
    pc_admin_password cfg = or_var env ''PANEL_ADMIN_PASSWORD'' secret \<and>
    parse_addr l = Some listen \<and> secret_of g eff = Some secret \<and> r = me_run env (TurnServer listen ip secret)"
  using assms
  by (auto simp: cli_main_def run_cli_command_def relay_command_def auto_panel_def panel_config_def Let_def
      split: sum.splits option.splits prod.splits if_splits)

text \<open>C30. A minted credential is accepted by the relay exactly until its lifetime is over; but it is printed only if
  the HTTP server of the device could be started, which minting does not need.
\<close>

theorem minted_credential:
  assumes "me_create_dir env = Inr ()" "secret_of given eff = Some secret"
    and "unat (me_unix env) + unat ttl < 2 ^ 64"
  shows "\<exists>dev core u p.
    cli_main cp env (Some (CmdRelayCredential given ttl suffix)) common (Inr eff) =
      (case me_start_error env of
         Some e \<Rightarrow> ([StartCore dev core], Inl (''server failed to start: '' @ e))
       | None \<Rightarrow> ([StartCore dev core, AnnounceLoop, PrintCredential u p], Inr ())) \<and>
    verify cp secret at u p = (unat at < unat (me_unix env) + unat ttl)"
proof -
  obtain u p where g: "generate_credentials (cr_hmac cp) (cr_b64 cp) secret (me_unix env + ttl) suffix = (u, p)" by fastforce
  have "unat (me_unix env + ttl) = unat (me_unix env) + unat ttl" using assms(3) by (simp add: unat_plus_if')
  then have "verify cp secret at u p = (unat at < unat (me_unix env) + unat ttl)"
    using user_expiry_minted [of "cr_hmac cp" "cr_b64 cp" secret "me_unix env + ttl" suffix] g snd_minted [OF g]
    by (simp add: verify_iff word_less_nat_alt)
  then show ?thesis using assms g
    by (auto simp: cli_main_def run_cli_command_def auto_panel_def Let_def split: option.splits)
qed

text \<open>The option that asks for the relay from the start reaches the send command; the interactive program ignores it.
\<close>

theorem via_relay_only_headless:
  "cli_main cp env None common loaded = cli_main cp env None (common\<lparr>ca_via_relay := via\<rparr>) loaded \<and>
   {v. \<exists>target files. HeadlessSend target files v \<in> set (fst (cli_main cp env (Some CmdSend) common loaded))} \<subseteq> {ca_via_relay common}"
  by (auto simp: cli_main_def run_cli_command_def send_command_def tui_command_def auto_panel_def Let_def
      split: sum.splits option.splits prod.splits if_splits)

section \<open>Witnesses\<close>

definition sample_main :: MainEnv where
  "sample_main =
     \<lparr>me_var = Map.empty, me_config_dir = None, me_create_dir = Inr (), me_start_error = None, me_unix = 50,
      me_local_ipv4 = Some [10, 0, 0, 2], me_panel_args = None, me_run = (\<lambda>_. Inr ())\<rparr>"

definition sample_effective :: EffectiveConfig where
  "sample_effective =
     \<lparr>ec_alias = ''a'', ec_port = 53317, ec_destination = ''d'', ec_fingerprint = ''f'', ec_relay = None\<rparr>"

definition sample_common :: CommonArgs where
  "sample_common = \<lparr>ca_files = [], ca_to = None, ca_via_relay = False\<rparr>"

lemma relay_node_witness:
  "\<exists>cfg. SpawnPanel cfg ''panel.db'' \<in>
     set (fst (cli_main sample_crypto sample_main (Some (CmdRelay (show_addr (V4 [0, 0, 0, 0] 3478)) None (Some ''k'')))
       sample_common (Inr sample_effective))) \<and>
     pc_relay_secret cfg = ''k''"
proof -
  let ?run = "cli_main sample_crypto sample_main (Some (CmdRelay (show_addr (V4 [0, 0, 0, 0] 3478)) None (Some ''k'')))
      sample_common (Inr sample_effective)"
  obtain acts r where run: "?run = (acts, r)" by fastforce
  have "TurnServer (V4 [0, 0, 0, 0] 3478) [10, 0, 0, 2] ''k'' \<in> set (fst ?run)"
    using parse_show_v4 [of "[0, 0, 0, 0]" 3478]
    by (simp add: cli_main_def run_cli_command_def relay_command_def secret_of_def sample_main_def Let_def)
  then have turn: "TurnServer (V4 [0, 0, 0, 0] 3478) [10, 0, 0, 2] ''k'' \<in> set acts" unfolding run by simp
  have db: "panel_db sample_main = ''panel.db''" by (simp add: panel_db_def sample_main_def)
  show ?thesis using relay_node [OF run turn] unfolding run db by auto
qed

lemma minted_credential_witness:
  "\<exists>u p. PrintCredential u p \<in> set (fst (cli_main sample_crypto sample_main (Some (CmdRelayCredential (Some ''k'') 9 ''x''))
      sample_common (Inr sample_effective))) \<and> verify sample_crypto ''k'' 58 u p"
proof -
  have "me_create_dir sample_main = Inr ()" "secret_of (Some ''k'') sample_effective = Some ''k''"
    "unat (me_unix sample_main) + unat (9 :: u64) < 2 ^ 64" "me_start_error sample_main = None"
    by (simp_all add: sample_main_def secret_of_def)
  then show ?thesis
    using minted_credential [where env = sample_main and given = "Some ''k''" and eff = sample_effective and secret = "''k''" and ttl = 9
        and cp = sample_crypto and suffix = "''x''" and common = sample_common and at = 58]
    by (auto simp: sample_main_def)
qed

end
