(* ===== verification/Diagnose.thy ===== *)
theory Diagnose
  imports Net_Addr Relay_Bridge Rendezvous
begin

text \<open>
  The relay link test of the command line program, \<open>src/rust/cli/src/diagnose.rs\<close>: six steps against a relay, each
  with a verdict.

  \<^item> \<open>DiagEnv\<close> is what the sockets and the HTTP client answer: an operation under a timeout is \<open>TimedOut\<close>, \<open>Broken\<close>
    with its error, or \<open>Got\<close> its value; an operation whose error ends the test is a sum.
  \<^item> The result are the verdicts printed, in order (step and whether it passed), and the result of the command.
    The explanations printed with them are left out.
\<close>

datatype 'a timed = TimedOut | Broken string | Got 'a

record DiagEnv =
  dx_connect :: "SocketAddr \<Rightarrow> unit timed"
  dx_probe :: "(nat \<times> SocketAddr option) timed"
  dx_bridge :: "nat \<Rightarrow> bytes \<Rightarrow> string + bytes timed"
  dx_register :: "string \<Rightarrow> string \<Rightarrow> DeviceRegistration \<Rightarrow> (nat \<times> string list option) timed"
  dx_listen :: "bytes \<Rightarrow> string + unit"
  dx_dial :: "bytes \<Rightarrow> string + bytes timed"
  dx_ping :: "bytes \<Rightarrow> string + unit"
  dx_heard :: "bytes timed"
  dx_to_echo :: "bytes \<Rightarrow> string + unit"
  dx_echo :: "bytes timed"
  dx_back :: "bytes \<Rightarrow> string + unit"
  dx_reply :: "bytes timed"

type_synonym verdict = "nat \<times> bool"

definition probe_header :: bytes where
  "probe_header = bridge_header ''CONNECT'' ''diagnose-probe-no-listener''"

definition text_of_reply :: "bytes \<Rightarrow> string" where
  "text_of_reply r = from_utf8_lossy (take 64 r)"

text \<open>Step 3: does the relay know the protocol?  Step 4 compares the beginning of the reply, and is silent
  without one.\<close>

definition bridge_supported :: "bytes timed \<Rightarrow> bool" where
  "bridge_supported r =
     (case r of
        Got b \<Rightarrow> str_contains (text_of_reply b) ''NOT_FOUND'' \<or> str_contains (text_of_reply b) ''OK''
      | _ \<Rightarrow> False)"

definition handshake_verdict :: "bytes timed \<Rightarrow> verdict list" where
  "handshake_verdict r =
     (case r of
        Got b \<Rightarrow> [(4, starts_with (text_of_reply b) ''BRIDGE NOT_FOUND'' \<or> starts_with (text_of_reply b) ''BRIDGE OK'')]
      | _ \<Rightarrow> [])"

definition diagnose_registration :: "string \<Rightarrow> DeviceRegistration" where
  "diagnose_registration username =
     \<lparr>dr_fingerprint = ''diagnose-probe'', dr_alias = ''diagnose'', dr_device_model = ''cli'',
      dr_device_type = ''headless'', dr_protocol = ''https'', dr_port = 0, dr_username = username, dr_candidates = []\<rparr>"

definition heartbeat_verdict :: "(nat \<times> string list option) timed \<Rightarrow> bool" where
  "heartbeat_verdict r =
     (case r of Got (status, list) \<Rightarrow> 200 \<le> status \<and> status < 300 \<and> list \<noteq> None | _ \<Rightarrow> False)"

definition diagnose_heartbeat :: "Crypto \<Rightarrow> DiagEnv \<Rightarrow> string \<Rightarrow> string \<Rightarrow> u64 \<Rightarrow> verdict" where
  "diagnose_heartbeat cp env addr secret now =
     (case generate_credentials (cr_hmac cp) (cr_b64 cp) secret (now + 60) ''diagnose'' of
        (username, password) \<Rightarrow>
          (5, heartbeat_verdict (dx_register env (''http://'' @ addr @ ''/api/discovery/register'')
                (''Bearer '' @ password) (diagnose_registration username))))"

text \<open>Step 6: a listener, a sender and an echo server of its own; the pieces pass on what they read, or nothing.\<close>

definition pass_on :: "bytes timed \<Rightarrow> (bytes \<Rightarrow> string + unit) \<Rightarrow> string + unit" where
  "pass_on r send = (case r of Got b \<Rightarrow> send b | _ \<Rightarrow> Inr ())"

definition data_path :: "DiagEnv \<Rightarrow> verdict list \<times> (string + unit)" where
  "data_path env =
     (case dx_listen env (bridge_header ''LISTEN'' ''diagnose-bridge-rt'') of
        Inl e \<Rightarrow> ([], Inl e)
      | Inr _ \<Rightarrow>
          (case dx_dial env (bridge_header ''CONNECT'' ''diagnose-bridge-rt'') of
             Inl e \<Rightarrow> ([], Inl e)
           | Inr TimedOut \<Rightarrow> ([(6, False)], Inl ''bridge handshake timeout'')
           | Inr (Broken e) \<Rightarrow> ([(6, False)], Inl ''bridge handshake error'')
           | Inr (Got hs) \<Rightarrow>
               if \<not> starts_with (text_of_reply hs) ''BRIDGE OK'' then ([(6, False)], Inl ''bridge handshake failed'')
               else
                 (case dx_ping env (as_bytes ''ping'') of
                    Inl e \<Rightarrow> ([], Inl e)
                  | Inr _ \<Rightarrow>
                      (case pass_on (dx_heard env) (\<lambda>b. dx_to_echo env (take 128 b)) of
                         Inl e \<Rightarrow> ([], Inl e)
                       | Inr _ \<Rightarrow>
                           (case pass_on (dx_echo env) (\<lambda>b. dx_back env (take 128 b)) of
                              Inl e \<Rightarrow> ([], Inl e)
                            | Inr _ \<Rightarrow>
                                ([(6, case dx_reply env of
                                        Got b \<Rightarrow> str_contains (from_utf8_lossy (take 128 b)) ''bridge-echo-ok''
                                      | _ \<Rightarrow> False)], Inr ()))))))"

definition diagnose :: "Crypto \<Rightarrow> DiagEnv \<Rightarrow> string \<Rightarrow> string \<Rightarrow> u64 \<Rightarrow> verdict list \<times> (string + unit)" where
  "diagnose cp env addr secret now =
     (case parse_addr addr of
        None \<Rightarrow> ([], Inl (''invalid address '' @ addr))
      | Some sock \<Rightarrow>
          (case dx_connect env sock of
             Broken _ \<Rightarrow> ([(1, False)], Inl ''cannot reach relay'')
           | TimedOut \<Rightarrow> ([(1, False)], Inl ''relay unreachable'')
           | Got _ \<Rightarrow>
               let v2 = [(1, True), (2, case dx_probe env of Got _ \<Rightarrow> True | _ \<Rightarrow> False)] in
               (case dx_bridge env 3 probe_header of
                  Inl e \<Rightarrow> (v2, Inl e)
                | Inr r3 \<Rightarrow>
                    let v3 = v2 @ [(3, bridge_supported r3)] in
                    (case dx_bridge env 4 probe_header of
                       Inl e \<Rightarrow> (v3, Inl e)
                     | Inr r4 \<Rightarrow>
                         (case data_path env of
                            (v6, r) \<Rightarrow>
                              (v3 @ handshake_verdict r4 @ [diagnose_heartbeat cp env addr secret now] @ v6, r))))))"

section \<open>Lemmas\<close>

lemma reply_texts:
  "text_of_reply (reply_bytes BNotFound) = ''BRIDGE NOT_FOUND'' @ [lf]" "text_of_reply (reply_bytes BOk) = ''BRIDGE OK'' @ [lf]"
  by code_simp+

lemma bridge_replies_pass:
  "r = BOk \<or> r = BNotFound \<Longrightarrow> bridge_supported (Got (reply_bytes r)) \<and> handshake_verdict (Got (reply_bytes r)) = [(4, True)]"
  by (auto simp: bridge_supported_def handshake_verdict_def reply_texts starts_with_def simp del: reply_bytes.simps)

lemma headers_parse:
  "parse_bridge probe_header = Inr (BConnect ''diagnose-probe-no-listener'')"
  "parse_bridge (bridge_header ''LISTEN'' ''diagnose-bridge-rt'') = Inr (BListen ''diagnose-bridge-rt'')"
  "parse_bridge (bridge_header ''CONNECT'' ''diagnose-bridge-rt'') = Inr (BConnect ''diagnose-bridge-rt'')"
  by code_simp+

section \<open>Properties\<close>

text \<open>A healthy relay passes: against a relay that answers as the bridge server and the registry do, with no
  device listening under the fingerprint of the probe, and that carries the bytes of a spliced pair, all
  six steps pass.
\<close>

theorem healthy_relay_passes:
  assumes sock: "parse_addr addr = Some sock" "dx_connect env sock = Got ()" "dx_probe env = Got mapped"
    and absent: "hget (br_registry b) ''diagnose-probe-no-listener'' = None"
    and bridge: "\<And>n h fp. parse_bridge h = Inr (BConnect fp) \<Longrightarrow>
        dx_bridge env n h = Inr (Got (reply_bytes (snd (bridge_handle b (EvConnect n fp)))))"
    and registry: "\<And>url auth reg. dx_register env url auth reg =
        (case registry_step cp parse secret (RegisterReq unix at (text_of reg) (Some auth) ip) m of
           (m', status, Inr es) \<Rightarrow> Got (status, Some (map de_alias es))
         | (m', status, Inl e) \<Rightarrow> Got (status, None))"
    and json: "\<And>reg. parse (text_of reg) = Some reg" and clock: "unix < now + 60"
    and listen: "dx_listen env h6 = Inr ()" "parse_bridge h6 = Inr (BListen fp6)" "h6 = bridge_header ''LISTEN'' ''diagnose-bridge-rt''"
    and dial: "\<And>h fp. parse_bridge h = Inr (BConnect fp) \<Longrightarrow> dx_dial env h =
        Inr (Got (reply_bytes (snd (bridge_handle (fst (bridge_handle b (EvListen fp6))) (EvConnect c fp)))))"
    and spliced: "\<And>x. dx_ping env x = Inr ()" "dx_heard env = Got (as_bytes ''ping'')" "\<And>x. dx_to_echo env x = Inr ()"
      "dx_echo env = Got (as_bytes ''bridge-echo-ok'')" "\<And>x. dx_back env x = Inr ()"
      "dx_reply env = Got (as_bytes ''bridge-echo-ok'')"
  shows "diagnose cp env addr secret now = ([(1, True), (2, True), (3, True), (4, True), (5, True), (6, True)], Inr ())"
proof -
  obtain u p where g: "generate_credentials (cr_hmac cp) (cr_b64 cp) secret (now + 60) ''diagnose'' = (u, p)" by fastforce
  have "dr_username (diagnose_registration u) = u" by (simp add: diagnose_registration_def)
  from registered [where reg = "diagnose_registration u" and text_of = text_of and parse = parse, OF g clock this json] have five: "diagnose_heartbeat cp env addr secret now = (5, True)"
    by (simp add: diagnose_heartbeat_def g registry heartbeat_verdict_def Let_def)
  have fp6: "fp6 = ''diagnose-bridge-rt''" using listen(2,3) headers_parse(2) by simp
  have dialled: "dx_dial env (bridge_header ''CONNECT'' ''diagnose-bridge-rt'') = Inr (Got (reply_bytes BOk))"
    using dial [OF headers_parse(3)] by (simp add: fp6 bridge_listen_def bridge_connect_def Let_def del: reply_bytes.simps)
  have echo: "str_contains (from_utf8_lossy (take 128 (as_bytes ''bridge-echo-ok''))) ''bridge-echo-ok''" by code_simp
  have six: "data_path env = ([(6, True)], Inr ())"
    using listen(1) echo unfolding listen(3)
    by (simp add: data_path_def dialled reply_texts starts_with_def spliced pass_on_def del: reply_bytes.simps)
  have "dx_bridge env n probe_header = Inr (Got (reply_bytes BNotFound))" for n
    using bridge [OF headers_parse(1)] absent by (simp add: bridge_connect_def del: reply_bytes.simps)
  then show ?thesis
    using sock bridge_replies_pass [of BNotFound] five six by (simp add: diagnose_def Let_def del: reply_bytes.simps)
qed

text \<open>The test takes the device out of the registry: its heartbeat enters the pseudo device \<open>diagnose-probe\<close> from
  the address of the host, which removes the entry of the device itself.
\<close>

theorem diagnose_evicts_device:
  assumes "hwf m" "hget m fp = Some (e, t)" "de_address e = ip" "fp \<noteq> ''diagnose-probe''"
    and "generate_credentials (cr_hmac cp) (cr_b64 cp) secret (now + 60) ''diagnose'' = (u, p)" "unix < now + 60"
    and "parse (text_of (diagnose_registration u)) = Some (diagnose_registration u)"
  shows "hget (fst (registry_step cp parse secret
      (RegisterReq unix at (text_of (diagnose_registration u)) (Some (''Bearer '' @ p)) ip) m)) fp = None"
proof -
  have "dr_username (diagnose_registration u) = u" by (simp add: diagnose_registration_def)
  from registered [where reg = "diagnose_registration u" and text_of = text_of and parse = parse, OF assms(5,6) this assms(7)]
  have "fst (registry_step cp parse secret (RegisterReq unix at (text_of (diagnose_registration u)) (Some (''Bearer '' @ p)) ip) m) =
      insert_entry (registration_entry (diagnose_registration u) ip) at (prune at m)"
    by (simp add: Let_def)
  moreover have "hwf (prune at m)" using assms(1) by (simp add: prune_def)
  ultimately show ?thesis using assms(2-4)
    by (auto simp: hget_insert_entry hget_prune [OF assms(1)] registration_entry_def diagnose_registration_def)
qed

text \<open>A relay given by name is not tested at all, and the verdicts of the probe and of the heartbeat have no
  bearing on the result of the command.
\<close>

theorem diagnose_result:
  "(fst (diagnose cp env addr secret now) = []) = (parse_addr addr = None) \<and>
   snd (diagnose cp env addr secret now) = snd (diagnose cp (env\<lparr>dx_probe := p, dx_register := q\<rparr>) addr secret now)"
  by (auto simp: diagnose_def data_path_def Let_def split: option.splits timed.splits sum.splits prod.splits)

section \<open>Witnesses\<close>

lemma diagnose_evicts_device_witness:
  "\<exists>u p. hget (fst (registry_step sample_crypto sample_parse ''k''
      (RegisterReq 5 0 (sample_text (diagnose_registration u)) (Some (''Bearer '' @ p)) ''1.1.1.1'')
      [(''f1'', registration_entry (sample_registration ''f1'') ''1.1.1.1'', 0)])) ''f1'' = None"
proof -
  obtain u p where g: "generate_credentials (cr_hmac sample_crypto) (cr_b64 sample_crypto) ''k'' (5 + 60) ''diagnose'' = (u, p)"
    by fastforce
  show ?thesis
    using diagnose_evicts_device [OF _ _ _ _ g, where m = "[(''f1'', registration_entry (sample_registration ''f1'') ''1.1.1.1'', 0)]"
        and fp = "''f1''" and e = "registration_entry (sample_registration ''f1'') ''1.1.1.1''" and t = 0
        and ip = "''1.1.1.1''" and unix = 5 and parse = sample_parse and text_of = sample_text and at = 0]
    by (auto simp: registration_entry_def hwf_def)
qed

definition healthy_env :: DiagEnv where
  "healthy_env =
     \<lparr>dx_connect = (\<lambda>_. Got ()), dx_probe = Got (3, None),
      dx_bridge = (\<lambda>n h. case parse_bridge h of
          Inr (BConnect fp) \<Rightarrow> Inr (Got (reply_bytes (snd (bridge_handle new_bridge (EvConnect n fp))))) | _ \<Rightarrow> Inr TimedOut),
      dx_register = (\<lambda>url auth reg.
        case registry_step sample_crypto sample_parse ''k'' (RegisterReq 5 0 (sample_text reg) (Some auth) ''1.1.1.1'') [] of
          (m', status, Inr es) \<Rightarrow> Got (status, Some (map de_alias es)) | (m', status, Inl e) \<Rightarrow> Got (status, None)),
      dx_listen = (\<lambda>_. Inr ()),
      dx_dial = (\<lambda>h. case parse_bridge h of
          Inr (BConnect fp) \<Rightarrow> Inr (Got (reply_bytes (snd (bridge_handle
            (fst (bridge_handle new_bridge (EvListen ''diagnose-bridge-rt''))) (EvConnect 0 fp))))) | _ \<Rightarrow> Inr TimedOut),
      dx_ping = (\<lambda>_. Inr ()), dx_heard = Got (as_bytes ''ping''), dx_to_echo = (\<lambda>_. Inr ()),
      dx_echo = Got (as_bytes ''bridge-echo-ok''), dx_back = (\<lambda>_. Inr ()), dx_reply = Got (as_bytes ''bridge-echo-ok'')\<rparr>"

lemma healthy_relay_passes_witness:
  "snd (diagnose sample_crypto healthy_env (show_addr (V4 [10, 0, 0, 2] 3478)) ''k'' 5) = Inr ()"
proof -
  note parse = parse_show_v4 [of "[10, 0, 0, 2]" 3478]
  have "diagnose sample_crypto healthy_env (show_addr (V4 [10, 0, 0, 2] 3478)) ''k'' 5 =
      ([(1, True), (2, True), (3, True), (4, True), (5, True), (6, True)], Inr ())"
    using healthy_relay_passes [where env = healthy_env and addr = "show_addr (V4 [10, 0, 0, 2] 3478)" and
        sock = "V4 [10, 0, 0, 2] 3478" and mapped = "(3, None)" and b = new_bridge and cp = sample_crypto and secret = "''k''" and
        now = 5 and m = "[]" and parse = sample_parse and text_of = sample_text and unix = 5 and at = 0 and
        ip = "''1.1.1.1''" and c = 0 and ?h6.0 = "bridge_header ''LISTEN'' ''diagnose-bridge-rt''" and
        ?fp6.0 = "''diagnose-bridge-rt''"]
    by (simp add: parse healthy_env_def headers_parse new_bridge_def del: show_addr.simps reply_bytes.simps
        registry_step.simps bridge_handle.simps)
  then show ?thesis by simp
qed

end
