(* ===== verification/Tui.thy ===== *)
theory Tui
  imports Cli_Run
begin

text \<open>
  The event loop of the terminal interface, \<open>run\<close> and \<open>spawn_watchers\<close> of \<open>src/rust/cli/src/tui.rs\<close>: which feed
  of the core reaches the screen when.

  \<^item> A receiver of a watch channel is the number of values it has seen; the receivers of the core are clones of
    one that was never read, so they have seen the first value only.
  \<^item> Every session of the index gets a forwarder task, which copies the values it sees of the session's event
    channel into one queue of 256 places; the loop takes them from there.  A forwarder sends the value current
    at its start without marking it as seen, so it may send it twice.
  \<^item> \<open>select!\<close> takes any branch that is ready: the order of the events of a run is arbitrary.
\<close>

section \<open>The loop\<close>

record Forwarder =
  fo_id :: string
  fo_fresh :: bool
  fo_seen :: nat
  fo_hand :: "SessionEvent option"

record TuiSys =
  ts_core :: Actor
  ts_ui :: UiApp
  ts_index_seen :: nat
  ts_watched :: "string set"
  ts_forwarders :: "Forwarder list"
  ts_queue :: "(string \<times> SessionEvent) list"
  ts_quit :: bool

text \<open>What \<open>run\<close> does before the loop: with a target given on the command line the staged files are sent.\<close>

definition direct_send :: "KeyEnv \<Rightarrow> NodeDevice option \<Rightarrow> UiApp \<Rightarrow> Actor \<Rightarrow> UiApp \<times> Actor" where
  "direct_send env target a c =
     (case target of
        None \<Rightarrow> (a, c)
      | Some d \<Rightarrow>
          let files = ui_pending_files a; a1 = a\<lparr>ui_pending_files := []\<rparr> in
          if files = [] then (with_notice (''--to given without files; press '' @ [CHR 0x27] @ ''a'' @ [CHR 0x27] @ '' to add some'') a1, c)
          else
            (case send_files (ke_lower env) (ke_gen env) d (map (\<lambda>p. \<lparr>sf_path = p, sf_size = ke_meta env p\<rparr>) files) c of
               (c1, Inr (i, _)) \<Rightarrow> (with_notice (''sending to '' @ nd_alias d @ '' (session '' @ i @ '')'') a1, c1)
             | (c1, Inl e) \<Rightarrow> (with_notice (''send failed: '' @ show_send_error e) a1, c1)))"

definition tui_start :: "KeyEnv \<Rightarrow> string list \<Rightarrow> NodeDevice option \<Rightarrow> Actor \<Rightarrow> TuiSys" where
  "tui_start env files target c =
     (case direct_send env target (new_ui files) c of
        (a, c1) \<Rightarrow>
          \<lparr>ts_core = c1, ts_ui = a, ts_index_seen = 1, ts_watched = {}, ts_forwarders = [], ts_queue = [],
           ts_quit = False\<rparr>)"

text \<open>\<open>spawn_watchers\<close>\<close>

definition new_forwarder :: "string \<Rightarrow> Forwarder" where
  "new_forwarder i = \<lparr>fo_id = i, fo_fresh = True, fo_seen = 1, fo_hand = None\<rparr>"

definition watch_session :: "(nat \<Rightarrow> string) \<Rightarrow> Actor \<Rightarrow> SessionSummary \<Rightarrow> string set \<times> Forwarder list \<Rightarrow> string set \<times> Forwarder list" where
  "watch_session gen c s ws =
     (case ws of
        (watched, fos) \<Rightarrow>
          if sm_id s \<in> watched then (watched, fos)
          else (insert (sm_id s) watched,
                case session_events gen (sm_id s) c of
                  None \<Rightarrow> fos
                | Some _ \<Rightarrow> fos @ [new_forwarder (sm_id s)]))"

definition spawn_watchers ::
  "(nat \<Rightarrow> string) \<Rightarrow> Actor \<Rightarrow> SessionSummary list \<Rightarrow> string set \<times> Forwarder list \<Rightarrow> string set \<times> Forwarder list" where
  "spawn_watchers gen c index ws = fold (watch_session gen c) index ws"

text \<open>The two halves of a turn of a forwarder: it takes the current value of the channel, and puts it into the queue.\<close>

definition forwarder_reads :: "SessionEvent watch option \<Rightarrow> Forwarder \<Rightarrow> Forwarder" where
  "forwarder_reads w f =
     (case w of
        None \<Rightarrow> f
      | Some v \<Rightarrow>
          if fo_hand f \<noteq> None then f
          else if fo_fresh f then f\<lparr>fo_fresh := False, fo_hand := Some (watch_borrow v)\<rparr>
          else if fo_seen f < length v then f\<lparr>fo_seen := length v, fo_hand := Some (watch_borrow v)\<rparr>
          else f)"

definition queue_room :: nat where
  "queue_room = 256"

definition forwarder_sends :: "nat \<Rightarrow> TuiSys \<Rightarrow> TuiSys" where
  "forwarder_sends k s =
     (let f = ts_forwarders s ! k in
      case fo_hand f of
        None \<Rightarrow> s
      | Some e \<Rightarrow>
          if length (ts_queue s) < queue_room
          then s\<lparr>ts_queue := ts_queue s @ [(fo_id f, e)], ts_forwarders := (ts_forwarders s)[k := f\<lparr>fo_hand := None\<rparr>]\<rparr>
          else s)"

datatype TuiEvent =
  CoreHandles SessionMessage
| KeyPressed KeyCode bool
| DevicesChanged "NodeDevice list"
| IndexChanged
| EventReceived
| ForwarderReads nat
| ForwarderSends nat

text \<open>A step, and the events it applies to the cards.\<close>

fun tui_event :: "KeyEnv \<Rightarrow> TuiSys \<Rightarrow> TuiEvent \<Rightarrow> TuiSys \<times> (string \<times> SessionEvent) list" where
  "tui_event env s (CoreHandles m) = (s\<lparr>ts_core := fst (handle_message (ke_gen env) (ts_core s) m)\<rparr>, [])"
| "tui_event env s (KeyPressed key ctrl) =
     (if ts_quit s then (s, [])
      else case handle_key env key ctrl (ts_ui s) (ts_core s) of
             ((a, c), quit) \<Rightarrow> (s\<lparr>ts_ui := a, ts_core := c, ts_quit := quit\<rparr>, []))"
| "tui_event env s (DevicesChanged ds) =
     (if ts_quit s then s else s\<lparr>ts_ui := apply_devices ds (ts_ui s)\<rparr>, [])"
| "tui_event env s IndexChanged =
     (let w = session_index (ke_gen env) (ts_core s) in
      if ts_quit s \<or> \<not> ts_index_seen s < length w then (s, [])
      else case spawn_watchers (ke_gen env) (ts_core s) (watch_borrow w) (ts_watched s, ts_forwarders s) of
             (watched, fos) \<Rightarrow>
               (s\<lparr>ts_index_seen := length w, ts_watched := watched, ts_forwarders := fos,
                  ts_ui := apply_index (watch_borrow w) (ts_ui s)\<rparr>, []))"
| "tui_event env s EventReceived =
     (if ts_quit s then (s, [])
      else case ts_queue s of
             [] \<Rightarrow> (s, [])
           | (i, e) # q \<Rightarrow> (s\<lparr>ts_queue := q, ts_ui := apply_event i e (ts_ui s)\<rparr>, [(i, e)]))"
| "tui_event env s (ForwarderReads k) =
     (if k < length (ts_forwarders s)
      then s\<lparr>ts_forwarders := (ts_forwarders s)[k :=
             forwarder_reads (session_events (ke_gen env) (fo_id (ts_forwarders s ! k)) (ts_core s)) (ts_forwarders s ! k)]\<rparr>
      else s, [])"
| "tui_event env s (ForwarderSends k) = (if k < length (ts_forwarders s) then forwarder_sends k s else s, [])"

section \<open>How the core grows\<close>

text \<open>The state an event tells, and what the newest event of a session says of it.\<close>

fun event_state :: "SessionEvent \<Rightarrow> MissionState option" where
  "event_state (StateChanged st) = Some st"
| "event_state (EvFailed reason) = Some Failed"
| "event_state (FileStateChanged fid st) = None"
| "event_state (Progress fid n) = None"

definition events_ok :: "Actor \<Rightarrow> bool" where
  "events_ok c \<longleftrightarrow> (\<forall>i s. hget (a_sessions c) i = Some s \<longrightarrow> s_events s \<noteq> [] \<and>
     (\<forall>st. event_state (last (s_events s)) = Some st \<longrightarrow> s_state s = st))"

definition grows :: "Actor \<Rightarrow> Actor \<Rightarrow> bool" where
  "grows a b \<longleftrightarrow> (\<exists>ys. a_index b = a_index a @ ys) \<and>
     (\<forall>i s. hget (a_sessions a) i = Some s \<longrightarrow> (\<exists>s' xs. hget (a_sessions b) i = Some s' \<and> s_events s' = s_events s @ xs))"

lemma events_fold_emit: "s_events (fold (\<lambda>x. emit (f x)) xs s) = s_events s @ map f xs"
  by (induction xs arbitrary: s) simp_all

lemma sess_step_extends:
  "sess_step g s s' ds \<Longrightarrow> \<exists>xs. s_events s' = s_events s @ xs"
  by (induction rule: sess_step.induct)
    (auto simp: sess_defs Let_def events_fold_emit mark_file_def start_session_file_def split: option.splits if_splits)

lemma sess_step_event_state:
  assumes "sess_step g s s' ds" "\<And>st. event_state (last (s_events s)) = Some st \<Longrightarrow> s_state s = st"
    and "event_state (last (s_events s')) = Some st"
  shows "s_state s' = st"
  using assms
  by (induction rule: sess_step.induct)
    (auto simp: sess_defs Let_def mark_file_def start_session_file_def split: option.splits if_splits)

lemma events_ok_step: "actor_step g gen a b \<Longrightarrow> events_ok a \<Longrightarrow> events_ok b"
proof (induction rule: actor_step.induct)
  case (update a i s s' ds)
  then have old: "s_events s \<noteq> []" "\<And>st. event_state (last (s_events s)) = Some st \<Longrightarrow> s_state s = st"
    by (auto simp: events_ok_def)
  show ?case
    using update(3) sess_step_events [OF update(2) old(1)] sess_step_event_state [OF update(2) old(2)]
    by (auto simp: events_ok_def)
qed (auto simp: events_ok_def new_session_def watch_channel_def)

interpretation events_step: step_invariant False gen events_ok for gen
  by unfold_locales (rule events_ok_step)

lemma grows_refl [simp]: "grows a a"
  by (simp add: grows_def)

lemma grows_trans: "grows a b \<Longrightarrow> grows b c \<Longrightarrow> grows a c"
  unfolding grows_def by (metis append.assoc)

lemma grows_step:
  assumes "inj gen" and "actor_step g gen a b" and "ids_drawn gen a"
  shows "grows a b"
  using assms(2,3)
proof (induction rule: actor_step.induct)
  case (update a i s s' ds)
  then show ?case using sess_step_extends [OF update(2)] by (auto simp: grows_def)
next
  case (create_recv a files es idx n i peer)
  then show ?case using assms(1) by (auto simp: grows_def ids_drawn_def inj_eq)
next
  case (create_send i a peer es)
  then show ?case using assms(1) by (auto simp: grows_def ids_drawn_def inj_eq)
qed (simp add: grows_def broadcast_index_def watch_send_def)

lemma grows_steps:
  assumes "inj gen" and "actor_steps g gen a b" and "ids_drawn gen a"
  shows "grows a b \<and> ids_drawn gen b"
  using assms(2)
proof (induction rule: rtranclp_induct)
  case (step b c)
  then show ?case
    using grows_step [OF assms(1)] sessions_kept_step [OF assms(1)] grows_trans by (auto simp: sessions_kept_def)
qed (simp add: assms(3))

text \<open>What the terminal relies on of the core.\<close>

definition core_ok :: "(nat \<Rightarrow> string) \<Rightarrow> Actor \<Rightarrow> bool" where
  "core_ok gen c \<longleftrightarrow> session_inv gen c \<and> index_current c \<and> events_ok c"

lemma core_after_message:
  assumes "inj gen" "core_ok gen c" "msg_wf m"
  shows "core_ok gen (fst (handle_message gen c m)) \<and> grows c (fst (handle_message gen c m))"
proof -
  have "grows c (fst (handle_message gen c m))"
    using grows_steps [OF assms(1) handle_message_steps [OF assms(3), of gen c]] assms(2)
    by (simp add: core_ok_def session_inv_def)
  moreover have "session_inv gen (fst (handle_message gen c m))"
    using wf_step.I_message [of gen c m] assms by (simp add: core_ok_def)
  ultimately show ?thesis
    using index_actor.keeps [of c gen m] events_step.I_message [of c m gen] assms by (simp add: core_ok_def)
qed

text \<open>A key sends the core at most one message, after drawing ids for the files it sends.\<close>

definition core_next :: "(nat \<Rightarrow> string) \<Rightarrow> Actor \<Rightarrow> Actor \<Rightarrow> bool" where
  "core_next gen c c' \<longleftrightarrow>
     (\<exists>m n. a_uuid c \<le> n \<and> msg_wf m \<and> c' = fst (handle_message gen (c\<lparr>a_uuid := n\<rparr>) m))"

lemma core_next_same [simp]: "core_next gen c c"
  unfolding core_next_def by (intro exI [of _ "GetSession []"] exI [of _ "a_uuid c"]) simp

lemma core_next_message: "msg_wf m \<Longrightarrow> core_next gen c (fst (handle_message gen c m))"
  unfolding core_next_def by (intro exI [of _ m] exI [of _ "a_uuid c"]) simp

lemma core_next_ok:
  assumes "inj gen" "core_ok gen c" "core_next gen c c'"
  shows "core_ok gen c' \<and> grows c c'"
proof -
  obtain m n where n: "a_uuid c \<le> n" "msg_wf m" "c' = fst (handle_message gen (c\<lparr>a_uuid := n\<rparr>) m)"
    using assms(3) by (auto simp: core_next_def)
  let ?d = "c\<lparr>a_uuid := n\<rparr>"
  have inv: "session_inv gen c" using assms(2) by (simp add: core_ok_def)
  have "ids_drawn gen ?d"
    using inv n(1) by (auto simp: session_inv_def ids_drawn_def) (meson less_le_trans)
  moreover have "decisions_ok ?d" using inv by (simp add: session_inv_def decisions_ok_def)
  ultimately have "session_inv gen ?d"
    using inv sess_wf_mono [OF _ n(1)] by (simp add: session_inv_def)
  then have "core_ok gen ?d" "grows c ?d"
    using assms(2) by (simp_all add: core_ok_def index_current_def events_ok_def grows_def)
  then show ?thesis using core_after_message [OF assms(1) _ n(2), of ?d] grows_trans n(3) by blast
qed

lemma core_next_send: "core_next gen c (fst (send_files lower gen target files c))"
proof (cases "files = [] \<or> (\<exists>e. file_entries lower gen (a_uuid c) files = Inl e)")
  case True
  then show ?thesis by (auto simp: send_files_def)
next
  case False
  then obtain entries n where e: "files \<noteq> []" "file_entries lower gen (a_uuid c) files = Inr (entries, n)"
    by (cases "file_entries lower gen (a_uuid c) files") auto
  then have "fst (send_files lower gen target files c) = fst (handle_message gen (c\<lparr>a_uuid := n\<rparr>) (CreateSendSession target entries))"
    by (simp add: send_files_def create_send_session_def case_prod_beta)
  then show ?thesis
    unfolding core_next_def using file_entries_ids [OF e(2)]
    by (intro exI [of _ "CreateSendSession target entries"] exI [of _ n]) simp
qed

lemma fst_send_files: "send_files lower gen target files c = (c1, r) \<Longrightarrow> core_next gen c c1"
  using core_next_send [of gen c lower target files] by simp

lemma core_next_send_key: "core_next (ke_gen env) c (snd (send_key env idx a c))"
  by (auto simp: send_key_def Let_def dest: fst_send_files split: prod.split sum.split)

lemma core_next_answer:
  "core_next gen c (snd (answer_key t e (\<lambda>i. accept gen i None) a c))"
  "core_next gen c (snd (answer_key t e (decline gen) a c))"
  "core_next gen c (snd (cancel_key gen a c))"
proof -
  have "core_next gen c c1" if "accept gen i None c = (c1, r)" for i c1 r
    using core_next_message [of "Accept i None" gen c] that by (simp add: accept_def prod_eq_iff)
  moreover have "core_next gen c c1" if "decline gen i c = (c1, r)" for i c1 r
    using core_next_message [of "Decline i" gen c] that by (simp add: decline_def prod_eq_iff)
  moreover have "core_next gen c (cancel gen i c)" for i
    using core_next_message [of "Cancel i" gen c] by (simp add: cancel_def)
  ultimately show "core_next gen c (snd (answer_key t e (\<lambda>i. accept gen i None) a c))"
    "core_next gen c (snd (answer_key t e (decline gen) a c))" "core_next gen c (snd (cancel_key gen a c))"
    by (auto simp: answer_key_def cancel_key_def split: option.split prod.split sum.split)
qed

lemma core_next_key: "core_next (ke_gen env) c (snd (fst (handle_key env key ctrl a c)))"
proof -
  have "core_next (ke_gen env) c (snd (fst (normal_char env ctrl ch a c)))" for ch
    unfolding normal_char_def
    by (auto simp: core_next_answer core_next_send_key case_prod_beta split: list.split)
  then show ?thesis by (auto simp: handle_key_def split: InputMode.split KeyCode.split)
qed

lemma core_next_direct: "core_next (ke_gen env) c (snd (direct_send env target a c))"
  by (auto simp: direct_send_def Let_def dest: fst_send_files split: option.split prod.split sum.split)

text \<open>A key takes cards away only by hiding them.\<close>

definition cards_kept :: "UiApp \<Rightarrow> UiApp \<Rightarrow> bool" where
  "cards_kept a b \<longleftrightarrow> ui_hidden a \<subseteq> ui_hidden b \<and>
     ui_sessions b = filter (\<lambda>v. sv_id v \<notin> ui_hidden b) (ui_sessions a)"

lemma cards_kept_same:
  "ui_ok a \<Longrightarrow> ui_sessions b = ui_sessions a \<Longrightarrow> ui_hidden b = ui_hidden a \<Longrightarrow> cards_kept a b"
  by (auto simp: cards_kept_def ui_ok_def intro!: filter_True [symmetric])

lemma cards_kept_clear: "cards_kept a (fst (clear_terminal a))"
  by (simp add: cards_kept_def clear_terminal_def Let_def)

lemma cards_kept_key:
  assumes "ui_ok a"
  shows "cards_kept a (fst (fst (handle_key env key ctrl a c)))"
proof -
  note same = cards_kept_same [OF assms]
  have parts: "cards_kept a (prompt_key env k b a)" "cards_kept a (with_notice n a)" "cards_kept a (cycle_focus d a)"
    "cards_kept a (fst (answer_key t e op a c))" "cards_kept a (fst (cancel_key g a c))"
    "cards_kept a (fst (send_key env idx a c))" "cards_kept a a" "cards_kept a (a\<lparr>ui_input := m\<rparr>)"
    for k b n d t e op g idx m
    by (rule same; auto simp: prompt_key_def stage_files_def with_notice_def cycle_focus_def answer_key_def cancel_key_def
        send_key_def Let_def split: KeyCode.split option.split prod.split sum.split list.split)+
  have clear: "cards_kept a (with_notice n (fst (clear_terminal a)))" for n
    using cards_kept_clear [of a] by (simp add: cards_kept_def with_notice_def)
  have "cards_kept a (fst (fst (normal_char env ctrl ch a c)))" for ch
    unfolding normal_char_def by (simp add: parts clear case_prod_beta split: list.split)
  then show ?thesis by (simp add: handle_key_def parts split: InputMode.split KeyCode.split)
qed

section \<open>The invariant of the loop\<close>

text \<open>What a forwarder has yet to deliver: its places in the queue and what it holds.\<close>

definition pend :: "(string \<times> SessionEvent) list \<Rightarrow> Forwarder \<Rightarrow> SessionEvent list" where
  "pend q f = map snd (filter (\<lambda>x. fst x = fo_id f) q) @ (case fo_hand f of None \<Rightarrow> [] | Some e \<Rightarrow> [e])"

definition busy :: "Actor \<Rightarrow> (string \<times> SessionEvent) list \<Rightarrow> Forwarder \<Rightarrow> bool" where
  "busy c q f \<longleftrightarrow> fo_fresh f \<or> pend q f \<noteq> [] \<or>
     (\<exists>s. hget (a_sessions c) (fo_id f) = Some s \<and> fo_seen f < length (s_events s))"

definition fo_ok :: "Actor \<Rightarrow> (string \<times> SessionEvent) list \<Rightarrow> Forwarder \<Rightarrow> bool" where
  "fo_ok c q f \<longleftrightarrow> (\<exists>s. hget (a_sessions c) (fo_id f) = Some s \<and> fo_seen f \<le> length (s_events s) \<and>
     (fo_fresh f \<longrightarrow> pend q f = []) \<and>
     (\<not> fo_fresh f \<and> fo_seen f = length (s_events s) \<and> pend q f \<noteq> [] \<longrightarrow> last (pend q f) = last (s_events s)))"

definition shown :: "Actor \<Rightarrow> (string \<times> SessionEvent) list \<Rightarrow> Forwarder list \<Rightarrow> string \<Rightarrow> SessionView \<Rightarrow> Session \<Rightarrow> bool" where
  "shown c q fos i v s \<longleftrightarrow> sv_state v = s_state s \<or> event_state (last (s_events s)) = None \<or>
     (\<exists>f \<in> set fos. fo_id f = i \<and> busy c q f)"

definition tui_ok :: "(nat \<Rightarrow> string) \<Rightarrow> TuiSys \<Rightarrow> bool" where
  "tui_ok gen s \<longleftrightarrow> core_ok gen (ts_core s) \<and> ui_ok (ts_ui s) \<and>
     ts_index_seen s \<le> length (a_index (ts_core s)) \<and>
     ts_watched s = fo_id ` set (ts_forwarders s) \<and> distinct (map fo_id (ts_forwarders s)) \<and>
     (\<forall>f \<in> set (ts_forwarders s). fo_ok (ts_core s) (ts_queue s) f) \<and>
     (ts_index_seen s = length (a_index (ts_core s)) \<longrightarrow>
        (\<forall>i x. hget (a_sessions (ts_core s)) i = Some x \<longrightarrow> i \<in> ts_watched s) \<and>
        (\<forall>i x. hget (a_sessions (ts_core s)) i = Some x \<and> i \<notin> ui_hidden (ts_ui s) \<longrightarrow>
           (\<exists>v. view_of (ui_sessions (ts_ui s)) i = Some v \<and> shown (ts_core s) (ts_queue s) (ts_forwarders s) i v x)))"

lemma tui_ok_quit [simp]: "tui_ok gen (s\<lparr>ts_quit := b\<rparr>) = tui_ok gen s"
  by (simp add: tui_ok_def)

lemma tui_okI:
  assumes "core_ok gen (ts_core s)" "ui_ok (ts_ui s)" "ts_index_seen s \<le> length (a_index (ts_core s))"
    and "ts_watched s = fo_id ` set (ts_forwarders s)" "distinct (map fo_id (ts_forwarders s))"
    and "\<And>f. f \<in> set (ts_forwarders s) \<Longrightarrow> fo_ok (ts_core s) (ts_queue s) f"
    and "\<And>i x. ts_index_seen s = length (a_index (ts_core s)) \<Longrightarrow> hget (a_sessions (ts_core s)) i = Some x \<Longrightarrow> i \<in> ts_watched s"
    and "\<And>i x. ts_index_seen s = length (a_index (ts_core s)) \<Longrightarrow> hget (a_sessions (ts_core s)) i = Some x \<Longrightarrow>
      i \<notin> ui_hidden (ts_ui s) \<Longrightarrow>
      \<exists>v. view_of (ui_sessions (ts_ui s)) i = Some v \<and> shown (ts_core s) (ts_queue s) (ts_forwarders s) i v x"
  shows "tui_ok gen s"
  using assms unfolding tui_ok_def by blast

lemma tui_okD:
  assumes "tui_ok gen s"
  shows "core_ok gen (ts_core s)" "ui_ok (ts_ui s)" "ts_index_seen s \<le> length (a_index (ts_core s))"
    "ts_watched s = fo_id ` set (ts_forwarders s)" "distinct (map fo_id (ts_forwarders s))"
    "\<And>f. f \<in> set (ts_forwarders s) \<Longrightarrow> fo_ok (ts_core s) (ts_queue s) f"
    "\<And>i x. ts_index_seen s = length (a_index (ts_core s)) \<Longrightarrow> hget (a_sessions (ts_core s)) i = Some x \<Longrightarrow> i \<in> ts_watched s"
  using assms unfolding tui_ok_def by blast+

lemma tui_ok_card:
  assumes "tui_ok gen s" "ts_index_seen s = length (a_index (ts_core s))" "hget (a_sessions (ts_core s)) i = Some x"
    and "i \<notin> ui_hidden (ts_ui s)"
  shows "\<exists>v. view_of (ui_sessions (ts_ui s)) i = Some v \<and> shown (ts_core s) (ts_queue s) (ts_forwarders s) i v x"
  using assms unfolding tui_ok_def by blast

lemma same_index:
  assumes "core_ok gen c" "core_ok gen c'" "a_index c' = a_index c" "hget (a_sessions c') i = Some x'"
  shows "\<exists>x. hget (a_sessions c) i = Some x \<and> s_state x' = s_state x"
proof -
  have "index_list (a_sessions c') = index_list (a_sessions c)"
    using assms(1-3) by (simp add: core_ok_def index_current_def)
  then have "map_option summary (hget (a_sessions c') i) = map_option summary (hget (a_sessions c) i)"
    using find_index_list(1) assms(1,2) by (metis core_ok_def)
  then obtain x where x: "hget (a_sessions c) i = Some x" "summary x = summary x'"
    using assms(4) by (cases "hget (a_sessions c) i") auto
  then have "sm_state (summary x) = sm_state (summary x')" by simp
  then show ?thesis using x(1) by (simp add: summary_def)
qed

lemma fo_ok_grows: "fo_ok c q f \<Longrightarrow> grows c c' \<Longrightarrow> fo_ok c' q f"
  unfolding fo_ok_def grows_def by fastforce

lemma busy_grows: "busy c q f \<Longrightarrow> grows c c' \<Longrightarrow> busy c' q f"
  unfolding busy_def grows_def by fastforce

lemma tui_ok_core:
  assumes ok: "tui_ok gen s" and c': "core_ok gen c'" and g: "grows (ts_core s) c'"
  shows "tui_ok gen (s\<lparr>ts_core := c'\<rparr>)"
proof (rule tui_okI)
  let ?c = "ts_core s"
  obtain ys where ys: "a_index c' = a_index ?c @ ys" using g by (auto simp: grows_def)
  have same: "ts_index_seen s = length (a_index ?c) \<and> a_index c' = a_index ?c" if "ts_index_seen s = length (a_index c')"
    using that ys tui_okD(3) [OF ok] by simp
  show "ts_index_seen (s\<lparr>ts_core := c'\<rparr>) \<le> length (a_index (ts_core (s\<lparr>ts_core := c'\<rparr>)))"
    using tui_okD(3) [OF ok] ys by simp
  show "fo_ok (ts_core (s\<lparr>ts_core := c'\<rparr>)) (ts_queue (s\<lparr>ts_core := c'\<rparr>)) f" if "f \<in> set (ts_forwarders (s\<lparr>ts_core := c'\<rparr>))" for f
    using fo_ok_grows [OF tui_okD(6) [OF ok] g] that by simp
  fix i x'
  assume "ts_index_seen (s\<lparr>ts_core := c'\<rparr>) = length (a_index (ts_core (s\<lparr>ts_core := c'\<rparr>)))"
    and "hget (a_sessions (ts_core (s\<lparr>ts_core := c'\<rparr>))) i = Some x'"
  then have seen: "ts_index_seen s = length (a_index ?c)" and idx: "a_index c' = a_index ?c"
    and x': "hget (a_sessions c') i = Some x'" using same by simp_all
  obtain x where x: "hget (a_sessions ?c) i = Some x" "s_state x' = s_state x"
    using same_index [OF tui_okD(1) [OF ok] c' idx x'] by blast
  have watched: "i \<in> fo_id ` set (ts_forwarders s)" using tui_okD(7) [OF ok seen x(1)] tui_okD(4) [OF ok] by simp
  then show "i \<in> ts_watched (s\<lparr>ts_core := c'\<rparr>)" using tui_okD(4) [OF ok] by simp
  assume "i \<notin> ui_hidden (ts_ui (s\<lparr>ts_core := c'\<rparr>))"
  then obtain v where v: "view_of (ui_sessions (ts_ui s)) i = Some v" "shown ?c (ts_queue s) (ts_forwarders s) i v x"
    using tui_ok_card [OF ok seen x(1)] by auto
  obtain zs where zs: "s_events x' = s_events x @ zs" using g x(1) x' by (fastforce simp: grows_def)
  have "shown c' (ts_queue s) (ts_forwarders s) i v x'"
  proof (cases "zs = []")
    case True
    then show ?thesis using v(2) zs x(2) busy_grows [OF _ g] by (auto simp: shown_def)
  next
    case False
    obtain f where f: "f \<in> set (ts_forwarders s)" "fo_id f = i" using watched by blast
    then have "busy c' (ts_queue s) f"
      using tui_okD(6) [OF ok f(1)] x(1) x' zs False by (cases zs) (auto simp: fo_ok_def busy_def)
    then show ?thesis using f by (auto simp: shown_def)
  qed
  then show "\<exists>v. view_of (ui_sessions (ts_ui (s\<lparr>ts_core := c'\<rparr>))) i = Some v \<and>
      shown (ts_core (s\<lparr>ts_core := c'\<rparr>)) (ts_queue (s\<lparr>ts_core := c'\<rparr>)) (ts_forwarders (s\<lparr>ts_core := c'\<rparr>)) i v x'"
    using v(1) by simp
qed (use tui_okD [OF ok] c' in simp_all)

lemma view_of_kept: "cards_kept a b \<Longrightarrow> i \<notin> ui_hidden b \<Longrightarrow> view_of (ui_sessions b) i = view_of (ui_sessions a) i"
  using find_filter_key [of sv_id i "\<lambda>k. k \<notin> ui_hidden b" "ui_sessions a"] by (simp add: cards_kept_def view_of_def)

lemma tui_ok_ui:
  assumes ok: "tui_ok gen s" and "ui_ok a" and kept: "cards_kept (ts_ui s) a"
  shows "tui_ok gen (s\<lparr>ts_ui := a\<rparr>)"
proof (rule tui_okI)
  fix i x
  assume "ts_index_seen (s\<lparr>ts_ui := a\<rparr>) = length (a_index (ts_core (s\<lparr>ts_ui := a\<rparr>)))"
    "hget (a_sessions (ts_core (s\<lparr>ts_ui := a\<rparr>))) i = Some x" "i \<notin> ui_hidden (ts_ui (s\<lparr>ts_ui := a\<rparr>))"
  then show "\<exists>v. view_of (ui_sessions (ts_ui (s\<lparr>ts_ui := a\<rparr>))) i = Some v \<and>
      shown (ts_core (s\<lparr>ts_ui := a\<rparr>)) (ts_queue (s\<lparr>ts_ui := a\<rparr>)) (ts_forwarders (s\<lparr>ts_ui := a\<rparr>)) i v x"
    using tui_ok_card [OF ok, of i x] view_of_kept [OF kept, of i] kept by (auto simp: cards_kept_def)
qed (use tui_okD [OF ok] assms(2) in simp_all)

text \<open>The steps of a forwarder change neither the core nor the screen.\<close>

lemma tui_ok_forward:
  assumes ok: "tui_ok gen s" and k: "k < length (ts_forwarders s)" and f: "f = ts_forwarders s ! k"
    and f': "fo_id f' = fo_id f" "fo_ok (ts_core s) q' f'" "busy (ts_core s) (ts_queue s) f \<Longrightarrow> busy (ts_core s) q' f'"
    and other: "\<And>g. fo_id g \<noteq> fo_id f \<Longrightarrow> pend q' g = pend (ts_queue s) g"
  shows "tui_ok gen (s\<lparr>ts_queue := q', ts_forwarders := (ts_forwarders s)[k := f']\<rparr>)"
proof (rule tui_okI)
  let ?s = "s\<lparr>ts_queue := q', ts_forwarders := (ts_forwarders s)[k := f']\<rparr>" and ?fos = "ts_forwarders s"
  have ids: "map fo_id (?fos[k := f']) = map fo_id ?fos"
    using k f f'(1) by (simp add: map_update list_update_same_conv)
  have upd: "g = f' \<or> g \<in> set ?fos \<and> fo_id g \<noteq> fo_id f" if g: "g \<in> set (?fos[k := f'])" for g
  proof -
    obtain n where n: "n < length ?fos" "g = ?fos[k := f'] ! n" using g by (auto simp: in_set_conv_nth)
    show ?thesis
    proof (cases "n = k")
      case False
      then have "fo_id (?fos ! n) \<noteq> fo_id f"
        using nth_eq_iff_index_eq [OF tui_okD(5) [OF ok]] n(1) k f by simp
      then show ?thesis using n False by simp
    qed (use n k in simp)
  qed
  have busy_eq: "busy (ts_core s) q' g = busy (ts_core s) (ts_queue s) g" if "fo_id g \<noteq> fo_id f" for g
    using other [OF that] by (simp add: busy_def)
  show "distinct (map fo_id (ts_forwarders ?s))" using tui_okD(5) [OF ok] ids by simp
  have "fo_id ` set (?fos[k := f']) = fo_id ` set ?fos" using ids by (metis set_map)
  then show "ts_watched ?s = fo_id ` set (ts_forwarders ?s)" using tui_okD(4) [OF ok] by simp
  show "fo_ok (ts_core ?s) (ts_queue ?s) g" if "g \<in> set (ts_forwarders ?s)" for g
    using upd [of g] that f'(2) tui_okD(6) [OF ok, of g] other [of g] by (auto simp: fo_ok_def)
  fix i x
  assume "ts_index_seen ?s = length (a_index (ts_core ?s))" "hget (a_sessions (ts_core ?s)) i = Some x"
    "i \<notin> ui_hidden (ts_ui ?s)"
  then obtain v where v: "view_of (ui_sessions (ts_ui s)) i = Some v" "shown (ts_core s) (ts_queue s) ?fos i v x"
    using tui_ok_card [OF ok, of i x] by auto
  have "\<exists>g \<in> set (?fos[k := f']). fo_id g = i \<and> busy (ts_core s) q' g"
    if g: "g \<in> set ?fos" "fo_id g = i" "busy (ts_core s) (ts_queue s) g" for g
  proof (cases "fo_id g = fo_id f")
    case True
    then have "g = f" using g(1) k f tui_okD(5) [OF ok] by (metis distinct_map inj_onD nth_mem)
    then show ?thesis using g f' set_update_memI [OF k] by blast
  next
    case False
    then obtain n where n: "n < length ?fos" "g = ?fos ! n" "n \<noteq> k" using g(1) f by (auto simp: in_set_conv_nth)
    then have "g \<in> set (?fos[k := f'])" by (metis length_list_update nth_list_update_neq nth_mem)
    then show ?thesis using g busy_eq [OF False] by blast
  qed
  then have "shown (ts_core s) q' (?fos[k := f']) i v x" using v(2) unfolding shown_def by blast
  then show "\<exists>v. view_of (ui_sessions (ts_ui ?s)) i = Some v \<and> shown (ts_core ?s) (ts_queue ?s) (ts_forwarders ?s) i v x"
    using v(1) by simp
qed (use tui_okD [OF ok] in simp_all)

lemma tui_ok_reads:
  assumes ok: "tui_ok gen s" and k: "k < length (ts_forwarders s)"
  shows "tui_ok gen (s\<lparr>ts_forwarders := (ts_forwarders s)[k :=
     forwarder_reads (session_events gen (fo_id (ts_forwarders s ! k)) (ts_core s)) (ts_forwarders s ! k)]\<rparr>)"
proof -
  let ?f = "ts_forwarders s ! k"
  let ?g = "forwarder_reads (session_events gen (fo_id ?f) (ts_core s)) ?f"
  obtain x where x: "hget (a_sessions (ts_core s)) (fo_id ?f) = Some x" "fo_seen ?f \<le> length (s_events x)"
    "fo_fresh ?f \<longrightarrow> pend (ts_queue s) ?f = []"
    "\<not> fo_fresh ?f \<and> fo_seen ?f = length (s_events x) \<and> pend (ts_queue s) ?f \<noteq> [] \<longrightarrow> last (pend (ts_queue s) ?f) = last (s_events x)"
    using tui_okD(6) [OF ok nth_mem [OF k]] by (auto simp: fo_ok_def)
  have w: "session_events gen (fo_id ?f) (ts_core s) = Some (s_events x)" using x(1) by (simp add: session_events_def)
  have "fo_id ?g = fo_id ?f" by (simp add: w forwarder_reads_def)
  moreover have "fo_ok (ts_core s) (ts_queue s) ?g"
    using x by (auto simp: w forwarder_reads_def fo_ok_def pend_def watch_borrow_def)
  moreover have "busy (ts_core s) (ts_queue s) ?g" if "busy (ts_core s) (ts_queue s) ?f"
    using that x by (auto simp: w forwarder_reads_def busy_def pend_def)
  ultimately show ?thesis
    using tui_ok_forward [OF ok k refl, of ?g "ts_queue s"] by simp
qed

lemma tui_ok_sends:
  assumes ok: "tui_ok gen s" and k: "k < length (ts_forwarders s)"
  shows "tui_ok gen (forwarder_sends k s)"
proof (cases "fo_hand (ts_forwarders s ! k)")
  case None
  then show ?thesis using ok by (simp add: forwarder_sends_def)
next
  case (Some e)
  let ?f = "ts_forwarders s ! k"
  have same: "pend (ts_queue s @ [(fo_id ?f, e)]) (?f\<lparr>fo_hand := None\<rparr>) = pend (ts_queue s) ?f"
    by (simp add: pend_def Some)
  have "fo_ok (ts_core s) (ts_queue s @ [(fo_id ?f, e)]) (?f\<lparr>fo_hand := None\<rparr>)"
    using tui_okD(6) [OF ok nth_mem [OF k]] by (simp add: fo_ok_def same)
  moreover have "busy (ts_core s) (ts_queue s @ [(fo_id ?f, e)]) (?f\<lparr>fo_hand := None\<rparr>) = busy (ts_core s) (ts_queue s) ?f"
    by (simp add: busy_def same)
  moreover have "pend (ts_queue s @ [(fo_id ?f, e)]) g = pend (ts_queue s) g" if "fo_id g \<noteq> fo_id ?f" for g
    using that by (simp add: pend_def)
  ultimately show ?thesis
    using tui_ok_forward [OF ok k refl, of "?f\<lparr>fo_hand := None\<rparr>" "ts_queue s @ [(fo_id ?f, e)]"] ok
    by (simp add: forwarder_sends_def Some Let_def)
qed

lemma view_of_event: "view_of (ui_sessions (apply_event i e a)) j =
    (if i = j then map_option (view_event e) (view_of (ui_sessions a) j) else view_of (ui_sessions a) j)"
  by (simp add: apply_event_def view_of_def find_update_first)

lemma event_view_state: "sv_state (view_event e v) = (case event_state e of None \<Rightarrow> sv_state v | Some st \<Rightarrow> st)"
  by (cases e) (auto simp: Let_def split: FileState.split)

lemma tui_ok_received:
  assumes ok: "tui_ok gen s" and q: "ts_queue s = (i, e) # q"
  shows "tui_ok gen (s\<lparr>ts_queue := q, ts_ui := apply_event i e (ts_ui s)\<rparr>)"
proof (rule tui_okI)
  let ?s = "s\<lparr>ts_queue := q, ts_ui := apply_event i e (ts_ui s)\<rparr>"
  have pend: "pend (ts_queue s) f = (if fo_id f = i then e # pend q f else pend q f)" for f
    by (auto simp: pend_def q)
  show "ui_ok (ts_ui ?s)" using ui_ok_step [OF tui_okD(2) [OF ok], of "UiEvent i e"] by simp
  show "fo_ok (ts_core ?s) (ts_queue ?s) f" if "f \<in> set (ts_forwarders ?s)" for f
    using tui_okD(6) [OF ok, of f] that by (auto simp: fo_ok_def pend split: if_splits)
  fix j x
  assume seen: "ts_index_seen ?s = length (a_index (ts_core ?s))" and x: "hget (a_sessions (ts_core ?s)) j = Some x"
    and vis: "j \<notin> ui_hidden (ts_ui ?s)"
  then obtain v where v: "view_of (ui_sessions (ts_ui s)) j = Some v" "shown (ts_core s) (ts_queue s) (ts_forwarders s) j v x"
    using tui_ok_card [OF ok, of j x] by (auto simp: apply_event_def)
  obtain f where f: "f \<in> set (ts_forwarders s)" "fo_id f = j"
    using tui_okD(7) [OF ok, of j x] tui_okD(4) [OF ok] seen x by auto
  have last: "s_state x = st" if "event_state (last (s_events x)) = Some st" for st
    using tui_okD(1) [OF ok] x that by (simp add: core_ok_def events_ok_def)
  show "\<exists>v. view_of (ui_sessions (ts_ui ?s)) j = Some v \<and> shown (ts_core ?s) (ts_queue ?s) (ts_forwarders ?s) j v x"
  proof (cases "i = j")
    case False
    then have "busy (ts_core s) (ts_queue s) g = busy (ts_core s) q g" if "fo_id g = j" for g
      using that by (simp add: busy_def pend)
    then show ?thesis using v False by (auto simp: view_of_event shown_def)
  next
    case True
    have "shown (ts_core s) q (ts_forwarders s) j (view_event e v) x"
    proof (cases "busy (ts_core s) q f")
      case False
      then have "e = last (s_events x)"
        using tui_okD(6) [OF ok f(1)] f(2) True x by (simp add: fo_ok_def busy_def pend)
      then show ?thesis using last by (cases "event_state e") (auto simp: shown_def event_view_state)
    qed (use f in \<open>auto simp: shown_def\<close>)
    then show ?thesis using v(1) True by (simp add: view_of_event)
  qed
qed (use tui_okD [OF ok] in simp_all)

lemma new_forwarder_simps [simp]:
  "fo_id (new_forwarder i) = i" "fo_fresh (new_forwarder i)" "fo_seen (new_forwarder i) = 1" "fo_hand (new_forwarder i) = None"
  by (simp_all add: new_forwarder_def)

lemma spawned:
  assumes "\<And>s. s \<in> set index \<Longrightarrow> hget (a_sessions c) (sm_id s) \<noteq> None"
    and "spawn_watchers gen c index (fo_id ` set fos, fos) = (w', fos')" and "distinct (map fo_id fos)"
  shows "\<exists>is. fos' = fos @ map new_forwarder is \<and> w' = fo_id ` set fos' \<and> distinct (map fo_id fos') \<and>
    w' = fo_id ` set fos \<union> sm_id ` set index"
  using assms
proof (induction index arbitrary: fos)
  case Nil
  then show ?case by (auto simp: spawn_watchers_def intro!: exI [of _ "[]"])
next
  case (Cons s index)
  let ?i = "sm_id s"
  show ?case
  proof (cases "?i \<in> fo_id ` set fos")
    case True
    then have "spawn_watchers gen c index (fo_id ` set fos, fos) = (w', fos')"
      using Cons.prems(2) by (simp add: spawn_watchers_def watch_session_def)
    from Cons.IH [OF _ this Cons.prems(3)] Cons.prems(1) True show ?thesis by auto
  next
    case False
    let ?fos = "fos @ [new_forwarder ?i]"
    have "session_events gen ?i c \<noteq> None" using Cons.prems(1) by (simp add: session_events_def)
    then have sp: "spawn_watchers gen c index (fo_id ` set ?fos, ?fos) = (w', fos')"
      using Cons.prems(2) False by (auto simp: spawn_watchers_def watch_session_def new_forwarder_def)
    have dist: "distinct (map fo_id ?fos)" using False Cons.prems(3) by simp
    have ex: "hget (a_sessions c) (sm_id z) \<noteq> None" if "z \<in> set index" for z using Cons.prems(1) that by simp
    from Cons.IH [OF ex sp dist]
    obtain "is" where new: "fos' = ?fos @ map new_forwarder is" "w' = fo_id ` set fos'" "distinct (map fo_id fos')"
      "w' = fo_id ` set ?fos \<union> sm_id ` set index" by blast
    show ?thesis
    proof (intro exI conjI)
      show "fos' = fos @ map new_forwarder (?i # is)" by (simp add: new(1))
      show "w' = fo_id ` set fos \<union> sm_id ` set (s # index)" by (simp add: new(4))
    qed (rule new)+
  qed
qed

lemma watched_mono: "fst ws \<subseteq> fst (spawn_watchers gen c index ws)"
proof (induction index arbitrary: ws)
  case (Cons s index)
  have "fst ws \<subseteq> fst (watch_session gen c s ws)" by (auto simp: watch_session_def split: prod.split)
  then show ?case using Cons [of "watch_session gen c s ws"] by (auto simp: spawn_watchers_def)
qed (simp add: spawn_watchers_def)

text \<open>A turn with a changed index brings every card up to date and gives every session a forwarder.\<close>

lemma tui_ok_index:
  assumes ok: "tui_ok gen s" and q: "fst ` set (ts_queue s) \<subseteq> ts_watched s"
    and sp: "spawn_watchers gen (ts_core s) (watch_borrow (session_index gen (ts_core s))) (ts_watched s, ts_forwarders s) = (w', fos')"
  shows "tui_ok gen (s\<lparr>ts_index_seen := length (session_index gen (ts_core s)), ts_watched := w', ts_forwarders := fos',
    ts_ui := apply_index (watch_borrow (session_index gen (ts_core s))) (ts_ui s)\<rparr>)"
proof (rule tui_okI)
  let ?index = "index_list (a_sessions (ts_core s))"
  let ?s = "s\<lparr>ts_index_seen := length (session_index gen (ts_core s)), ts_watched := w', ts_forwarders := fos',
    ts_ui := apply_index (watch_borrow (session_index gen (ts_core s))) (ts_ui s)\<rparr>"
  have inv: "session_inv gen (ts_core s)" and idx: "watch_borrow (session_index gen (ts_core s)) = ?index"
    using tui_okD(1) [OF ok] by (simp_all add: core_ok_def index_current_def session_index_def)
  note find = find_index_list [OF inv]
  have ids: "(i \<in> sm_id ` set ?index) = (hget (a_sessions (ts_core s)) i \<noteq> None)" for i
    using find(1) [of i] find_None_key [of sm_id i ?index] by simp
  have ex: "hget (a_sessions (ts_core s)) (sm_id z) \<noteq> None" if "z \<in> set ?index" for z using ids [of "sm_id z"] that by auto
  have sp': "spawn_watchers gen (ts_core s) ?index (fo_id ` set (ts_forwarders s), ts_forwarders s) = (w', fos')"
    using sp tui_okD(4) [OF ok] by (simp add: idx)
  from spawned [OF ex sp' tui_okD(5) [OF ok]]
  obtain "is" where new: "fos' = ts_forwarders s @ map new_forwarder is" "w' = fo_id ` set fos'" "distinct (map fo_id fos')"
    "w' = fo_id ` set (ts_forwarders s) \<union> sm_id ` set ?index" by blast
  show "ui_ok (ts_ui ?s)" using ui_ok_step [OF tui_okD(2) [OF ok], of "UiIndex ?index"] by (simp add: idx)
  show "ts_watched ?s = fo_id ` set (ts_forwarders ?s)" "distinct (map fo_id (ts_forwarders ?s))"
    using new(2,3) by simp_all
  show "fo_ok (ts_core ?s) (ts_queue ?s) f" if mem: "f \<in> set (ts_forwarders ?s)" for f
  proof (cases "f \<in> set (ts_forwarders s)")
    case True
    then show ?thesis using tui_okD(6) [OF ok] by simp
  next
    case False
    then obtain i where f: "f = new_forwarder i" "i \<in> set is" using mem new(1) by auto
    then have "i \<notin> ts_watched s" using new(1,3) tui_okD(4) [OF ok] by auto
    then have p: "pend (ts_queue s) f = []" using q f(1) by (force simp: pend_def filter_empty_conv)
    have "i \<in> w'" using new(1,2) f(2) by (simp add: image_Un image_image)
    then have "i \<in> sm_id ` set ?index" using new(4) \<open>i \<notin> ts_watched s\<close> tui_okD(4) [OF ok] by simp
    then obtain x where x: "hget (a_sessions (ts_core s)) i = Some x" using ids [of i] by auto
    have "s_events x \<noteq> []" using tui_okD(1) [OF ok] x by (simp add: core_ok_def events_ok_def)
    then show ?thesis using f(1) x p by (simp add: fo_ok_def Suc_le_eq)
  qed
  fix i x
  assume x: "hget (a_sessions (ts_core ?s)) i = Some x"
  then show "i \<in> ts_watched ?s" using new(4) ids [of i] by simp
  assume "i \<notin> ui_hidden (ts_ui ?s)"
  then have "view_of (ui_sessions (ts_ui ?s)) i = Some (refreshed (summary x) (view_of (ui_sessions (ts_ui s)) i))"
    using view_of_apply_index [OF find(2), of "ts_ui s" i] find(1) [of i] x by (simp add: idx)
  moreover have "sv_state (refreshed (summary x) old) = s_state x" for old
    by (simp add: refreshed_def update_from_summary_def from_summary_def summary_def split: option.split)
  ultimately show "\<exists>v. view_of (ui_sessions (ts_ui ?s)) i = Some v \<and> shown (ts_core ?s) (ts_queue ?s) (ts_forwarders ?s) i v x"
    by (simp add: shown_def)
qed (use tui_okD [OF ok] in \<open>simp_all add: session_index_def\<close>)

definition tui_inv :: "(nat \<Rightarrow> string) \<Rightarrow> TuiSys \<Rightarrow> bool" where
  "tui_inv gen s \<longleftrightarrow> tui_ok gen s \<and> fst ` set (ts_queue s) \<subseteq> ts_watched s"

fun event_wf :: "TuiEvent \<Rightarrow> bool" where
  "event_wf (CoreHandles m) = msg_wf m"
| "event_wf _ = True"

lemma tui_inv_event:
  assumes inj: "inj (ke_gen env)" and inv: "tui_inv (ke_gen env) s" and "event_wf ev"
  shows "tui_inv (ke_gen env) (fst (tui_event env s ev))"
proof -
  have ok: "tui_ok (ke_gen env) s" and q: "fst ` set (ts_queue s) \<subseteq> ts_watched s"
    using inv by (simp_all add: tui_inv_def)
  note D = tui_okD [OF ok]
  show ?thesis
  proof (cases ev)
    case (CoreHandles m)
    then show ?thesis
      using tui_ok_core [OF ok] core_after_message [OF inj D(1), of m] assms(3) q by (simp add: tui_inv_def)
  next
    case (KeyPressed key ctrl)
    obtain a c quit where h: "handle_key env key ctrl (ts_ui s) (ts_core s) = ((a, c), quit)" by (metis surj_pair)
    have "core_ok (ke_gen env) c \<and> grows (ts_core s) c"
      using core_next_ok [OF inj D(1)] core_next_key [of env "ts_core s" key ctrl "ts_ui s"] h by simp
    then have "tui_ok (ke_gen env) (s\<lparr>ts_core := c\<rparr>)" using tui_ok_core [OF ok] by blast
    moreover have "ui_ok a" "cards_kept (ts_ui s) a"
      using handle_key_ok [OF D(2), of env key ctrl "ts_core s"] cards_kept_key [OF D(2), of env key ctrl "ts_core s"] h by simp_all
    ultimately have "tui_ok (ke_gen env) (s\<lparr>ts_core := c, ts_ui := a\<rparr>)"
      using tui_ok_ui [of "ke_gen env" "s\<lparr>ts_core := c\<rparr>" a] by simp
    then have "tui_ok (ke_gen env) (s\<lparr>ts_core := c, ts_ui := a, ts_quit := quit\<rparr>)" by simp
    moreover have "s\<lparr>ts_core := c, ts_ui := a, ts_quit := quit\<rparr> = s\<lparr>ts_ui := a, ts_core := c, ts_quit := quit\<rparr>" by simp
    ultimately show ?thesis using h q ok KeyPressed by (simp add: tui_inv_def)
  next
    case (DevicesChanged ds)
    have "cards_kept (ts_ui s) (apply_devices ds (ts_ui s))"
      by (rule cards_kept_same [OF D(2)]) (simp_all add: apply_devices_def)
    then show ?thesis
      using tui_ok_ui [OF ok, of "apply_devices ds (ts_ui s)"] ui_ok_step [OF D(2), of "UiDevices ds"] ok q DevicesChanged
      by (simp add: tui_inv_def)
  next
    case IndexChanged
    obtain w' fos' where sp: "spawn_watchers (ke_gen env) (ts_core s) (watch_borrow (session_index (ke_gen env) (ts_core s)))
        (ts_watched s, ts_forwarders s) = (w', fos')" by fastforce
    have "ts_watched s \<subseteq> w'" using watched_mono [of "(ts_watched s, ts_forwarders s)"] sp by (metis fst_conv)
    then show ?thesis using tui_ok_index [OF ok q sp] sp ok q IndexChanged by (auto simp: tui_inv_def Let_def)
  next
    case EventReceived
    then show ?thesis using tui_ok_received [OF ok] ok q
      by (cases "ts_queue s") (auto simp: tui_inv_def split: prod.split)
  next
    case (ForwarderReads k)
    then show ?thesis using tui_ok_reads [OF ok] ok q by (simp add: tui_inv_def)
  next
    case (ForwarderSends k)
    then show ?thesis using tui_ok_sends [OF ok] ok q D(4)
      by (auto simp: tui_inv_def forwarder_sends_def Let_def split: option.split)
  qed
qed

lemma tui_inv_run:
  assumes "inj (ke_gen env)" "tui_inv (ke_gen env) s" "list_all event_wf es"
  shows "tui_inv (ke_gen env) (fst (run_actor (tui_event env) s es))"
  using assms(2,3) by (induction es arbitrary: s) (auto intro: tui_inv_event [OF assms(1)] simp del: tui_event.simps)

section \<open>Coming to rest\<close>

text \<open>Nothing is on its way from the core to the screen.\<close>

definition quiet :: "TuiSys \<Rightarrow> bool" where
  "quiet s \<longleftrightarrow> ts_index_seen s = length (a_index (ts_core s)) \<and> ts_queue s = [] \<and>
     (\<forall>f \<in> set (ts_forwarders s). \<not> busy (ts_core s) [] f)"

text \<open>The steps of the loop and of the forwarders, without keys, the core or new devices.\<close>

fun internal :: "TuiEvent \<Rightarrow> bool" where
  "internal IndexChanged = True"
| "internal EventReceived = True"
| "internal (ForwarderReads k) = True"
| "internal (ForwarderSends k) = True"
| "internal _ = False"

definition settle_forwarder :: "nat \<Rightarrow> TuiEvent list" where
  "settle_forwarder k =
     [ForwarderSends k, EventReceived, ForwarderReads k, ForwarderSends k, EventReceived, ForwarderReads k,
      ForwarderSends k, EventReceived]"

definition emptied :: "Forwarder \<Rightarrow> Forwarder" where
  "emptied f = f\<lparr>fo_hand := None\<rparr>"

definition calm :: "SessionEvent watch option \<Rightarrow> Forwarder \<Rightarrow> Forwarder" where
  "calm w f = emptied (forwarder_reads w (emptied (forwarder_reads w (emptied f))))"

definition with_fo :: "TuiSys \<Rightarrow> nat \<Rightarrow> Forwarder \<Rightarrow> UiApp \<Rightarrow> TuiSys" where
  "with_fo s k g a = s\<lparr>ts_ui := a, ts_forwarders := (ts_forwarders s)[k := g], ts_queue := []\<rparr>"

lemma with_fo_simps [simp]:
  "ts_ui (with_fo s k g a) = a" "ts_forwarders (with_fo s k g a) = (ts_forwarders s)[k := g]" "ts_queue (with_fo s k g a) = []"
  "ts_core (with_fo s k g a) = ts_core s" "ts_index_seen (with_fo s k g a) = ts_index_seen s"
  "ts_watched (with_fo s k g a) = ts_watched s" "ts_quit (with_fo s k g a) = ts_quit s"
  by (simp_all add: with_fo_def)

lemma with_fo_id: "ts_queue s = [] \<Longrightarrow> with_fo s k (ts_forwarders s ! k) (ts_ui s) = s"
  by (rule TuiSys.equality) simp_all

lemma fo_id_simps [simp]: "fo_id (emptied g) = fo_id g" "fo_id (forwarder_reads w g) = fo_id g"
  by (simp_all add: emptied_def forwarder_reads_def split: option.split)

lemma settle_read:
  assumes "k < length (ts_forwarders s)"
    and "\<exists>d. fst (run_actor (tui_event env) (with_fo s k (forwarder_reads (session_events (ke_gen env) (fo_id g) (ts_core s)) g) a) es) =
      with_fo s k h d"
  shows "\<exists>d. fst (run_actor (tui_event env) (with_fo s k g a) (ForwarderReads k # es)) = with_fo s k h d"
proof -
  have "fst (tui_event env (with_fo s k g a) (ForwarderReads k)) =
      with_fo s k (forwarder_reads (session_events (ke_gen env) (fo_id g) (ts_core s)) g) a"
    by (rule TuiSys.equality) (simp_all add: assms(1))
  then show ?thesis using assms(2) by (simp del: tui_event.simps)
qed

lemma settle_deliver:
  assumes "k < length (ts_forwarders s)" "\<not> ts_quit s"
    and rest: "\<And>b. \<exists>d. fst (run_actor (tui_event env) (with_fo s k (emptied g) b) es) = with_fo s k h d"
  shows "\<exists>d. fst (run_actor (tui_event env) (with_fo s k g a) (ForwarderSends k # EventReceived # es)) = with_fo s k h d"
proof -
  have "\<exists>b. fst (tui_event env (fst (tui_event env (with_fo s k g a) (ForwarderSends k))) EventReceived) = with_fo s k (emptied g) b"
  proof (cases "fo_hand g")
    case None
    then have "emptied g = g" by (simp add: emptied_def)
    then show ?thesis using assms None by (auto simp: forwarder_sends_def)
  next
    case (Some e)
    then show ?thesis
      using assms by (intro exI [of _ "apply_event (fo_id g) e a"])
        (rule TuiSys.equality; simp add: forwarder_sends_def queue_room_def emptied_def)
  qed
  then show ?thesis using rest by (auto simp del: tui_event.simps)
qed

lemma settle_one:
  assumes "\<not> ts_quit s" "ts_queue s = []" "k < length (ts_forwarders s)"
  shows "\<exists>a. fst (run_actor (tui_event env) s (settle_forwarder k)) =
    with_fo s k (calm (session_events (ke_gen env) (fo_id (ts_forwarders s ! k)) (ts_core s)) (ts_forwarders s ! k)) a"
proof -
  let ?f = "ts_forwarders s ! k"
  have "\<exists>d. fst (run_actor (tui_event env) (with_fo s k ?f (ts_ui s)) (settle_forwarder k)) =
      with_fo s k (calm (session_events (ke_gen env) (fo_id ?f) (ts_core s)) ?f) d"
    unfolding settle_forwarder_def calm_def
    by (intro settle_deliver settle_read assms) (auto simp: assms)
  then show ?thesis by (simp add: with_fo_id [OF assms(2)])
qed

lemma settle_all:
  fixes env :: KeyEnv
  assumes "\<not> ts_quit s" "ts_queue s = []" "n \<le> length (ts_forwarders s)"
  defines "s' \<equiv> fst (run_actor (tui_event env) s (concat (map settle_forwarder [0..<n])))"
  shows "ts_core s' = ts_core s \<and> ts_index_seen s' = ts_index_seen s \<and> ts_queue s' = [] \<and> \<not> ts_quit s' \<and>
    length (ts_forwarders s') = length (ts_forwarders s) \<and>
    (\<forall>j < length (ts_forwarders s). ts_forwarders s' ! j =
       (if j < n then calm (session_events (ke_gen env) (fo_id (ts_forwarders s ! j)) (ts_core s)) (ts_forwarders s ! j)
        else ts_forwarders s ! j))"
  using assms(3) unfolding s'_def
proof (induction n)
  case (Suc n)
  let ?t = "fst (run_actor (tui_event env) s (concat (map settle_forwarder [0..<n])))"
  have IH: "ts_core ?t = ts_core s" "ts_index_seen ?t = ts_index_seen s" "ts_queue ?t = []" "\<not> ts_quit ?t"
    "length (ts_forwarders ?t) = length (ts_forwarders s)"
    "\<forall>j < length (ts_forwarders s). ts_forwarders ?t ! j =
       (if j < n then calm (session_events (ke_gen env) (fo_id (ts_forwarders s ! j)) (ts_core s)) (ts_forwarders s ! j)
        else ts_forwarders s ! j)"
    using Suc by auto
  have n: "n < length (ts_forwarders ?t)" "ts_forwarders ?t ! n = ts_forwarders s ! n" using IH(5,6) Suc.prems by auto
  obtain a where a: "fst (run_actor (tui_event env) ?t (settle_forwarder n)) =
      with_fo ?t n (calm (session_events (ke_gen env) (fo_id (ts_forwarders s ! n)) (ts_core s)) (ts_forwarders s ! n)) a"
    using settle_one [OF IH(4,3) n(1)] n(2) IH(1) by auto
  have "fst (run_actor (tui_event env) s (concat (map settle_forwarder [0..<Suc n]))) =
      with_fo ?t n (calm (session_events (ke_gen env) (fo_id (ts_forwarders s ! n)) (ts_core s)) (ts_forwarders s ! n)) a"
    by (simp add: fst_run_actor_append a)
  then show ?case using IH n(1) by (simp add: nth_list_update less_Suc_eq)
qed (simp_all add: assms)

lemma calm_not_busy:
  assumes "hget (a_sessions c) (fo_id f) = Some x" "fo_seen f \<le> length (s_events x)"
  shows "\<not> busy c [] (calm (session_events gen (fo_id f) c) f)"
  using assms by (auto simp: busy_def calm_def emptied_def forwarder_reads_def session_events_def pend_def)

lemma drained:
  assumes "\<not> ts_quit s"
  shows "\<exists>a. fst (run_actor (tui_event env) s (replicate (length (ts_queue s)) EventReceived)) = s\<lparr>ts_ui := a, ts_queue := []\<rparr>"
  using assms
proof (induction "ts_queue s" arbitrary: s)
  case Nil
  then show ?case by (intro exI [of _ "ts_ui s"] TuiSys.equality) auto
next
  case (Cons x q)
  obtain i e where x: "x = (i, e)" by (cases x)
  let ?t = "s\<lparr>ts_queue := q, ts_ui := apply_event i e (ts_ui s)\<rparr>"
  have t: "fst (tui_event env s EventReceived) = ?t" using Cons.hyps(2) Cons.prems x by (simp add: split_beta flip: Cons.hyps(2))
  obtain a where "fst (run_actor (tui_event env) ?t (replicate (length (ts_queue ?t)) EventReceived)) = ?t\<lparr>ts_ui := a, ts_queue := []\<rparr>"
    using Cons.hyps(1) [of ?t] Cons.prems by auto
  moreover have "?t\<lparr>ts_ui := a, ts_queue := []\<rparr> = s\<lparr>ts_ui := a, ts_queue := []\<rparr>" by (rule TuiSys.equality) simp_all
  ultimately show ?case using t by (intro exI [of _ a]) (simp del: tui_event.simps flip: Cons.hyps(2))
qed

text \<open>From every state a finite number of internal steps leads to rest.\<close>

lemma comes_to_rest:
  assumes "inj (ke_gen env)" "tui_inv (ke_gen env) s" "\<not> ts_quit s"
  shows "\<exists>es. list_all internal es \<and> quiet (fst (run_actor (tui_event env) s es)) \<and>
    ts_core (fst (run_actor (tui_event env) s es)) = ts_core s \<and> \<not> ts_quit (fst (run_actor (tui_event env) s es))"
proof -
  let ?es1 = "replicate (length (ts_queue s)) EventReceived @ [IndexChanged]"
  obtain t where t_def: "t = fst (run_actor (tui_event env) s ?es1)" by blast
  let ?es2 = "concat (map settle_forwarder [0..<length (ts_forwarders t)])"
  obtain u where u_def: "u = fst (run_actor (tui_event env) t ?es2)" by blast
  obtain a where a: "fst (run_actor (tui_event env) s (replicate (length (ts_queue s)) EventReceived)) = s\<lparr>ts_ui := a, ts_queue := []\<rparr>"
    using drained [OF assms(3)] by blast
  have "list_all event_wf ?es1" by (simp add: list_all_iff)
  then have inv: "tui_inv (ke_gen env) t" unfolding t_def by (rule tui_inv_run [OF assms(1,2)])
  have seen: "ts_index_seen s \<le> length (a_index (ts_core s))" using assms(2) by (simp add: tui_inv_def tui_ok_def)
  have t: "ts_queue t = []" "\<not> ts_quit t" "ts_core t = ts_core s" "ts_index_seen t = length (a_index (ts_core s))"
    using assms(3) seen by (auto simp: t_def fst_run_actor_append a Let_def session_index_def split: prod.split)
  have u: "ts_core u = ts_core s" "ts_index_seen u = ts_index_seen t" "ts_queue u = []" "\<not> ts_quit u"
    "length (ts_forwarders u) = length (ts_forwarders t)"
    "\<And>j. j < length (ts_forwarders t) \<Longrightarrow> ts_forwarders u ! j =
       calm (session_events (ke_gen env) (fo_id (ts_forwarders t ! j)) (ts_core s)) (ts_forwarders t ! j)"
    using settle_all [OF t(2,1) order_refl, of env] unfolding u_def [symmetric] t(3) by simp_all
  have "\<not> busy (ts_core s) [] f" if f: "f \<in> set (ts_forwarders u)" for f
  proof -
    obtain j where j: "j < length (ts_forwarders t)" "f = ts_forwarders u ! j"
      using f u(5) by (auto simp: in_set_conv_nth)
    have "fo_ok (ts_core s) [] (ts_forwarders t ! j)"
      using inv j(1) t(1,3) by (simp add: tui_inv_def tui_ok_def)
    then obtain x where "hget (a_sessions (ts_core s)) (fo_id (ts_forwarders t ! j)) = Some x"
      "fo_seen (ts_forwarders t ! j) \<le> length (s_events x)" by (auto simp: fo_ok_def)
    then show ?thesis unfolding j(2) u(6) [OF j(1)] by (rule calm_not_busy)
  qed
  then have "quiet u" using u t by (simp add: quiet_def)
  moreover have "list_all internal (?es1 @ ?es2)" by (auto simp: list_all_iff settle_forwarder_def)
  moreover have "fst (run_actor (tui_event env) s (?es1 @ ?es2)) = u" by (simp only: fst_run_actor_append t_def u_def)
  ultimately show ?thesis using u(1,4) by metis
qed

section \<open>The start\<close>

lemma reachable_core:
  assumes "inj gen" "session_reachable gen mx c"
  shows "core_ok gen c \<and> grows (new_actor mx) c"
  using assms(2)
proof (induction rule: reachable.induct)
  case start
  show ?case by (simp add: core_ok_def) (simp add: events_ok_def new_actor_def)
next
  case (handle a m)
  then show ?case using core_after_message [OF assms(1), of a m] grows_trans by blast
qed

lemma tui_inv_start:
  assumes "inj (ke_gen env)" "session_reachable (ke_gen env) mx c"
  shows "tui_inv (ke_gen env) (tui_start env files target c)"
proof -
  let ?d = "snd (direct_send env target (new_ui files) c)" and ?a = "fst (direct_send env target (new_ui files) c)"
  have d: "core_ok (ke_gen env) ?d" "grows (new_actor mx) ?d"
    using core_next_ok [OF assms(1) _ core_next_direct] reachable_core [OF assms] grows_trans by blast+
  then obtain ys where ys: "a_index ?d = [] # ys" by (auto simp: grows_def new_actor_def watch_channel_def)
  have "hget (a_sessions ?d) i = None" if "length (a_index ?d) = 1" for i
  proof -
    have "index_list (a_sessions ?d) = []" using d(1) ys that by (simp add: core_ok_def index_current_def watch_borrow_def)
    then show ?thesis using find_index_list(1) [of "ke_gen env" ?d i] d(1) by (simp add: core_ok_def)
  qed
  moreover have "ui_ok ?a"
    by (auto simp: direct_send_def ui_ok_def new_ui_def with_notice_def Let_def split: option.split prod.split sum.split)
  ultimately have "tui_ok (ke_gen env) (tui_start env files target c)"
    using d(1) ys by (intro tui_okI) (simp_all add: tui_start_def case_prod_beta)
  then show ?thesis by (simp add: tui_inv_def tui_start_def case_prod_beta)
qed

lemma internal_wf: "internal e \<Longrightarrow> event_wf e"
  by (cases e) simp_all

lemma hidden_internal: "list_all internal es \<Longrightarrow> ui_hidden (ts_ui (fst (run_actor (tui_event env) s es))) = ui_hidden (ts_ui s)"
proof (induction es arbitrary: s)
  case (Cons e es)
  have "ui_hidden (ts_ui (fst (tui_event env s e))) = ui_hidden (ts_ui s)" if "internal e"
    using that by (cases e) (auto simp: Let_def forwarder_sends_def apply_event_def split: list.split prod.split option.split)
  then show ?case using Cons by (simp del: tui_event.simps)
qed simp

section \<open>Properties\<close>

text \<open>Every session is watched once: no two forwarders are for one session, and once the loop has taken the newest
  index every session of the core has its forwarder, whatever the order of keys, messages and steps.\<close>

theorem one_forwarder_each:
  assumes "inj (ke_gen env)" "session_reachable (ke_gen env) mx c" "list_all event_wf es"
    and "s = fst (run_actor (tui_event env) (tui_start env files target c) es)"
  shows "distinct (map fo_id (ts_forwarders s)) \<and> fo_id ` set (ts_forwarders s) = ts_watched s \<and>
    (ts_index_seen s = length (session_index (ke_gen env) (ts_core s)) \<longrightarrow>
       (\<forall>i. get_session (ke_gen env) i (ts_core s) \<noteq> None \<longrightarrow> i \<in> ts_watched s))"
proof -
  have "tui_ok (ke_gen env) s"
    using tui_inv_run [OF assms(1) tui_inv_start [OF assms(1,2)] assms(3)] assms(4) by (simp add: tui_inv_def)
  from tui_okD [OF this] show ?thesis by (auto simp: session_index_def get_session_def)
qed

text \<open>C39. The screen catches up: from every state of a run the loop and the forwarders need finitely many steps of
  their own, after which every session of the core that was not cleared has a card, and the card shows the state of
  the session if the newest event of the session tells one.\<close>

theorem screen_catches_up:
  assumes "inj (ke_gen env)" "session_reachable (ke_gen env) mx c" "list_all event_wf es"
    and "s = fst (run_actor (tui_event env) (tui_start env files target c) es)" "\<not> ts_quit s"
  shows "\<exists>es'. list_all internal es' \<and>
    (let s' = fst (run_actor (tui_event env) s es') in
     quiet s' \<and> ts_core s' = ts_core s \<and>
     (\<forall>i x. hget (a_sessions (ts_core s)) i = Some x \<and> i \<notin> ui_hidden (ts_ui s) \<longrightarrow>
        (\<exists>v. view_of (ui_sessions (ts_ui s')) i = Some v \<and>
           (event_state (last (s_events x)) \<noteq> None \<longrightarrow> sv_state v = s_state x))))"
proof -
  have inv: "tui_inv (ke_gen env) s"
    using tui_inv_run [OF assms(1) tui_inv_start [OF assms(1,2)] assms(3)] assms(4) by simp
  obtain es' where es': "list_all internal es'" "quiet (fst (run_actor (tui_event env) s es'))"
    "ts_core (fst (run_actor (tui_event env) s es')) = ts_core s"
    using comes_to_rest [OF assms(1) inv assms(5)] by blast
  obtain s' where s': "s' = fst (run_actor (tui_event env) s es')" by blast
  have "list_all event_wf es'" using es'(1) internal_wf by (auto simp: list_all_iff)
  then have ok: "tui_ok (ke_gen env) s'" using tui_inv_run [OF assms(1) inv] s' by (simp add: tui_inv_def)
  have "\<exists>v. view_of (ui_sessions (ts_ui s')) i = Some v \<and> (event_state (last (s_events x)) \<noteq> None \<longrightarrow> sv_state v = s_state x)"
    if x: "hget (a_sessions (ts_core s)) i = Some x" "i \<notin> ui_hidden (ts_ui s)" for i x
  proof -
    have "ts_index_seen s' = length (a_index (ts_core s'))" "hget (a_sessions (ts_core s')) i = Some x"
      "i \<notin> ui_hidden (ts_ui s')"
      using es' x hidden_internal [OF es'(1)] by (simp_all add: s' quiet_def)
    from tui_ok_card [OF ok this] show ?thesis using es'(2) by (auto simp: s' [symmetric] shown_def quiet_def)
  qed
  then show ?thesis using es' by (auto simp: s' Let_def)
qed

text \<open>The caveat of the previous property is real: an event that waits in the queue while a newer index is
  published is applied after or before it, as the loop happens to choose, and applied after it the card goes back to
  the older state, which later events that tell no state do not correct.\<close>

theorem stale_event_regresses:
  assumes "inj (ke_gen env)" "session_reachable (ke_gen env) mx c" "list_all event_wf es"
    and "s = fst (run_actor (tui_event env) (tui_start env files target c) es)" "\<not> ts_quit s"
    and "hget (a_sessions (ts_core s)) i = Some x" "i \<notin> ui_hidden (ts_ui s)"
    and "ts_index_seen s < length (a_index (ts_core s))" "ts_queue s = [(i, StateChanged st)]"
  shows "map_option sv_state (view_of (ui_sessions (ts_ui (fst (run_actor (tui_event env) s [EventReceived, IndexChanged])))) i) =
      Some (s_state x) \<and>
    map_option sv_state (view_of (ui_sessions (ts_ui (fst (run_actor (tui_event env) s [IndexChanged, EventReceived])))) i) =
      Some st"
proof -
  have "tui_ok (ke_gen env) s"
    using tui_inv_run [OF assms(1) tui_inv_start [OF assms(1,2)] assms(3)] assms(4) by (simp add: tui_inv_def)
  then have core: "session_inv (ke_gen env) (ts_core s)" "index_current (ts_core s)" by (simp_all add: tui_ok_def core_ok_def)
  have "view_of (ui_sessions (apply_index (index_list (a_sessions (ts_core s))) a)) i =
      Some (refreshed (summary x) (view_of (ui_sessions a) i))" if "ui_hidden a = ui_hidden (ts_ui s)" for a
    using view_of_apply_index [OF find_index_list(2) [OF core(1)], of a i] find_index_list(1) [OF core(1), of i] assms(6,7) that by simp
  moreover have "sv_state (refreshed (summary x) old) = s_state x" for old
    by (simp add: refreshed_def update_from_summary_def from_summary_def summary_def split: option.split)
  moreover have "ui_hidden (apply_event j e a) = ui_hidden a" for j e a by (simp add: apply_event_def)
  ultimately show ?thesis
    using assms(5,8,9) core(2) by (simp add: Let_def session_index_def index_current_def case_prod_beta view_of_event event_view_state)
qed

section \<open>Witnesses\<close>

text \<open>A session is shown and accepted; the acceptance waits in the queue when the session fails, and a last progress
  report follows.\<close>

definition sample_screen :: "TuiEvent list" where
  "sample_screen =
     [IndexChanged, ForwarderReads 0, ForwarderSends 0, EventReceived, CoreHandles (Accept ''u'' None),
      ForwarderReads 0, ForwarderSends 0, CoreHandles (FailMsg ''u'' ''io''), CoreHandles (ReportProgress ''u'' ''a'' 3)]"

definition sample_shown :: TuiSys where
  "sample_shown = fst (run_actor (tui_event key_env) (tui_start key_env [] None sample_state) sample_screen)"

definition sample_begun :: Actor where
  "sample_begun = fst (handle_message sample_gen sample_state (Accept ''u'' None))"

definition sample_broken :: Actor where
  "sample_broken = fst (handle_message sample_gen sample_begun (FailMsg ''u'' ''io''))"

definition sample_late :: Actor where
  "sample_late = fst (handle_message sample_gen sample_broken (ReportProgress ''u'' ''a'' 3))"

lemma sample_index:
  "map sm_id (watch_borrow (a_index sample_state)) = [''u''] \<and> length (a_index sample_state) = 2"
  by code_simp

lemma sample_late_facts:
  "map_option s_state (hget (a_sessions sample_late) ''u'') = Some Failed \<and> 2 < length (a_index sample_late)"
  by code_simp

lemma sample_feeds:
  "session_events sample_gen ''u'' sample_state = Some [StateChanged Pending]"
  "session_events sample_gen ''u'' sample_begun = Some [StateChanged Pending, StateChanged Transfering]"
  by code_simp+

lemma key_env_ok: "inj (ke_gen key_env)" "session_reachable (ke_gen key_env) 2 sample_state"
  using inj_sample_gen sample_reachable by (simp_all add: key_env_def)

lemma sample_screen_wf: "list_all event_wf sample_screen"
  by (simp add: sample_screen_def)

lemma sample_watch:
  "spawn_watchers sample_gen sample_state (watch_borrow (a_index sample_state)) ({}, []) = ({''u''}, [new_forwarder ''u''])"
proof -
  obtain t where t: "watch_borrow (a_index sample_state) = [t]" "sm_id t = ''u''" using sample_index by auto
  show ?thesis by (simp add: t spawn_watchers_def watch_session_def sample_feeds)
qed

lemma sample_shown_eq:
  "sample_shown =
     \<lparr>ts_core = sample_late,
      ts_ui = apply_event ''u'' (StateChanged Pending) (apply_index (watch_borrow (a_index sample_state)) (new_ui [])),
      ts_index_seen = 2, ts_watched = {''u''},
      ts_forwarders = [\<lparr>fo_id = ''u'', fo_fresh = False, fo_seen = 2, fo_hand = None\<rparr>],
      ts_queue = [(''u'', StateChanged Transfering)], ts_quit = False\<rparr>"
proof -
  have "tui_start key_env [] None sample_state =
      \<lparr>ts_core = sample_state, ts_ui = new_ui [], ts_index_seen = 1, ts_watched = {}, ts_forwarders = [], ts_queue = [],
       ts_quit = False\<rparr>" by (simp add: tui_start_def direct_send_def)
  moreover have "watch_borrow [x] = x" "watch_borrow [x, y] = y" for x y :: SessionEvent by (simp_all add: watch_borrow_def)
  moreover have "ke_gen key_env = sample_gen" by (simp add: key_env_def)
  moreover have "session_index sample_gen sample_state = a_index sample_state" by (simp add: session_index_def)
  ultimately show ?thesis
    unfolding sample_shown_def sample_screen_def
    by (simp add: sample_index sample_feeds sample_watch sample_begun_def [symmetric] sample_broken_def [symmetric]
        sample_late_def [symmetric] forwarder_reads_def forwarder_sends_def new_forwarder_def queue_room_def
        del: handle_message.simps)
qed

lemma sample_shown_facts:
  "\<not> ts_quit sample_shown \<and> ts_index_seen sample_shown < length (a_index (ts_core sample_shown)) \<and>
   ts_queue sample_shown = [(''u'', StateChanged Transfering)] \<and> ''u'' \<notin> ui_hidden (ts_ui sample_shown) \<and>
   map_option s_state (hget (a_sessions (ts_core sample_shown)) ''u'') = Some Failed \<and>
   map fo_id (ts_forwarders sample_shown) = [''u'']"
  using sample_late_facts by (simp add: sample_shown_eq apply_event_def new_ui_def)

theorem one_forwarder_each_witness:
  "distinct (map fo_id (ts_forwarders sample_shown)) \<and> ts_watched sample_shown = {''u''}"
  using one_forwarder_each [OF key_env_ok sample_screen_wf sample_shown_def] sample_shown_facts
  by (metis list.set(1) list.simps(15) set_map)

theorem screen_catches_up_witness:
  "\<exists>es. list_all internal es \<and> quiet (fst (run_actor (tui_event key_env) sample_shown es)) \<and>
     view_of (ui_sessions (ts_ui (fst (run_actor (tui_event key_env) sample_shown es)))) ''u'' \<noteq> None"
proof -
  obtain x where "hget (a_sessions (ts_core sample_shown)) ''u'' = Some x" using sample_shown_facts by auto
  moreover have "\<not> ts_quit sample_shown" "''u'' \<notin> ui_hidden (ts_ui sample_shown)" using sample_shown_facts by auto
  ultimately show ?thesis
    using screen_catches_up [OF key_env_ok sample_screen_wf sample_shown_def] by (fastforce simp: Let_def)
qed

theorem stale_event_regresses_witness:
  "map_option sv_state (view_of (ui_sessions (ts_ui (fst (run_actor (tui_event key_env) sample_shown [IndexChanged, EventReceived])))) ''u'') =
     Some Transfering \<and>
   map_option s_state (hget (a_sessions (ts_core (fst (run_actor (tui_event key_env) sample_shown [IndexChanged, EventReceived])))) ''u'') =
     Some Failed"
proof -
  obtain x where x: "hget (a_sessions (ts_core sample_shown)) ''u'' = Some x" using sample_shown_facts by auto
  have "ts_core (fst (run_actor (tui_event key_env) sample_shown [IndexChanged, EventReceived])) = ts_core sample_shown"
    using sample_shown_facts by (simp add: Let_def case_prod_beta)
  then show ?thesis
    using stale_event_regresses [OF key_env_ok sample_screen_wf sample_shown_def _ x, of "Transfering"] sample_shown_facts
    by simp
qed

end
