(* ===== verification/Tui_Draw.thy ===== *)
theory Tui_Draw
  imports Tui Cli_Config
begin

text \<open>
  What the terminal interface shows, the rendering half of \<open>src/rust/cli/src/tui.rs\<close>.

  \<^item> A line is its text; colours and the borders of the panes are left out.  Strings are UTF-8, so the symbols of
    the screen are written as their bytes.
  \<^item> The progress bar of a file is a parameter: its ratio, percentage and sizes are floating point numbers.
  \<^item> A pane of \<open>h\<close> rows shows at most the first \<open>h\<close> lines of its text: the paragraph is not scrolled, and wrapping
    only makes lines longer.
\<close>

section \<open>Text\<close>

text \<open>\<open>chars()\<close>: a character is a byte and the continuation bytes after it.\<close>

function utf8_chars :: "string \<Rightarrow> string list" where
  "utf8_chars [] = []"
| "utf8_chars (c # s) =
     (c # takeWhile (\<lambda>c. is_cont (byte_of_char c)) s) # utf8_chars (dropWhile (\<lambda>c. is_cont (byte_of_char c)) s)"
  by pat_completeness auto
termination
  by (relation "measure length") (auto simp: le_imp_less_Suc length_dropWhile_le)

definition dash_text :: string where
  "dash_text = [CHR '' '', CHR 0xE2, CHR 0x80, CHR 0x94, CHR '' '']"

definition truncate_text :: "string \<Rightarrow> nat \<Rightarrow> string" where
  "truncate_text s m =
     (if length (utf8_chars s) \<le> m then s
      else concat (take (m - 1) (utf8_chars s)) @ [CHR 0xE2, CHR 0x80, CHR 0xA6])"

section \<open>Devices\<close>

definition device_line :: "nat \<Rightarrow> NodeDevice \<Rightarrow> string" where
  "device_line i d =
     ''['' @ show_nat (i + 1) @ ''] '' @ nd_alias d @
     ''  '' @ nd_address d @ '':'' @ show_nat (unat (nd_port d)) @ ''  '' @ concat (take 8 (utf8_chars (nd_fingerprint d)))"

definition draw_devices :: "UiApp \<Rightarrow> string \<times> string list" where
  "draw_devices a =
     (if ui_pending_files a = [] then ''Devices''
      else ''Devices'' @ dash_text @ show_nat (length (ui_pending_files a)) @ '' file(s) staged, press 1-9 to send'',
      if ui_devices a = [] then [''  (no devices discovered'' @ dash_text @ ''press '' @ [CHR 0x27] @ ''d'' @ [CHR 0x27] @ '' to announce)'']
      else map (\<lambda>(i, d). device_line i d) (List.enumerate 0 (take 9 (ui_devices a))))"

section \<open>Sessions\<close>

fun state_label :: "MissionState \<Rightarrow> string" where
  "state_label Idle = ''idle''"
| "state_label Pending = ''pending''"
| "state_label Transfering = ''transferring''"
| "state_label Finished = ''finished''"
| "state_label Failed = ''failed''"
| "state_label Canceled = ''canceled''"
| "state_label Busy = ''busy''"

fun file_state_label :: "FileState \<Rightarrow> string" where
  "file_state_label FPending = ''waiting''"
| "file_state_label FTransfer = ''sending''"
| "file_state_label FFinish = ''done''"
| "file_state_label FSkip = ''skipped''"
| "file_state_label (FFail msg) = ''failed: '' @ msg"

text \<open>The bar of a file that is neither transferring nor finished; the other one is a parameter.\<close>

definition progress_bar :: "(FileView \<Rightarrow> nat \<Rightarrow> string option) \<Rightarrow> FileView \<Rightarrow> nat \<Rightarrow> string" where
  "progress_bar bar f width =
     (let w = max width 4 in
      case (if fv_state f = FTransfer \<or> fv_state f = FFinish then bar f w else None) of
        Some s \<Rightarrow> s
      | None \<Rightarrow> ''['' @ replicate w (CHR ''-'') @ ''] '' @ file_state_label (fv_state f))"

definition focus_mark :: string where
  "focus_mark = [CHR 0xE2, CHR 0x96, CHR 0xB6]"

definition answer_hint :: string where
  "answer_hint = ''  [y] accept  [n] decline''"

definition direction_label :: "SessionDirection \<Rightarrow> string" where
  "direction_label d =
     (case d of Send \<Rightarrow> [CHR 0xE2, CHR 0x86, CHR 0x91] @ '' send'' | Receive \<Rightarrow> [CHR 0xE2, CHR 0x86, CHR 0x93] @ '' recv'')"

definition session_head :: "SessionView \<Rightarrow> bool \<Rightarrow> string" where
  "session_head v foc =
     (if foc then focus_mark else '' '') @ '' '' @ direction_label (sv_direction v) @
     '' '' @ sv_peer_alias v @ '' ('' @ sv_peer_addr v @ '') '' @ state_label (sv_state v) @
     (if is_pending_receive v then answer_hint else [])"

definition session_lines :: "(FileView \<Rightarrow> nat \<Rightarrow> string option) \<Rightarrow> SessionView \<Rightarrow> bool \<Rightarrow> nat \<Rightarrow> string list" where
  "session_lines bar v foc width =
     (let bar_width = min 40 (max 8 (width - 38)) in
      session_head v foc #
      map (\<lambda>f. ''    '' @ truncate_text (fv_name f) 24 @ '' '' @ progress_bar bar f bar_width) (sv_files v) @
      (case sv_fail_reason v of None \<Rightarrow> [] | Some reason \<Rightarrow> [''    '' @ ''reason: '' @ reason]))"

text \<open>The title and the lines of the pane; cards are separated by an empty line.\<close>

definition draw_sessions :: "(FileView \<Rightarrow> nat \<Rightarrow> string option) \<Rightarrow> UiApp \<Rightarrow> nat \<Rightarrow> string \<times> string list" where
  "draw_sessions bar a width =
     (if 0 < pending_receive_count a
      then ''Sessions'' @ dash_text @ show_nat (pending_receive_count a) @ '' incoming request(s) waiting (Tab to focus)''
      else ''Sessions'',
      if ui_sessions a = [] then [''  (no sessions yet)'']
      else concat (map (\<lambda>(i, v). (if 0 < i then [[]] else []) @ session_lines bar v (i = ui_focus a) (width - 2))
             (List.enumerate 0 (ui_sessions a))))"

section \<open>Status\<close>

definition server_label :: "EffectiveConfig \<Rightarrow> bool watch \<Rightarrow> string option watch \<Rightarrow> string" where
  "server_label config running err =
     (if watch_borrow running then ''listening on :'' @ show_nat (unat (ec_port config))
      else case watch_borrow err of
             Some e \<Rightarrow> ''server error: '' @ e
           | None \<Rightarrow> ''starting'' @ [CHR 0xE2, CHR 0x80, CHR 0xA6])"

definition key_help :: string where
  "key_help =
     '' [1-9] send to device  [a] add file  [y/n] accept/decline  [Tab/'' @
     [CHR 0xE2, CHR 0x86, CHR 0x91] @ ''/'' @ [CHR 0xE2, CHR 0x86, CHR 0x93] @
     ''] focus  [c] cancel  [x] clear done  [d] rediscover  [q] quit''"

definition draw_status :: "UiApp \<Rightarrow> EffectiveConfig \<Rightarrow> bool watch \<Rightarrow> string option watch \<Rightarrow> string list" where
  "draw_status a config running err =
     ['' '' @ ec_alias config @ '' '' @ ''| '' @ server_label config running err @ '' | save to '' @ ec_destination config @
        '' | '' @ (case ui_notice a of None \<Rightarrow> [] | Some n \<Rightarrow> n),
      case ui_input a of
        AddingFile buffer \<Rightarrow>
          '' add file path(s): '' @ buffer @ [CHR 0xE2, CHR 0x96, CHR 0x8C] @ '' (Enter=stage, Esc=cancel)''
      | NormalInput \<Rightarrow> key_help]"

section \<open>Lemmas\<close>

lemma digit_text:
  assumes "k < 9"
  shows "\<exists>d. show_nat (Suc k) = [d] \<and> is_digit d \<and> d \<noteq> CHR ''0'' \<and> digit_val d = Suc k"
proof -
  have "list_all (\<lambda>k. case show_nat (Suc k) of [d] \<Rightarrow> is_digit d \<and> d \<noteq> CHR ''0'' \<and> digit_val d = Suc k | _ \<Rightarrow> False) [0, 1, 2, 3, 4, 5, 6, 7, 8]"
    by code_simp
  then have "case show_nat (Suc k) of [d] \<Rightarrow> is_digit d \<and> d \<noteq> CHR ''0'' \<and> digit_val d = Suc k | _ \<Rightarrow> False"
    using assms by (auto simp: list_all_iff less_Suc_eq numeral_eq_Suc)
  then show ?thesis by (auto split: list.splits)
qed

lemma handle_digit:
  assumes "k < 9" "ui_input a = NormalInput"
  shows "handle_key env (KChar (show_nat (Suc k))) ctrl a c = (send_key env k a c, False)"
proof -
  obtain d where d: "show_nat (Suc k) = [d]" "is_digit d" "d \<noteq> CHR ''0''" "digit_val d = Suc k"
    using digit_text [OF assms(1)] by blast
  then have "d \<noteq> CHR ''q''" "d \<noteq> CHR ''c''" "d \<noteq> CHR ''d''" "d \<noteq> CHR ''a''" "d \<noteq> CHR ''y''" "d \<noteq> CHR ''n''" "d \<noteq> CHR ''x''"
    by (auto simp: is_digit_def)
  then show ?thesis using d assms(2) by (simp add: handle_key_def normal_char_def)
qed

lemma utf8_chars_take:
  assumes "t = [] \<or> \<not> is_cont (byte_of_char (hd t))"
  shows "utf8_chars (concat (take n (utf8_chars s)) @ t) = take n (utf8_chars s) @ utf8_chars t"
proof (induction s arbitrary: n rule: utf8_chars.induct)
  case (2 c s)
  let ?p = "\<lambda>c. is_cont (byte_of_char c)"
  obtain r where r: "r = dropWhile ?p s" by blast
  show ?case
  proof (cases n)
    case (Suc m)
    let ?w = "concat (take m (utf8_chars r)) @ t"
    have w: "?w = [] \<or> \<not> ?p (hd ?w)"
    proof (cases "m = 0 \<or> r = []")
      case True
      then show ?thesis using assms by auto
    next
      case False
      then obtain d r' where "r = d # r'" by (cases r) auto
      moreover from this have "\<not> ?p d" using r by (metis hd_dropWhile list.discI list.sel(1))
      ultimately show ?thesis using False by (cases m) auto
    qed
    have cont: "\<forall>c \<in> set (takeWhile ?p s). ?p c" by (auto dest: set_takeWhileD)
    have "takeWhile ?p (takeWhile ?p s @ ?w) = takeWhile ?p s \<and> dropWhile ?p (takeWhile ?p s @ ?w) = ?w"
    proof (cases "?w = []")
      case False
      then obtain d ds where "?w = d # ds" "\<not> ?p d" using w by (cases ?w) auto
      then show ?thesis using cont by (simp only: takeWhile_append2 dropWhile_append2) simp
    qed (use cont in \<open>simp only: append_Nil2, simp add: takeWhile_eq_all_conv\<close>)
    moreover have "concat (take n (utf8_chars (c # s))) @ t = c # (takeWhile ?p s @ ?w)" by (simp add: Suc r)
    ultimately have "utf8_chars (concat (take n (utf8_chars (c # s))) @ t) = (c # takeWhile ?p s) # utf8_chars ?w" by simp
    also have "utf8_chars ?w = take m (utf8_chars r) @ utf8_chars t" using 2 [of m] by (simp only: r)
    finally show ?thesis by (simp add: Suc r)
  qed simp
qed simp

lemma starts_mark [simp]:
  "\<not> starts_with [] focus_mark" "\<not> starts_with (CHR '' '' # s) focus_mark" "starts_with (focus_mark @ s) focus_mark"
  by (simp_all add: starts_with_def focus_mark_def)

text \<open>The part of the pane of one card.\<close>

definition card_lines :: "(FileView \<Rightarrow> nat \<Rightarrow> string option) \<Rightarrow> nat \<Rightarrow> nat \<Rightarrow> nat \<times> SessionView \<Rightarrow> string list" where
  "card_lines bar foc width iv =
     (case iv of (i, v) \<Rightarrow> (if 0 < i then [[]] else []) @ session_lines bar v (i = foc) (width - 2))"

lemma pane_lines: "ui_sessions a \<noteq> [] \<Longrightarrow>
    snd (draw_sessions bar a width) = concat (map (card_lines bar (ui_focus a) width) (List.enumerate 0 (ui_sessions a)))"
  by (simp add: draw_sessions_def card_lines_def [abs_def])

definition marked :: "string \<Rightarrow> bool" where
  "marked l \<longleftrightarrow> starts_with l focus_mark"

lemma marked_card:
  "filter marked (card_lines bar foc width (i, v)) = (if i = foc then [session_head v True] else [])"
  by (auto simp: card_lines_def session_lines_def Let_def marked_def session_head_def filter_empty_conv
      split: option.split)

lemma marked_cards:
  "filter marked (concat (map (card_lines bar foc width) (List.enumerate n vs))) =
     (if n \<le> foc \<and> foc < n + length vs then [session_head (vs ! (foc - n)) True] else [])"
proof (induction vs arbitrary: n)
  case (Cons v vs)
  show ?case
    using Cons.IH [of "Suc n"] by (cases "foc = n") (auto simp: marked_card nth_Cons' Suc_diff_Suc)
qed simp

lemma cards_length: "length (concat (map (card_lines bar foc width) (List.enumerate n vs))) \<ge> 2 * length vs - (if n = 0 then 1 else 0)"
proof (induction vs arbitrary: n)
  case (Cons v vs)
  have "length (card_lines bar foc width (n, v)) \<ge> (if n = 0 then 1 else 2)" by (simp add: card_lines_def session_lines_def Let_def)
  then show ?case using Cons.IH [of "Suc n"] by (auto split: if_splits)
qed simp

text \<open>The first lines of the pane belong to the first cards.\<close>

lemma take_cards:
  assumes "foc < length vs" "h \<le> 2 * foc"
  shows "filter marked (take h (concat (map (card_lines bar foc width) (List.enumerate 0 vs)))) = []"
proof -
  let ?g = "card_lines bar foc width"
  obtain v us ws where vs: "vs = us @ v # ws" "length us = foc"
    using id_take_nth_drop [OF assms(1)] assms(1) by (metis length_take min.absorb4)
  let ?pre = "concat (map ?g (List.enumerate 0 us)) @ (if 0 < foc then [[]] else [])"
  have "2 * foc \<le> length ?pre" using cards_length [where vs = us and bar = bar and foc = foc and width = width and n = 0] vs(2) by (cases foc) auto
  then have pre: "take h (?pre @ post) = take h ?pre" for post using assms(2) by simp
  have eq: "concat (map ?g (List.enumerate 0 vs)) =
      ?pre @ session_lines bar v True (width - 2) @ concat (map ?g (List.enumerate (Suc foc) ws))"
    using vs by (simp add: enumerate_append_eq card_lines_def)
  have "filter marked ?pre = []" using marked_cards [of bar foc width 0 us] vs(2) by (simp add: marked_def)
  then have none: "filter marked (take h ?pre) = []" unfolding filter_empty_conv using set_take_subset [of h ?pre] by blast
  show ?thesis unfolding eq pre by (rule none)
qed

lemma hint_shown: "ends_with (session_head v foc) answer_hint = is_pending_receive v"
proof (cases "is_pending_receive v")
  case True
  then have head: "session_head v foc = ((if foc then focus_mark else '' '') @ '' '' @ direction_label (sv_direction v) @
     '' '' @ sv_peer_alias v @ '' ('' @ sv_peer_addr v @ '') '' @ state_label (sv_state v)) @ answer_hint"
    by (simp add: session_head_def)
  have "ends_with (p @ answer_hint) answer_hint" for p by (simp add: ends_with_def starts_with_def)
  then show ?thesis unfolding head using True by blast
next
  case False
  then show ?thesis
    by (cases "sv_state v") (auto simp: session_head_def answer_hint_def ends_with_def starts_with_def)
qed

section \<open>Properties\<close>

text \<open>The digits mean what the screen says: with files staged, the key of the number in front of a device sends them
  to that device, and a digit that stands before no device sends nothing.\<close>

theorem keys_as_labelled:
  assumes "ui_input a = NormalInput" "ui_pending_files a \<noteq> []" "k < 9"
    and c': "c' = snd (fst (handle_key env (KChar (show_nat (Suc k))) ctrl a c))"
  shows "if k < length (ui_devices a)
    then (let d = ui_devices a ! k in
      k < length (snd (draw_devices a)) \<and>
      starts_with (snd (draw_devices a) ! k) (''['' @ show_nat (Suc k) @ ''] '' @ nd_alias d) \<and>
      c' = fst (send_files (ke_lower env) (ke_gen env) d
                 (map (\<lambda>p. \<lparr>sf_path = p, sf_size = ke_meta env p\<rparr>) (ui_pending_files a)) c))
    else c' = c \<and> (ui_devices a \<noteq> [] \<longrightarrow> length (snd (draw_devices a)) \<le> k)"
proof -
  have key: "c' = snd (send_key env k a c)" using handle_digit [OF assms(3,1)] by (simp add: c')
  show ?thesis
  proof (cases "k < length (ui_devices a)")
    case True
    then have "snd (draw_devices a) = map (\<lambda>(i, d). device_line i d) (List.enumerate 0 (take 9 (ui_devices a)))"
      by (auto simp: draw_devices_def)
    then have "k < length (snd (draw_devices a))" "snd (draw_devices a) ! k = device_line k (ui_devices a ! k)"
      using True assms(3) by (simp_all add: nth_enumerate_eq)
    moreover have "c' = fst (send_files (ke_lower env) (ke_gen env) (ui_devices a ! k)
        (map (\<lambda>p. \<lparr>sf_path = p, sf_size = ke_meta env p\<rparr>) (ui_pending_files a)) c)"
      using True assms(2) by (auto simp: key send_key_def Let_def split: prod.split sum.split)
    ultimately show ?thesis using True by (simp add: Let_def device_line_def starts_with_def)
  next
    case False
    then show ?thesis using assms(2) by (simp add: key send_key_def draw_devices_def min.coboundedI1)
  qed
qed

text \<open>C40. The screen marks one card, the one in focus, and shows the hint for the keys y and n exactly on the cards of
  requests that wait for an answer; y accepts the marked card if it shows the hint, and does nothing otherwise.  But
  a pane shows its first lines only: with the focus on card f, counted from 0, no mark is shown on a pane of at most
  2 f rows, and the keys still act on it.\<close>

theorem marked_card_answers:
  assumes "ui_ok a" "ui_sessions a \<noteq> []" "ui_input a = NormalInput"
  shows "\<exists>v. filter marked (snd (draw_sessions bar a width)) = [session_head v True] \<and> focused a = Some v \<and>
    snd (fst (handle_key env (KChar ''y'') ctrl a c)) =
      (if ends_with (session_head v True) answer_hint then fst (accept (ke_gen env) (sv_id v) None c) else c) \<and>
    (\<forall>h \<le> 2 * ui_focus a. filter marked (take h (snd (draw_sessions bar a width))) = [])"
proof -
  have f: "ui_focus a < length (ui_sessions a)" using assms(1,2) by (simp add: ui_ok_def)
  let ?v = "ui_sessions a ! ui_focus a"
  have "filter marked (snd (draw_sessions bar a width)) = [session_head ?v True]"
    using marked_cards [of bar "ui_focus a" width 0 "ui_sessions a"] f by (simp add: pane_lines [OF assms(2)])
  moreover have foc: "focused a = Some ?v" using f by (simp add: focused_def)
  moreover have "snd (fst (handle_key env (KChar ''y'') ctrl a c)) =
      (if ends_with (session_head ?v True) answer_hint then fst (accept (ke_gen env) (sv_id ?v) None c) else c)"
    using foc assms(3) unfolding hint_shown
    by (auto simp: handle_key_def normal_char_def answer_key_def split: prod.split sum.split)
  moreover have "\<forall>h \<le> 2 * ui_focus a. filter marked (take h (snd (draw_sessions bar a width))) = []"
    using take_cards [OF f] by (simp add: pane_lines [OF assms(2)])
  ultimately show ?thesis by blast
qed

text \<open>When the configured port is taken, the server listens on another one and the device announces that one, but
  the status line goes on naming the configured port.\<close>

theorem status_names_configured_port:
  assumes "bind_port free (ec_port config) = Inr p"
    and "a = start free (new_app (build_device config) (cli_core_config config dir) options tls)"
  shows "server_label config (ap_state a) (ap_error a) = ''listening on :'' @ show_nat (unat (ec_port config)) \<and>
    nd_port (current_device a) = p"
proof -
  let ?a = "new_app (build_device config) (cli_core_config config dir) options tls"
  have "cc_port (get_config ?a) = ec_port config" "ports_agree ?a"
    by (simp_all add: new_app_def get_config_def build_device_def ports_agree_def current_device_def new_device_actor_def
        get_current_device_def)
  then show ?thesis
    using on_start_Inr [of free ?a p] assms by (simp add: start_def server_label_def)
qed

text \<open>A name is cut to the columns it may take, and one that fits is shown as it is.\<close>

theorem truncated_fits:
  "length (utf8_chars (truncate_text s m)) \<le> max m 1 \<and> (length (utf8_chars s) \<le> m \<longrightarrow> truncate_text s m = s)"
proof -
  have "utf8_chars [CHR 0xE2, CHR 0x80, CHR 0xA6] = [[CHR 0xE2, CHR 0x80, CHR 0xA6]]" "\<not> is_cont (byte_of_char (CHR 0xE2))"
    by code_simp+
  then have "utf8_chars (concat (take (m - 1) (utf8_chars s)) @ [CHR 0xE2, CHR 0x80, CHR 0xA6]) =
      take (m - 1) (utf8_chars s) @ [[CHR 0xE2, CHR 0x80, CHR 0xA6]]"
    using utf8_chars_take [of "[CHR 0xE2, CHR 0x80, CHR 0xA6]" "m - 1" s] by simp
  then show ?thesis by (auto simp: truncate_text_def)
qed

section \<open>Witnesses\<close>

definition sample_screen_ui :: UiApp where
  "sample_screen_ui =
     (apply_index (watch_borrow (a_index sample_state)) (new_ui [''a'']))\<lparr>ui_devices := [sample_device]\<rparr>"

theorem keys_as_labelled_witness:
  "starts_with (snd (draw_devices ((new_ui [''a''])\<lparr>ui_devices := [sample_device]\<rparr>)) ! 0) (''['' @ show_nat 1 @ ''] '' @ nd_alias sample_device) \<and>
   snd (fst (handle_key key_env (KChar (show_nat 2)) False ((new_ui [''a''])\<lparr>ui_devices := [sample_device]\<rparr>) sample_state)) = sample_state"
  using keys_as_labelled [of "(new_ui [''a''])\<lparr>ui_devices := [sample_device]\<rparr>" 0 _ key_env False sample_state, OF _ _ _ refl]
    keys_as_labelled [of "(new_ui [''a''])\<lparr>ui_devices := [sample_device]\<rparr>" 1 _ key_env False sample_state, OF _ _ _ refl]
  by (simp add: new_ui_def Let_def numeral_2_eq_2)

theorem marked_card_answers_witness:
  "\<exists>v. focused sample_screen_ui = Some v \<and> filter marked (snd (draw_sessions (\<lambda>_ _. None) sample_screen_ui 80)) = [session_head v True]"
proof -
  have "ui_ok (new_ui [''a''])" by (simp add: ui_ok_new)
  then have "ui_ok (fst (ui_step (fst (ui_step (new_ui [''a'']) (UiIndex (watch_borrow (a_index sample_state))))) (UiDevices [sample_device])))"
    by (intro ui_ok_step)
  then have "ui_ok sample_screen_ui" by (simp add: sample_screen_ui_def apply_devices_def)
  moreover have "ui_sessions sample_screen_ui \<noteq> []"
    using sample_index by (auto simp: sample_screen_ui_def apply_index_def clamp_focus_def Let_def merge_summary_def new_ui_def)
  moreover have "ui_input sample_screen_ui = NormalInput"
    by (simp add: sample_screen_ui_def apply_index_def clamp_focus_def Let_def new_ui_def)
  ultimately show ?thesis
    using marked_card_answers [of sample_screen_ui "\<lambda>_ _. None" 80 key_env False sample_state] by blast
qed

definition sample_cli :: EffectiveConfig where
  "sample_cli = \<lparr>ec_alias = ''a'', ec_port = 53317, ec_destination = ''d'', ec_fingerprint = ''f'', ec_relay = None\<rparr>"

theorem status_names_configured_port_witness:
  "\<exists>a. server_label sample_cli (ap_state a) (ap_error a) = ''listening on :'' @ show_nat 53317 \<and> nd_port (current_device a) = 53318"
proof -
  have "bind_port (\<lambda>p. p \<noteq> 53317) (ec_port sample_cli) = Inr 53318"
    by (simp add: sample_cli_def bind_port_def saturating_add16_def upt_rec)
  from status_names_configured_port [OF this refl] show ?thesis by (auto simp: sample_cli_def)
qed

end
